(* ===== verification/Prelude.thy ===== *)
theory Prelude
  imports Complex_Main "HOL-Library.Word"
begin

text \<open>
  Shared vocabulary of the development: Python exceptions as values, the sequencing of
  computations that may raise, the run of a stateful handler over a list of inputs, and two
  interfaces several components share (a handler with an invariant, and a wire codec).
\<close>

section \<open>Exceptions as values\<close>

text \<open>
  The exception classes the modelled code raises or catches. \<open>UnicodeEncodeError\<close> is a subclass
  of \<open>ValueError\<close> in Python, so an \<open>except ValueError\<close> clause catches both
  (\<open>caught_by_ValueError\<close>). \<open>ExceptionGroup\<close> is what a \<open>TaskGroup\<close> raises, whatever its tasks raised.
  \<open>LibraryError\<close> stands for any exception of a third-party package.
\<close>

datatype exn =
    ValueError
  | UnicodeEncodeError
  | OverflowError
  | IndexError
  | KeyError
  | TypeError
  | ZeroDivisionError
  | AssertionError
  | RuntimeError
  | OSError
  | TimeoutError
  | CancelledError
  | ExceptionGroup
  | LibraryError

type_synonym 'a res = "exn + 'a"

definition caught_by_ValueError :: "exn \<Rightarrow> bool" where
  "caught_by_ValueError e \<longleftrightarrow> e = ValueError \<or> e = UnicodeEncodeError"

text \<open>Sequencing: the second computation runs only when the first returns.\<close>

fun bindR :: "'a res \<Rightarrow> ('a \<Rightarrow> 'b res) \<Rightarrow> 'b res" where
  "bindR (Inl e) f = Inl e"
| "bindR (Inr x) f = f x"

lemma bindR_eq_Inr_iff [simp]:
  "bindR m f = Inr y \<longleftrightarrow> (\<exists>x. m = Inr x \<and> f x = Inr y)"
  by (cases m) auto

lemma bindR_eq_Inl_iff [simp]:
  "bindR m f = Inl e \<longleftrightarrow> m = Inl e \<or> (\<exists>x. m = Inr x \<and> f x = Inl e)"
  by (cases m) auto

lemma bindR_cong [fundef_cong]:
  "m = m' \<Longrightarrow> (\<And>x. m' = Inr x \<Longrightarrow> f x = f' x) \<Longrightarrow> bindR m f = bindR m' f'"
  by (cases m') auto

lemma bindR_Inr [simp]: "bindR m Inr = m"
  by (cases m) auto

lemma bindR_assoc: "bindR (bindR m f) g = bindR m (\<lambda>x. bindR (f x) g)"
  by (cases m) auto

text \<open>A computation applied to every element of a list, stopping at the first exception.\<close>

fun mapR :: "('a \<Rightarrow> 'b res) \<Rightarrow> 'a list \<Rightarrow> 'b list res" where
  "mapR f [] = Inr []"
| "mapR f (x # xs) = bindR (f x) (\<lambda>y. bindR (mapR f xs) (\<lambda>ys. Inr (y # ys)))"

lemma mapR_all_Inr: "(\<And>x. x \<in> set xs \<Longrightarrow> f x = Inr (g x)) \<Longrightarrow> mapR f xs = Inr (map g xs)"
  by (induction xs) auto

lemma mapR_eq_Inr_length: "mapR f xs = Inr ys \<Longrightarrow> length ys = length xs"
  by (induction xs arbitrary: ys) auto

lemma mapR_append:
  "mapR f (xs @ ys) = bindR (mapR f xs) (\<lambda>us. bindR (mapR f ys) (\<lambda>vs. Inr (us @ vs)))"
  by (induction xs) (auto simp: bindR_assoc intro!: bindR_cong)

text \<open>
  A \<open>for\<close> loop over candidates that tries each and goes on (\<open>continue\<close>) until one fits, raising if a
  try raises: the first candidate that fits, with what its try gave.
\<close>

fun first_match :: "('a \<Rightarrow> 'b option res) \<Rightarrow> 'a list \<Rightarrow> ('a \<times> 'b) option res" where
  "first_match f [] = Inr None"
| "first_match f (x # xs) =
     bindR (f x) (\<lambda>r. case r of None \<Rightarrow> first_match f xs | Some y \<Rightarrow> Inr (Some (x, y)))"

lemma first_match_Some:
  "first_match f xs = Inr (Some (x, y)) \<Longrightarrow> x \<in> set xs \<and> f x = Inr (Some y)"
  by (induction xs) (auto split: option.splits)

lemma first_match_comp:
  assumes "first_match (f \<circ> g) xs = Inr (Some (x, y))" "map g xs = map g xs'"
  shows "\<exists>x'. first_match (f \<circ> g) xs' = Inr (Some (x', y)) \<and> g x' = g x"
  using assms
proof (induction xs arbitrary: xs')
  case (Cons a xs)
  obtain a' as where xs': "xs' = a' # as" "g a' = g a" "map g as = map g xs" using Cons.prems(2) by (cases xs') auto
  show ?case
  proof (cases "f (g a)")
    case (Inr r)
    then show ?thesis using Cons.prems(1) Cons.IH [of as] xs' by (cases r) auto
  qed (use Cons.prems in simp)
qed simp

lemma first_match_total:
  "(\<And>x. x \<in> set xs \<Longrightarrow> \<exists>r. f x = Inr r) \<Longrightarrow> \<exists>r. first_match f xs = Inr r"
proof (induction xs)
  case (Cons x xs)
  obtain r where r: "f x = Inr r" using Cons.prems [of x] by auto
  obtain q where "first_match f xs = Inr q" using Cons by auto
  then show ?case using r by (cases r) simp_all
qed simp

section \<open>Effects\<close>

text \<open>
  A computation with effects takes the state of the world and returns a result or an exception, with
  the new state: what it changed before it raised stays changed.
\<close>

type_synonym ('w, 'a) io = "'w \<Rightarrow> 'a res \<times> 'w"

definition returnIO :: "'a \<Rightarrow> ('w, 'a) io" where
  "returnIO x w = (Inr x, w)"

definition bindIO :: "('w, 'a) io \<Rightarrow> ('a \<Rightarrow> ('w, 'b) io) \<Rightarrow> ('w, 'b) io" where
  "bindIO m f w = (case m w of (Inl e, w1) \<Rightarrow> (Inl e, w1) | (Inr x, w1) \<Rightarrow> f x w1)"

definition liftR :: "'a res \<Rightarrow> ('w, 'a) io" where
  "liftR r w = (r, w)"

definition getIO :: "('w, 'w) io" where
  "getIO w = (Inr w, w)"

text \<open>\<open>try\<close> with one \<open>except\<close> clause that only logs.\<close>

definition catching :: "(exn \<Rightarrow> bool) \<Rightarrow> ('w, unit) io \<Rightarrow> ('w, unit) io" where
  "catching P m w = (case m w of (Inl e, w1) \<Rightarrow> (if P e then (Inr (), w1) else (Inl e, w1)) | r \<Rightarrow> r)"

definition modifyIO :: "('w \<Rightarrow> 'w) \<Rightarrow> ('w, unit) io" where
  "modifyIO f w = (Inr (), f w)"

text \<open>\<open>try: m finally: f\<close>; an exception of the cleanup replaces that of the body.\<close>

definition finallyIO :: "('w, 'a) io \<Rightarrow> ('w, unit) io \<Rightarrow> ('w, 'a) io" where
  "finallyIO m f w = (case m w of (r, w1) \<Rightarrow> (case f w1 of (Inl e, w2) \<Rightarrow> (Inl e, w2) | (Inr _, w2) \<Rightarrow> (r, w2)))"

text \<open>A \<open>for\<close> loop whose body has effects; an exception ends it.\<close>

fun forIO :: "'a list \<Rightarrow> ('a \<Rightarrow> ('w, unit) io) \<Rightarrow> ('w, unit) io" where
  "forIO [] body = returnIO ()"
| "forIO (x # xs) body = bindIO (body x) (\<lambda>_. forIO xs body)"

lemmas io_defs = returnIO_def bindIO_def liftR_def getIO_def modifyIO_def

text \<open>
  The weakest precondition of a computation: it returns with \<open>Q\<close>, or raises leaving a world with \<open>E\<close>.
  The equations of \<open>wp\<close> reduce a handler to its operations.
\<close>

definition wp :: "('w, 'a) io \<Rightarrow> ('a \<Rightarrow> 'w \<Rightarrow> bool) \<Rightarrow> ('w \<Rightarrow> bool) \<Rightarrow> 'w \<Rightarrow> bool" where
  "wp m Q E w \<longleftrightarrow> (case m w of (Inl e, w1) \<Rightarrow> E w1 | (Inr x, w1) \<Rightarrow> Q x w1)"

named_theorems wp

lemma wp_simps [wp]:
  shows "wp (returnIO x) Q E = Q x"
    and "wp (liftR r) Q E = (case r of Inl e \<Rightarrow> E | Inr x \<Rightarrow> Q x)"
    and "wp getIO Q1 E = (\<lambda>w. Q1 w w)"
    and "wp (modifyIO g) Q2 E = (\<lambda>w. Q2 () (g w))"
    and "wp (bindIO m f) Q3 E = wp m (\<lambda>x. wp (f x) Q3 E) E"
  by (auto simp: wp_def io_defs fun_eq_iff split: sum.splits prod.splits)

lemma wp_if [wp]: "wp (if b then m else n) Q E = (if b then wp m Q E else wp n Q E)"
  by simp

lemma wp_option [wp]:
  "wp (case r of None \<Rightarrow> m | Some x \<Rightarrow> f x) Q E = (case r of None \<Rightarrow> wp m Q E | Some x \<Rightarrow> wp (f x) Q E)"
  by (cases r) simp_all

lemma wp_pair [wp]: "wp (case r of (x, y) \<Rightarrow> f x y) Q E = (case r of (x, y) \<Rightarrow> wp (f x y) Q E)"
  by (cases r) simp_all

lemma wp_mono:
  "wp m Q E w \<Longrightarrow> (\<And>x w. Q x w \<Longrightarrow> Q' x w) \<Longrightarrow> (\<And>w. E w \<Longrightarrow> E' w) \<Longrightarrow> wp m Q' E' w"
  by (auto simp: wp_def split: sum.splits prod.splits)

lemma wp_always: "(\<And>x u. Q x u) \<Longrightarrow> (\<And>u. E u) \<Longrightarrow> wp m Q E w"
  by (simp add: wp_def split: sum.splits prod.splits)

lemma wp_lift_I:
  "E w \<Longrightarrow> (\<And>x. r = Inr x \<Longrightarrow> Q x w) \<Longrightarrow> wp (liftR r) Q E w"
  by (cases r) (simp_all add: wp)

lemma wp_for:
  assumes "I w" "\<And>x w. x \<in> set xs \<Longrightarrow> I w \<Longrightarrow> wp (body x) (\<lambda>_. I) E w"
  shows "wp (forIO xs body) (\<lambda>_. I) E w"
  using assms
proof (induction xs arbitrary: w)
  case (Cons x xs)
  have "wp (body x) (\<lambda>_. I) E w" using Cons.prems by simp
  then have "wp (body x) (\<lambda>_. wp (forIO xs body) (\<lambda>_. I) E) E w"
    by (rule wp_mono) (use Cons in auto)
  then show ?case by (simp add: wp)
qed (simp add: wp)

lemma wp_catching [wp]: "wp (catching P m) (\<lambda>_. I) I = wp m (\<lambda>_. I) I"
  by (auto simp: wp_def catching_def fun_eq_iff split: sum.splits prod.splits)

lemma wp_finally [wp]: "wp (finallyIO m f) Q E = wp m (\<lambda>x. wp f (\<lambda>_. Q x) E) (wp f (\<lambda>_. E) E)"
proof
  fix w
  obtain r w1 where m: "m w = (r, w1)" by (cases "m w")
  obtain q w2 where f: "f w1 = (q, w2)" by (cases "f w1")
  show "wp (finallyIO m f) Q E w = wp m (\<lambda>x. wp f (\<lambda>_. Q x) E) (wp f (\<lambda>_. E) E) w"
    by (cases r; cases q) (simp_all add: wp_def finallyIO_def m f)
qed

lemma wp_snd: "wp m (\<lambda>_. P) P w \<longleftrightarrow> P (snd (m w))"
  by (auto simp: wp_def split: sum.splits prod.splits)

text \<open>A computation that cannot raise.\<close>

lemma wp_runs: "wp m Q (\<lambda>_. False) w \<longleftrightarrow> (\<exists>x w1. m w = (Inr x, w1) \<and> Q x w1)"
  by (cases "m w"; cases "fst (m w)") (auto simp: wp_def)

section \<open>Handlers run over a list of inputs\<close>

text \<open>
  A \<open>for\<close> loop that feeds inputs to a stateful handler and collects what it emits.
\<close>

fun run_machine :: "('s \<Rightarrow> 'e \<Rightarrow> 's \<times> 'o list) \<Rightarrow> 's \<Rightarrow> 'e list \<Rightarrow> 's \<times> 'o list" where
  "run_machine step s [] = (s, [])"
| "run_machine step s (e # es) =
     (let (s1, out1) = step s e; (s2, out2) = run_machine step s1 es in (s2, out1 @ out2))"

lemma fst_run_machine_Cons: "fst (run_machine step s (e # es)) = fst (run_machine step (fst (step s e)) es)"
  by (simp add: Let_def split: prod.splits)

lemma run_machine_append:
  "run_machine step s (xs @ ys) =
     (let (s1, out1) = run_machine step s xs; (s2, out2) = run_machine step s1 ys
      in (s2, out1 @ out2))"
  by (induction xs arbitrary: s) (auto simp: Let_def split: prod.splits)

lemma run_machine_snoc:
  "run_machine step s (xs @ [x]) =
     (let (s1, out1) = run_machine step s xs; (s2, out2) = step s1 x in (s2, out1 @ out2))"
  by (simp add: run_machine_append Let_def split: prod.splits)

text \<open>
  A handler with an invariant on its state and a property of everything it emits: what one step
  keeps and emits, every run keeps and emits.
\<close>

locale machine =
  fixes step :: "'s \<Rightarrow> 'e \<Rightarrow> 's \<times> 'o list"
    and inv :: "'s \<Rightarrow> bool"
    and good :: "'o \<Rightarrow> bool"
  assumes step_inv: "inv s \<Longrightarrow> inv (fst (step s e))"
    and step_good: "inv s \<Longrightarrow> x \<in> set (snd (step s e)) \<Longrightarrow> good x"
begin

lemma run_inv: "inv s \<Longrightarrow> inv (fst (run_machine step s es))"
proof (induction es arbitrary: s)
  case (Cons e es)
  obtain s1 out1 where st: "step s e = (s1, out1)" by (cases "step s e")
  have "inv s1" using step_inv [OF Cons.prems, of e] st by simp
  from Cons.IH [OF this] show ?case using st by (auto simp: Let_def split: prod.splits)
qed simp

lemma run_good: "inv s \<Longrightarrow> x \<in> set (snd (run_machine step s es)) \<Longrightarrow> good x"
proof (induction es arbitrary: s)
  case (Cons e es)
  obtain s1 out1 where st: "step s e = (s1, out1)" by (cases "step s e")
  have "inv s1" using step_inv [OF Cons.prems(1), of e] st by simp
  from Cons.IH [OF this] show ?case
    using Cons.prems step_good [OF Cons.prems(1), of x e] st
    by (auto simp: Let_def split: prod.splits)
qed simp

text \<open>An output of a run is an output of one step, when steps emit at most one.\<close>

lemma split_output:
  assumes "inv s" "\<And>s e. inv s \<Longrightarrow> length (snd (step s e)) \<le> 1" "snd (run_machine step s es) = pre @ x # post"
  shows "\<exists>es1 e es2. es = es1 @ e # es2 \<and> snd (run_machine step s es1) = pre \<and>
    snd (step (fst (run_machine step s es1)) e) = [x]"
  using assms(1,3)
proof (induction es arbitrary: s pre)
  case (Cons e es)
  obtain s1 out1 where st: "step s e = (s1, out1)" by (cases "step s e")
  have inv: "inv s1" using step_inv [OF Cons.prems(1), of e] st by simp
  have all: "out1 @ snd (run_machine step s1 es) = pre @ x # post"
    using Cons.prems(2) st by (simp add: Let_def split: prod.splits)
  have len: "length out1 \<le> 1" using assms(2) [OF Cons.prems(1), of e] st by simp
  show ?case
  proof (cases "out1 = [x] \<and> pre = []")
    case True
    then show ?thesis using st by (intro exI [of _ "[]"] exI [of _ e] exI [of _ es]) simp
  next
    case False
    then obtain pre' where pre: "pre = out1 @ pre'" using all len
      by (cases out1; cases pre) auto
    then have "snd (run_machine step s1 es) = pre' @ x # post" using all by simp
    from Cons.IH [OF inv this] obtain es1 e1 es2 where "es = es1 @ e1 # es2" "snd (run_machine step s1 es1) = pre'"
      "snd (step (fst (run_machine step s1 es1)) e1) = [x]" by blast
    then have "e # es = (e # es1) @ e1 # es2 \<and> snd (run_machine step s (e # es1)) = pre \<and>
        snd (step (fst (run_machine step s (e # es1))) e1) = [x]"
      using pre st by (cases "run_machine step s1 es1") (simp add: Let_def)
    then show ?thesis by blast
  qed
qed simp

end

section \<open>Wire codecs\<close>

text \<open>
  The contract of an encoder and a decoder on a set of valid values: a valid value encodes, the
  decoder gives it back, and whatever the decoder accepts is valid and encodes to the same bytes.
  \<open>same\<close> relates a wire image to the one the encoder writes; for a canonical format it is equality.
\<close>

locale codec =
  fixes valid :: "'a \<Rightarrow> bool"
    and enc :: "'a \<Rightarrow> 'w res"
    and dec :: "'w \<Rightarrow> 'a res"
  assumes enc_total: "valid x \<Longrightarrow> \<exists>w. enc x = Inr w"
    and dec_enc: "valid x \<Longrightarrow> enc x = Inr w \<Longrightarrow> dec w = Inr x"
begin

lemma round: "valid x \<Longrightarrow> bindR (enc x) dec = Inr x"
  using enc_total [of x] dec_enc [of x] by auto

lemma enc_inj: "valid x \<Longrightarrow> valid y \<Longrightarrow> enc x = enc y \<Longrightarrow> x = y"
proof -
  assume "valid x" "valid y" "enc x = enc y"
  then have "bindR (enc x) dec = Inr x" "bindR (enc x) dec = Inr y" by (auto dest: round)
  then show "x = y" by simp
qed

end

locale canonical_codec = codec +
  assumes dec_valid: "dec w = Inr x \<Longrightarrow> valid x"
    and enc_dec: "dec w = Inr x \<Longrightarrow> enc x = Inr w"
begin

lemma dec_inj: "dec v = Inr x \<Longrightarrow> dec w = Inr x \<Longrightarrow> v = w"
  using enc_dec [of v x] enc_dec [of w x] by simp

lemma dec_iff_enc: "dec w = Inr x \<longleftrightarrow> valid x \<and> enc x = Inr w"
  using dec_valid enc_dec dec_enc by blast

end

end
