(* ===== verification/PyBytes.thy ===== *)
theory PyBytes
  imports Prelude
begin

text \<open>
  Python \<open>bytes\<close> as lists of 8-bit words, with the operations of the standard library the code
  uses: slices, \<open>int.to_bytes\<close> and \<open>int.from_bytes\<close> (little endian, signed and unsigned),
  \<open>bytes([n])\<close>, \<open>ljust\<close>, \<open>rstrip\<close>, the cut at the first NUL, and the splitting of a path
  into hash-sized entries.
\<close>

type_synonym byte = "8 word"
type_synonym bytes = "byte list"

section \<open>Integers as little-endian bytes\<close>

primrec le_bytes :: "nat \<Rightarrow> int \<Rightarrow> bytes" where
  "le_bytes 0 v = []"
| "le_bytes (Suc n) v = word_of_int v # le_bytes n (v div 256)"

primrec le_int :: "bytes \<Rightarrow> int" where
  "le_int [] = 0"
| "le_int (b # bs) = uint b + 256 * le_int bs"

lemma length_le_bytes [simp]: "length (le_bytes n v) = n"
  by (induction n arbitrary: v) auto

lemma le_int_ge_0 [simp]: "0 \<le> le_int bs"
  by (induction bs) auto

lemma uint_byte_less [simp]: "uint (b :: byte) < 256"
  using uint_lt2p [of b] by simp

lemma le_int_less: "le_int bs < 256 ^ length bs"
proof (induction bs)
  case (Cons b bs)
  then have "le_int bs + 1 \<le> 256 ^ length bs" by simp
  then have "256 * (le_int bs + 1) \<le> 256 * 256 ^ length bs" by (rule mult_left_mono) simp
  then show ?case using uint_byte_less [of b] by (simp del: uint_byte_less)
qed simp

lemma uint_of_int_byte: "uint (word_of_int v :: byte) = v mod 256"
  by (simp add: uint_word_of_int)

lemma le_int_le_bytes: "le_int (le_bytes n v) = v mod 256 ^ n"
proof (induction n arbitrary: v)
  case (Suc n)
  have "v mod (256 * 256 ^ n) = 256 * (v div 256 mod 256 ^ n) + v mod 256"
    by (rule zmod_zmult2_eq) simp
  then show ?case by (simp add: Suc.IH uint_of_int_byte)
qed simp

lemma le_bytes_le_int: "length bs = n \<Longrightarrow> le_bytes n (le_int bs) = bs"
proof (induction bs arbitrary: n)
  case (Cons b bs)
  have 1: "(uint b + 256 * le_int bs) div 256 = le_int bs"
    using uint_byte_less [of b] by simp
  have 2: "(word_of_int (uint b + 256 * le_int bs) :: byte) = b"
    by (rule word_uint_eqI) (simp only: uint_of_int_byte, simp)
  obtain m where n: "n = Suc m" and m: "length bs = m" using Cons.prems by (cases n) auto
  show ?case unfolding n le_int.simps le_bytes.simps 1 2 by (simp add: Cons.IH [OF m])
qed simp

text \<open>\<open>v.to_bytes(n, "little")\<close> raises \<open>OverflowError\<close> for a value that does not fit.\<close>

definition to_bytes_le :: "nat \<Rightarrow> int \<Rightarrow> bytes res" where
  "to_bytes_le n v = (if 0 \<le> v \<and> v < 256 ^ n then Inr (le_bytes n v) else Inl OverflowError)"

definition to_bytes_le_signed :: "nat \<Rightarrow> int \<Rightarrow> bytes res" where
  "to_bytes_le_signed n v =
     (if - (256 ^ n div 2) \<le> v \<and> v < 256 ^ n div 2 then Inr (le_bytes n v) else Inl OverflowError)"

definition from_bytes_le :: "bytes \<Rightarrow> int" where
  "from_bytes_le bs = le_int bs"

definition from_bytes_le_signed :: "bytes \<Rightarrow> int" where
  "from_bytes_le_signed bs =
     (let v = le_int bs; m = 256 ^ length bs in if v < m div 2 then v else v - m)"

text \<open>\<open>bytes([v])\<close> and \<open>bytearray.append(v)\<close>: \<open>ValueError\<close> outside 0..255.\<close>

definition byte_of :: "int \<Rightarrow> byte res" where
  "byte_of v = (if 0 \<le> v \<and> v < 256 then Inr (word_of_int v) else Inl ValueError)"

lemma to_bytes_le_Inr_iff:
  "to_bytes_le n v = Inr bs \<longleftrightarrow> 0 \<le> v \<and> v < 256 ^ n \<and> bs = le_bytes n v"
  by (auto simp: to_bytes_le_def)

lemma from_to_bytes_le: "to_bytes_le n v = Inr bs \<Longrightarrow> from_bytes_le bs = v"
  by (auto simp: to_bytes_le_Inr_iff from_bytes_le_def le_int_le_bytes)

lemma from_le_bytes: "0 \<le> v \<Longrightarrow> v < 256 ^ n \<Longrightarrow> from_bytes_le (le_bytes n v) = v"
  by (auto simp: from_bytes_le_def le_int_le_bytes)

lemma to_bytes_le_length: "to_bytes_le n v = Inr bs \<Longrightarrow> length bs = n"
  by (auto simp: to_bytes_le_Inr_iff)

lemma to_from_bytes_le: "length bs = n \<Longrightarrow> to_bytes_le n (from_bytes_le bs) = Inr bs"
  using le_int_less [of bs] by (auto simp: to_bytes_le_def from_bytes_le_def le_bytes_le_int)

lemma from_bytes_le_bounds: "0 \<le> from_bytes_le bs \<and> from_bytes_le bs < 256 ^ length bs"
  using le_int_less [of bs] by (simp add: from_bytes_le_def)

lemma to_bytes_le_signed_length: "to_bytes_le_signed n v = Inr bs \<Longrightarrow> length bs = n"
  by (auto simp: to_bytes_le_signed_def split: if_splits)

lemma from_to_bytes_le_signed:
  assumes "to_bytes_le_signed n v = Inr bs" "0 < n"
  shows "from_bytes_le_signed bs = v"
proof -
  define m where "m = (256 :: int) ^ n"
  have v: "- (m div 2) \<le> v" "v < m div 2" and bs: "bs = le_bytes n v"
    using assms(1) by (auto simp: to_bytes_le_signed_def m_def split: if_splits)
  have "even m" "0 < m" using assms(2) by (auto simp: m_def)
  then have m2: "m = 2 * (m div 2)" by simp
  show ?thesis
  proof (cases "0 \<le> v")
    case True
    then have "v mod m = v" using v m2 by (intro mod_pos_pos_trivial) linarith+
    then show ?thesis using v bs by (simp add: from_bytes_le_signed_def le_int_le_bytes m_def)
  next
    case False
    have "v mod m = (v + m) mod m" by simp
    also have "\<dots> = v + m" using v m2 False by (intro mod_pos_pos_trivial) linarith+
    finally have "v mod m = v + m" .
    then show ?thesis using v m2 False bs
      by (simp add: from_bytes_le_signed_def le_int_le_bytes flip: m_def)
  qed
qed

lemma byte_of_Inr_iff: "byte_of v = Inr b \<longleftrightarrow> 0 \<le> v \<and> v < 256 \<and> b = word_of_int v"
  by (auto simp: byte_of_def)

lemma byte_of_uint [simp]: "byte_of (uint b) = Inr b"
  by (simp add: byte_of_def)

lemma uint_byte_of: "byte_of v = Inr b \<Longrightarrow> uint b = v"
  by (auto simp: byte_of_Inr_iff uint_of_int_byte)

section \<open>Slices and padding\<close>

text \<open>\<open>xs[i:j]\<close> for bounds that are not negative; past the end it is shorter, never an error.\<close>

definition py_slice :: "nat \<Rightarrow> nat \<Rightarrow> 'a list \<Rightarrow> 'a list" where
  "py_slice i j xs = take (j - i) (drop i xs)"

lemma slice_append_first [simp]: "length xs = n \<Longrightarrow> py_slice 0 n (xs @ ys) = xs"
  by (simp add: py_slice_def)

lemma slice_append_shift: "length xs = i \<Longrightarrow> i \<le> j \<Longrightarrow> py_slice i j (xs @ ys) = take (j - i) ys"
  by (simp add: py_slice_def)

lemma length_py_slice [simp]: "length (py_slice i j xs) = min (j - i) (length xs - i)"
  by (simp add: py_slice_def)

text \<open>\<open>p.ljust(n, b"\x00")\<close>.\<close>

definition ljust0 :: "nat \<Rightarrow> bytes \<Rightarrow> bytes" where
  "ljust0 n p = p @ replicate (n - length p) 0"

lemma length_ljust0 [simp]: "length (ljust0 n p) = max n (length p)"
  by (simp add: ljust0_def)

text \<open>\<open>p.rstrip(b"\x00")\<close>, and the text before the first NUL (all of it when there is none).\<close>

definition rstrip0 :: "bytes \<Rightarrow> bytes" where
  "rstrip0 p = rev (dropWhile (\<lambda>b. b = 0) (rev p))"

definition before_nul :: "bytes \<Rightarrow> bytes" where
  "before_nul p = takeWhile (\<lambda>b. b \<noteq> 0) p"

lemma dropWhile_zeros: "dropWhile (\<lambda>b. b = 0) (replicate n (0 :: byte) @ q) = dropWhile (\<lambda>b. b = 0) q"
  by (induction n) auto

lemma rstrip0_append_zeros [simp]: "rstrip0 (p @ replicate n 0) = rstrip0 p"
  by (simp add: rstrip0_def dropWhile_zeros)

lemma rstrip0_id: "p = [] \<or> last p \<noteq> 0 \<Longrightarrow> rstrip0 p = p"
  by (cases p rule: rev_cases) (auto simp: rstrip0_def)

lemma rstrip0_zeros: "\<exists>n. p = rstrip0 p @ replicate n 0"
proof (induction p rule: rev_induct)
  case (snoc b p)
  show ?case
  proof (cases "b = 0")
    case True
    from snoc obtain n where "p = rstrip0 p @ replicate n 0" by blast
    then have "p @ [b] = rstrip0 p @ replicate (Suc n) 0"
      using True by (metis append.assoc replicate_Suc replicate_append_same)
    moreover have "rstrip0 (p @ [b]) = rstrip0 p" using True by (simp add: rstrip0_def)
    ultimately show ?thesis by metis
  next
    case False
    then have "rstrip0 (p @ [b]) = p @ [b]" by (simp add: rstrip0_def)
    then show ?thesis by (intro exI [of _ 0]) simp
  qed
qed (simp add: rstrip0_def)

lemma before_nul_cut: "0 \<notin> set p \<Longrightarrow> before_nul (p @ 0 # q) = p"
  by (induction p) (auto simp: before_nul_def)

lemma before_nul_id: "0 \<notin> set p \<Longrightarrow> before_nul p = p"
  by (induction p) (auto simp: before_nul_def)

lemma before_nul_no_zero: "0 \<notin> set (before_nul p)"
  by (auto simp: before_nul_def dest: set_takeWhileD)

lemma before_nul_first: "before_nul (p @ 0 # q) = before_nul p"
  by (induction p) (auto simp: before_nul_def)

section \<open>Splitting into entries of equal size\<close>

text \<open>
  \<open>[p[i:i+k] for i in range(0, len(p), k)]\<close>. A step of 0 is an exception in Python; every caller
  checks \<open>1 \<le> k\<close> first, and \<open>entries 0\<close> is not used.
\<close>

function entries :: "nat \<Rightarrow> 'a list \<Rightarrow> 'a list list" where
  "entries k xs = (if xs = [] \<or> k = 0 then [] else take k xs # entries k (drop k xs))"
  by pat_completeness auto
termination
  by (relation "measure (\<lambda>(k, xs). length xs)") auto

declare entries.simps [simp del]

lemma entries_Nil [simp]: "entries k [] = []"
  by (simp add: entries.simps)

lemma concat_entries: "0 < k \<Longrightarrow> concat (entries k xs) = xs"
proof (induction k xs rule: entries.induct)
  case (1 k xs)
  then show ?case by (subst entries.simps) auto
qed

lemma entries_append:
  "0 < k \<Longrightarrow> length x = k \<Longrightarrow> entries k (x @ xs) = x # entries k xs"
  by (subst entries.simps) auto

lemma entries_concat:
  "0 < k \<Longrightarrow> (\<And>x. x \<in> set xss \<Longrightarrow> length x = k) \<Longrightarrow> entries k (concat xss) = xss"
  by (induction xss) (auto simp: entries_append)

lemma entries_lengths:
  "0 < k \<Longrightarrow> length xs mod k = 0 \<Longrightarrow> x \<in> set (entries k xs) \<Longrightarrow> length x = k"
proof (induction k xs rule: entries.induct)
  case (1 k xs)
  show ?case
  proof (cases "xs = []")
    case False
    have ge: "k \<le> length xs"
    proof (rule ccontr)
      assume "\<not> k \<le> length xs"
      then have "length xs mod k = length xs" by simp
      then show False using False "1.prems"(2) by simp
    qed
    then have m: "length (drop k xs) mod k = 0" using "1.prems"(2) by (simp add: le_mod_geq)
    have "entries k xs = take k xs # entries k (drop k xs)"
      using False "1.prems"(1) by (subst entries.simps) simp
    then consider "x = take k xs" | "x \<in> set (entries k (drop k xs))"
      using "1.prems"(3) by auto
    then show ?thesis
    proof cases
      case 1
      then show ?thesis using ge by simp
    next
      case 2
      then show ?thesis using "1.IH" "1.prems"(1) False m by blast
    qed
  qed (use 1 in simp)
qed

end
