(* ===== verification/PyStr.thy ===== *)
theory PyStr
  imports PyBytes
begin

text \<open>
  Python \<open>str\<close> as a list of code points, with what the code uses of it: strict UTF-8 encoding,
  UTF-8 decoding with \<open>errors="replace"\<close> (each maximal ill-formed prefix becomes U+FFFD, as
  CPython's decoder does), \<open>bytes.hex\<close> and \<open>bytes.fromhex\<close>, \<open>strip\<close>, and the literals.
\<close>

type_synonym ustring = "nat list"

definition ustr :: "string \<Rightarrow> ustring" where
  "ustr s = map of_char s"

definition is_str :: "ustring \<Rightarrow> bool" where
  "is_str s \<longleftrightarrow> list_all (\<lambda>c. c < 0x110000) s"

definition surrogate :: "nat \<Rightarrow> bool" where
  "surrogate c \<longleftrightarrow> 0xD800 \<le> c \<and> c < 0xE000"

text \<open>Text that encodes: code points that are not surrogates.\<close>

definition encodable :: "ustring \<Rightarrow> bool" where
  "encodable s \<longleftrightarrow> list_all (\<lambda>c. c < 0x110000 \<and> \<not> surrogate c) s"

section \<open>UTF-8\<close>

definition utf8_char :: "nat \<Rightarrow> nat list" where
  "utf8_char c =
     (if c < 0x80 then [c]
      else if c < 0x800 then [0xC0 + c div 64, 0x80 + c mod 64]
      else if c < 0x10000 then [0xE0 + c div 4096, 0x80 + c div 64 mod 64, 0x80 + c mod 64]
      else [0xF0 + c div 262144, 0x80 + c div 4096 mod 64, 0x80 + c div 64 mod 64,
            0x80 + c mod 64])"

text \<open>
  \<open>s.encode("utf-8")\<close>: a lone surrogate raises \<open>UnicodeEncodeError\<close>. A number from
  \<open>0x110000\<close> on is no code point; the model raises there too.
\<close>

definition utf8_encode :: "ustring \<Rightarrow> bytes res" where
  "utf8_encode s =
     (if encodable s then Inr (map of_nat (concat (map utf8_char s))) else Inl UnicodeEncodeError)"

definition is_cont :: "nat \<Rightarrow> bool" where
  "is_cont b \<longleftrightarrow> 0x80 \<le> b \<and> b < 0xC0"

text \<open>The second byte a three- or four-byte sequence may have after its first byte.\<close>

definition ok_second :: "nat \<Rightarrow> nat \<Rightarrow> bool" where
  "ok_second b c \<longleftrightarrow>
     (if b = 0xE0 then 0xA0 \<le> c \<and> c < 0xC0
      else if b = 0xED then 0x80 \<le> c \<and> c < 0xA0
      else if b = 0xF0 then 0x90 \<le> c \<and> c < 0xC0
      else if b = 0xF4 then 0x80 \<le> c \<and> c < 0x90
      else is_cont c)"

definition replacement :: nat where
  "replacement = 0xFFFD"

text \<open>
  One step of the decoder: the code point it emits and the number of bytes it consumes, on a
  sequence that is not empty.
\<close>

definition utf8_step :: "nat \<Rightarrow> nat list \<Rightarrow> nat \<times> nat" where
  "utf8_step b bs =
     (if b < 0x80 then (b, 1)
      else if 0xC2 \<le> b \<and> b < 0xE0 then
        (case bs of
           c # _ \<Rightarrow> if is_cont c then ((b - 0xC0) * 64 + (c - 0x80), 2) else (replacement, 1)
         | [] \<Rightarrow> (replacement, 1))
      else if 0xE0 \<le> b \<and> b < 0xF0 then
        (case bs of
           c # d # _ \<Rightarrow>
             if \<not> ok_second b c then (replacement, 1)
             else if \<not> is_cont d then (replacement, 2)
             else ((b - 0xE0) * 4096 + (c - 0x80) * 64 + (d - 0x80), 3)
         | [c] \<Rightarrow> if ok_second b c then (replacement, 2) else (replacement, 1)
         | [] \<Rightarrow> (replacement, 1))
      else if 0xF0 \<le> b \<and> b < 0xF5 then
        (case bs of
           c # d # e # _ \<Rightarrow>
             if \<not> ok_second b c then (replacement, 1)
             else if \<not> is_cont d then (replacement, 2)
             else if \<not> is_cont e then (replacement, 3)
             else ((b - 0xF0) * 262144 + (c - 0x80) * 4096 + (d - 0x80) * 64 + (e - 0x80), 4)
         | [c, d] \<Rightarrow>
             if \<not> ok_second b c then (replacement, 1)
             else if \<not> is_cont d then (replacement, 2) else (replacement, 3)
         | [c] \<Rightarrow> if ok_second b c then (replacement, 2) else (replacement, 1)
         | [] \<Rightarrow> (replacement, 1))
      else (replacement, 1))"

lemma utf8_step_consumes: "0 < snd (utf8_step b bs)"
  by (auto simp: utf8_step_def split: list.splits)

function utf8_decode_nat :: "nat list \<Rightarrow> ustring" where
  "utf8_decode_nat [] = []"
| "utf8_decode_nat (b # bs) =
     fst (utf8_step b bs) # utf8_decode_nat (drop (snd (utf8_step b bs) - 1) bs)"
  by pat_completeness auto
termination
  by (relation "measure length") auto

text \<open>\<open>p.decode("utf-8", errors="replace")\<close>: total, it never raises.\<close>

definition utf8_decode :: "bytes \<Rightarrow> ustring" where
  "utf8_decode p = utf8_decode_nat (map unat p)"

lemma utf8_char_bytes: "c < 0x110000 \<Longrightarrow> b \<in> set (utf8_char c) \<Longrightarrow> b < 256"
  by (auto simp: utf8_char_def split: if_splits)

lemma utf8_char_zero_iff: "0 \<in> set (utf8_char c) \<longleftrightarrow> c = 0"
  by (auto simp: utf8_char_def)

lemma base64_digits:
  fixes c :: nat
  shows "c = 4096 * (c div 4096) + 64 * (c div 64 mod 64) + c mod 64"
    and "c = 262144 * (c div 262144) + 4096 * (c div 4096 mod 64) + 64 * (c div 64 mod 64) + c mod 64"
proof -
  have d: "c div 4096 = c div 64 div 64" "c div 262144 = c div 64 div 64 div 64"
    by (simp_all flip: div_mult2_eq)
  have e: "c = 64 * (c div 64) + c mod 64" "c div 64 = 64 * (c div 64 div 64) + c div 64 mod 64"
    "c div 64 div 64 = 64 * (c div 64 div 64 div 64) + c div 64 div 64 mod 64"
    by simp_all
  show "c = 4096 * (c div 4096) + 64 * (c div 64 mod 64) + c mod 64"
    using e unfolding d by linarith
  show "c = 262144 * (c div 262144) + 4096 * (c div 4096 mod 64) + 64 * (c div 64 mod 64) + c mod 64"
    using e unfolding d by linarith
qed

lemma utf8_step_two:
  "0x80 \<le> c \<Longrightarrow> c < 0x800 \<Longrightarrow>
    utf8_step (0xC0 + c div 64) ((0x80 + c mod 64) # bs) = (c, 2)"
proof -
  assume c: "0x80 \<le> c" "c < 0x800"
  have "c div 64 < 32" "2 \<le> c div 64" "c mod 64 < 64" using c by linarith+
  moreover have "c div 64 * 64 + c mod 64 = c" by simp
  ultimately show ?thesis by (simp add: utf8_step_def is_cont_def)
qed

lemma utf8_step_three:
  assumes "0x800 \<le> c" "c < 0x10000" "\<not> surrogate c"
  shows "utf8_step (0xE0 + c div 4096) ((0x80 + c div 64 mod 64) # (0x80 + c mod 64) # bs) = (c, 3)"
proof -
  define q r t where "q = c div 4096" and "r = c div 64 mod 64" and "t = c mod 64"
  have c: "c = 4096 * q + 64 * r + t" unfolding q_def r_def t_def by (rule base64_digits(1))
  have b: "r < 64" "t < 64" by (simp_all add: r_def t_def)
  have q: "q < 16" using c b assms(2) by linarith
  have "ok_second (0xE0 + q) (0x80 + r)"
    using assms b unfolding ok_second_def is_cont_def surrogate_def c by auto
  then have "utf8_step (0xE0 + q) ((0x80 + r) # (0x80 + t) # bs) = (c, 3)"
    using b q c by (simp add: utf8_step_def is_cont_def)
  then show ?thesis by (simp add: q_def r_def t_def)
qed

lemma utf8_step_four:
  assumes "0x10000 \<le> c" "c < 0x110000"
  shows "utf8_step (0xF0 + c div 262144)
    ((0x80 + c div 4096 mod 64) # (0x80 + c div 64 mod 64) # (0x80 + c mod 64) # bs) = (c, 4)"
proof -
  define q p r t where "q = c div 262144" and "p = c div 4096 mod 64"
    and "r = c div 64 mod 64" and "t = c mod 64"
  have c: "c = 262144 * q + 4096 * p + 64 * r + t"
    unfolding q_def p_def r_def t_def by (rule base64_digits(2))
  have b: "p < 64" "r < 64" "t < 64" by (simp_all add: p_def r_def t_def)
  have q: "q < 5" using c b assms(2) by linarith
  have "ok_second (0xF0 + q) (0x80 + p)"
    using assms b unfolding ok_second_def is_cont_def c by auto
  then have "utf8_step (0xF0 + q) ((0x80 + p) # (0x80 + r) # (0x80 + t) # bs) = (c, 4)"
    using b q c by (simp add: utf8_step_def is_cont_def)
  then show ?thesis by (simp add: q_def p_def r_def t_def)
qed

lemma utf8_decode_char:
  assumes "c < 0x110000" "\<not> surrogate c"
  shows "utf8_decode_nat (utf8_char c @ bs) = c # utf8_decode_nat bs"
  using assms utf8_step_two [of c bs] utf8_step_three [of c bs] utf8_step_four [of c bs]
  by (simp add: utf8_char_def utf8_step_def [of c bs])

lemma utf8_decode_chars:
  "encodable s \<Longrightarrow> utf8_decode_nat (concat (map utf8_char s)) = s"
  by (induction s) (auto simp: encodable_def utf8_decode_char)

lemma map_unat_of_nat:
  "list_all (\<lambda>b. b < 256) ns \<Longrightarrow> map (unat \<circ> (of_nat :: nat \<Rightarrow> byte)) ns = ns"
  by (induction ns) (auto simp: unat_of_nat)

lemma utf8_chars_bytes:
  "encodable s \<Longrightarrow> list_all (\<lambda>b. b < 256) (concat (map utf8_char s))"
  by (auto simp: encodable_def list_all_iff dest: utf8_char_bytes)

text \<open>Decoding what was encoded gives the text back.\<close>

lemma utf8_decode_encode: "utf8_encode s = Inr p \<Longrightarrow> utf8_decode p = s"
  by (auto simp: utf8_encode_def utf8_decode_def map_unat_of_nat utf8_chars_bytes
      utf8_decode_chars split: if_splits)

text \<open>What the decoder emits always encodes again.\<close>

definition scalar :: "nat \<Rightarrow> bool" where
  "scalar c \<longleftrightarrow> c < 0x110000 \<and> \<not> surrogate c"

lemma scalar_three:
  assumes "0xE0 \<le> b" "b < 0xF0" "ok_second b c" "is_cont d"
  shows "scalar ((b - 0xE0) * 4096 + (c - 0x80) * 64 + (d - 0x80))"
proof -
  obtain q where b: "b = 0xE0 + q" "q < 16" using assms(1,2) by (auto dest!: le_Suc_ex)
  obtain t where d: "d = 0x80 + t" "t < 64" using assms(4) by (auto simp: is_cont_def dest!: le_Suc_ex)
  have "0x80 \<le> c" "c < 0xC0" using assms(3) by (auto simp: ok_second_def is_cont_def split: if_splits)
  then obtain r where c: "c = 0x80 + r" "r < 64" by (auto dest!: le_Suc_ex)
  have "q = 13 \<Longrightarrow> r < 32" using assms(3) by (simp add: ok_second_def b c)
  then show ?thesis using b(2) c(2) d(2) by (cases "q = 13") (auto simp: b(1) c(1) d(1) scalar_def surrogate_def)
qed

lemma scalar_four:
  assumes "0xF0 \<le> b" "b < 0xF5" "ok_second b c" "is_cont d" "is_cont e"
  shows "scalar ((b - 0xF0) * 262144 + (c - 0x80) * 4096 + (d - 0x80) * 64 + (e - 0x80))"
proof -
  obtain q where b: "b = 0xF0 + q" "q < 5" using assms(1,2) by (auto dest!: le_Suc_ex)
  obtain t where d: "d = 0x80 + t" "t < 64" using assms(4) by (auto simp: is_cont_def dest!: le_Suc_ex)
  obtain u where e: "e = 0x80 + u" "u < 64" using assms(5) by (auto simp: is_cont_def dest!: le_Suc_ex)
  have "0x80 \<le> c" "c < 0xC0" using assms(3) by (auto simp: ok_second_def is_cont_def split: if_splits)
  then obtain r where c: "c = 0x80 + r" "r < 64" by (auto dest!: le_Suc_ex)
  have "q = 0 \<Longrightarrow> 16 \<le> r" "q = 4 \<Longrightarrow> r < 16" using assms(3) by (simp_all add: ok_second_def b c)
  then show ?thesis using b(2) c(2) d(2) e(2)
    by (cases "q = 0"; cases "q = 4") (auto simp: b(1) c(1) d(1) e(1) scalar_def surrogate_def)
qed

lemma scalar_step: "scalar (fst (utf8_step b bs))"
proof -
  have r: "scalar replacement" by (simp add: scalar_def replacement_def surrogate_def)
  have 1: "b < 0x80 \<Longrightarrow> scalar b" by (simp add: scalar_def surrogate_def)
  have 2: "scalar ((b - 0xC0) * 64 + (c - 0x80))" if "0xC2 \<le> b \<and> b < 0xE0" "is_cont c" for c
  proof -
    define q where "q = b - 0xC0"
    have b: "b - 0xC0 = q" "q < 32" using that(1) by (auto simp: q_def)
    have "c - 0x80 < 64" using that(2) by (auto simp: is_cont_def)
    then show ?thesis using b(2) by (auto simp: b(1) scalar_def surrogate_def)
  qed
  show ?thesis using r 1 2 scalar_three [of b] scalar_four [of b]
    by (auto simp: utf8_step_def split: list.splits)
qed

lemma encodable_decoded: "encodable (utf8_decode p)"
proof -
  have "list_all scalar (utf8_decode_nat bs)" for bs
    by (induction bs rule: utf8_decode_nat.induct) (simp_all add: scalar_step)
  then show ?thesis unfolding utf8_decode_def encodable_def scalar_def .
qed

lemma utf8_encode_Inr: "encodable s \<Longrightarrow> \<exists>p. utf8_encode s = Inr p"
  by (simp add: utf8_encode_def)

lemma utf8_encode_Nil [simp]: "utf8_encode [] = Inr []"
  by (simp add: utf8_encode_def encodable_def)

lemma utf8_decode_Nil [simp]: "utf8_decode [] = []"
  by (simp add: utf8_decode_def)

lemma utf8_encode_empty_iff: "utf8_encode s = Inr p \<Longrightarrow> p = [] \<longleftrightarrow> s = []"
  by (cases s) (auto simp: utf8_encode_def utf8_char_def split: if_splits)

text \<open>The encoding holds a NUL byte exactly where the text holds a NUL character.\<close>

lemma utf8_encode_no_nul:
  assumes "utf8_encode s = Inr p" "0 \<notin> set s"
  shows "0 \<notin> set p"
proof
  assume "0 \<in> set p"
  then obtain b where b: "b \<in> set (concat (map utf8_char s))" "(of_nat b :: byte) = 0"
    and s: "encodable s"
    using assms(1) by (force simp: utf8_encode_def split: if_splits)
  have "b < 256" using utf8_chars_bytes [OF s] b(1) by (auto simp: list_all_iff)
  moreover have "unat (of_nat b :: byte) = 0" using b(2) by simp
  ultimately have "b = 0" by (simp add: unat_of_nat)
  then show False using b(1) assms(2) by (auto simp: utf8_char_zero_iff)
qed

section \<open>Hexadecimal text\<close>

definition hex_digit :: "nat \<Rightarrow> nat" where
  "hex_digit d = (if d < 10 then 48 + d else 87 + d)"

definition hex_value :: "nat \<Rightarrow> nat option" where
  "hex_value c =
     (if 48 \<le> c \<and> c < 58 then Some (c - 48)
      else if 97 \<le> c \<and> c < 103 then Some (c - 87)
      else if 65 \<le> c \<and> c < 71 then Some (c - 55)
      else None)"

definition bytes_hex :: "bytes \<Rightarrow> ustring" where
  "bytes_hex p = concat (map (\<lambda>b. [hex_digit (unat b div 16), hex_digit (unat b mod 16)]) p)"

definition is_space :: "nat \<Rightarrow> bool" where
  "is_space c \<longleftrightarrow> c = 32 \<or> (9 \<le> c \<and> c \<le> 13)"

text \<open>
  \<open>bytes.fromhex(s)\<close>: pairs of hex digits, ASCII white space allowed between pairs, anything
  else a \<open>ValueError\<close>.
\<close>

fun bytes_fromhex :: "ustring \<Rightarrow> bytes res" where
  "bytes_fromhex [] = Inr []"
| "bytes_fromhex (c # s) =
     (if is_space c then bytes_fromhex s
      else (case (hex_value c, s) of
              (Some h, d # s') \<Rightarrow>
                (case hex_value d of
                   Some l \<Rightarrow> bindR (bytes_fromhex s') (\<lambda>p. Inr (of_nat (16 * h + l) # p))
                 | None \<Rightarrow> Inl ValueError)
            | _ \<Rightarrow> Inl ValueError))"

lemma hex_value_digit: "d < 16 \<Longrightarrow> hex_value (hex_digit d) = Some d"
  by (auto simp: hex_value_def hex_digit_def)

lemma hex_digit_no_space: "d < 16 \<Longrightarrow> \<not> is_space (hex_digit d)"
  by (auto simp: is_space_def hex_digit_def)

lemma fromhex_hex [simp]: "bytes_fromhex (bytes_hex p) = Inr p"
proof (induction p)
  case (Cons b p)
  have u: "unat b < 256" using unsigned_less [of b] by simp
  have "16 * (unat b div 16) + unat b mod 16 = unat b" by simp
  then have "(of_nat (16 * (unat b div 16) + unat b mod 16) :: byte) = b" by (simp del: of_nat_add of_nat_mult)
  moreover have "unat b div 16 < 16" "unat b mod 16 < 16" using u by auto
  ultimately show ?case using Cons
    by (simp add: bytes_hex_def hex_value_digit hex_digit_no_space del: of_nat_add of_nat_mult)
qed (simp add: bytes_hex_def)

lemma bytes_hex_inj: "bytes_hex p = bytes_hex q \<longleftrightarrow> p = q"
  by (metis fromhex_hex sum.inject(2))

lemma length_bytes_hex [simp]: "length (bytes_hex p) = 2 * length p"
  by (induction p) (auto simp: bytes_hex_def)

text \<open>\<open>s.strip()\<close>, which removes the characters \<open>str.isspace\<close> accepts.\<close>

definition py_space :: "nat \<Rightarrow> bool" where
  "py_space c \<longleftrightarrow>
     (9 \<le> c \<and> c \<le> 13) \<or> (28 \<le> c \<and> c \<le> 32) \<or> c = 0x85 \<or> c = 0xA0 \<or> c = 0x1680 \<or>
     (0x2000 \<le> c \<and> c \<le> 0x200A) \<or> c = 0x2028 \<or> c = 0x2029 \<or> c = 0x202F \<or> c = 0x205F \<or> c = 0x3000"

definition str_strip :: "ustring \<Rightarrow> ustring" where
  "str_strip s = rev (dropWhile py_space (rev (dropWhile py_space s)))"

section \<open>Integers as text\<close>

text \<open>\<open>str(n)\<close>.\<close>

fun nat_str :: "nat \<Rightarrow> ustring" where
  "nat_str n = (if n < 10 then [48 + n] else nat_str (n div 10) @ [48 + n mod 10])"

declare nat_str.simps [simp del]

definition int_str :: "int \<Rightarrow> ustring" where
  "int_str i = (if i < 0 then 45 # nat_str (nat (- i)) else nat_str (nat i))"

lemma nat_str_digits: "c \<in> set (nat_str n) \<Longrightarrow> 48 \<le> c \<and> c < 58"
proof (induction n rule: nat_str.induct)
  case (1 n)
  then show ?case using nat_str.simps [of n] by (auto split: if_splits)
qed

text \<open>\<open>sub in s\<close> and \<open>sep.join(xs)\<close>.\<close>

definition str_in :: "ustring \<Rightarrow> ustring \<Rightarrow> bool" where
  "str_in sub s \<longleftrightarrow> list_ex (\<lambda>i. take (length sub) (drop i s) = sub) [0..<Suc (length s)]"

fun str_join :: "ustring \<Rightarrow> ustring list \<Rightarrow> ustring" where
  "str_join sep [] = []"
| "str_join sep [x] = x"
| "str_join sep (x # y # xs) = x @ sep @ str_join sep (y # xs)"

end
