(* ===== verification/PyFloat.thy ===== *)
theory PyFloat
  imports Prelude
begin

text \<open>
  Python floats, as far as coordinates, airtimes and clocks need them: a finite double is the rational it
  denotes, an arithmetic operation is the exact result rounded to the nearest double, ties to even.
  Infinities, NaNs and results beyond the largest double are not modelled.
\<close>

section \<open>Rounding\<close>

text \<open>\<open>round(x)\<close> of a float: the nearest integer, ties to even.\<close>

definition py_round :: "rat \<Rightarrow> int" where
  "py_round x =
     (let f = \<lfloor>x\<rfloor>; r = x - of_int f in
      if r < 1/2 then f else if r > 1/2 then f + 1 else if even f then f else f + 1)"

lemma py_round_error: "\<bar>of_int (py_round x) - x\<bar> \<le> 1/2"
  using floor_correct [of x] by (auto simp: py_round_def Let_def abs_le_iff)

lemma py_round_unique:
  assumes "\<bar>x - of_int v\<bar> < 1/2"
  shows "py_round x = v"
proof -
  have "\<bar>(of_int (py_round x) :: rat) - of_int v\<bar> < 1"
    using py_round_error [of x] assms by linarith
  then have "\<bar>py_round x - v\<bar> < 1" by (simp flip: of_int_diff of_int_abs)
  then show ?thesis by simp
qed

lemma py_round_of_int [simp]: "py_round (of_int v) = v"
  by (rule py_round_unique) simp

text \<open>The number of binary digits of a positive integer and the exponent of a positive rational.\<close>

definition two_powi :: "int \<Rightarrow> rat" where
  "two_powi e = (if 0 \<le> e then 2 ^ nat e else 1 / 2 ^ nat (- e))"

fun digits2 :: "nat \<Rightarrow> nat" where
  "digits2 n = (if n = 0 then 0 else Suc (digits2 (n div 2)))"

declare digits2.simps [simp del]

definition exponent2 :: "rat \<Rightarrow> int" where
  "exponent2 x =
     (let (n, d) = quotient_of x; k = int (digits2 (nat n)) - int (digits2 (nat d)) in
      if x < two_powi k then k - 1 else k)"

text \<open>The nearest double (53 binary digits, at least \<open>2 ^ (-1074)\<close> apart).\<close>

definition fl :: "rat \<Rightarrow> rat" where
  "fl x = (if x = 0 then 0
           else let e = max (exponent2 \<bar>x\<bar> - 52) (- 1074) in of_int (py_round (x / two_powi e)) * two_powi e)"

lemma two_powi_pos [simp]: "0 < two_powi e"
  by (simp add: two_powi_def)

lemma two_powi_neq_0 [simp]: "two_powi e \<noteq> 0"
  by (simp add: two_powi_def)

lemma two_powi_add: "two_powi (a + b) = two_powi a * two_powi b"
proof -
  have *: "two_powi e = 2 powi e" for e
    by (simp add: two_powi_def power_int_def inverse_eq_divide power_one_over)
  show ?thesis unfolding * by (simp add: power_int_add)
qed

lemma two_powi_nat: "two_powi (int n) = 2 ^ n"
  by (simp add: two_powi_def)

lemma two_powi_minus: "two_powi (- e) = 1 / two_powi e"
  using two_powi_add [of e "- e"] two_powi_pos [of e] by (simp add: two_powi_def field_simps)

lemma digits2_bounds: "0 < n \<Longrightarrow> 2 ^ digits2 n \<le> 2 * n \<and> n < 2 ^ digits2 n"
proof (induction n rule: digits2.induct)
  case (1 n)
  show ?case
  proof (cases "n div 2 = 0")
    case True
    then have "n = 1" using 1(2) by simp
    then show ?thesis by (simp add: digits2.simps)
  next
    case False
    have "2 ^ digits2 (n div 2) \<le> 2 * (n div 2) \<and> n div 2 < 2 ^ digits2 (n div 2)"
      using 1 False by simp
    then show ?thesis using 1(2) by (subst (1 2) digits2.simps) (simp, linarith)
  qed
qed

lemma exponent2_lower:
  assumes "0 < x"
  shows "two_powi (exponent2 x) \<le> x"
proof -
  obtain n d where q: "quotient_of x = (n, d)" by (cases "quotient_of x")
  have d: "0 < d" and x: "x = of_int n / of_int d"
    using quotient_of_denom_pos [OF q] quotient_of_div [OF q] by auto
  have n: "0 < n" using assms x d by (simp add: zero_less_divide_iff)
  let ?a = "digits2 (nat n)" and ?b = "digits2 (nat d)"
  have "int (2 ^ ?a) \<le> int (2 * nat n)" using digits2_bounds [of "nat n"] n by (simp only: of_nat_le_iff)
  then have a: "2 ^ ?a \<le> 2 * n" using n by simp
  have b: "d < 2 ^ ?b" using digits2_bounds [of "nat d"] d by (simp add: nat_less_iff)
  let ?k = "int ?a - int ?b"
  have k: "two_powi (?k - 1) \<le> x"
  proof -
    have "two_powi (?k - 1) = two_powi (int ?a) * two_powi (- int ?b) * two_powi (- 1)"
      by (simp add: algebra_simps flip: two_powi_add)
    also have "\<dots> = 2 ^ ?a / (2 ^ ?b * 2)"
      by (simp add: two_powi_minus two_powi_nat) (simp add: two_powi_def)
    also have "\<dots> \<le> x"
    proof -
      have "(2 ^ ?a * d) \<le> (2 * n) * 2 ^ ?b" using a b n d by (intro mult_mono) auto
      then have "(of_int (2 ^ ?a * d) :: rat) \<le> of_int ((2 * n) * 2 ^ ?b)" by (simp only: of_int_le_iff)
      then show ?thesis using d unfolding x by (simp add: field_simps)
    qed
    finally show ?thesis .
  qed
  show ?thesis
  proof (cases "x < two_powi ?k")
    case True
    then show ?thesis using k by (simp add: exponent2_def q)
  qed (simp add: exponent2_def q)
qed

text \<open>In the normal range the relative error is at most \<open>2 ^ (-53)\<close>.\<close>

lemma fl_error:
  assumes "two_powi (- 1022) \<le> \<bar>x\<bar>"
  shows "\<bar>fl x - x\<bar> \<le> \<bar>x\<bar> / 2 ^ 53"
proof -
  have x0: "x \<noteq> 0"
  proof
    assume "x = 0"
    then have "two_powi (- 1022) \<le> 0" using assms by (simp only: abs_zero)
    then show False using not_le two_powi_pos [of "- 1022"] by blast
  qed
  define e where "e = max (exponent2 \<bar>x\<bar> - 52) (- 1074)"
  have "two_powi (exponent2 \<bar>x\<bar>) \<le> \<bar>x\<bar>" using exponent2_lower [of "\<bar>x\<bar>"] x0 by simp
  then have e: "two_powi (e + 52) \<le> \<bar>x\<bar>" using assms by (auto simp: e_def max_def)
  have "fl x = of_int (py_round (x / two_powi e)) * two_powi e" using x0 by (simp add: fl_def e_def Let_def)
  then have "fl x - x = (of_int (py_round (x / two_powi e)) - x / two_powi e) * two_powi e"
    by (simp add: field_simps)
  then have "\<bar>fl x - x\<bar> = \<bar>of_int (py_round (x / two_powi e)) - x / two_powi e\<bar> * two_powi e"
    by (simp add: abs_mult abs_of_pos [OF two_powi_pos])
  also have "\<dots> \<le> 1/2 * two_powi e"
    by (rule mult_right_mono [OF py_round_error]) (simp add: less_imp_le)
  also have "\<dots> = two_powi (e + 52) / 2 ^ 53"
    using two_powi_nat [of 52] by (simp add: two_powi_add)
  also have "\<dots> \<le> \<bar>x\<bar> / 2 ^ 53" using e by (simp add: divide_right_mono)
  finally show ?thesis .
qed

lemma fl_0 [simp]: "fl 0 = 0"
  by (simp add: fl_def)

section \<open>Order and exactness\<close>

lemma two_powi_mono: "a \<le> b \<Longrightarrow> two_powi a \<le> two_powi b"
proof -
  assume "a \<le> b"
  then obtain n where b: "b = a + int n" using zle_iff_zadd by blast
  have "two_powi a * 1 \<le> two_powi a * 2 ^ n" by (rule mult_left_mono) (simp_all add: less_imp_le)
  then show ?thesis by (simp add: b two_powi_add two_powi_nat)
qed

lemma two_powi_le_iff [simp]: "two_powi a \<le> two_powi b \<longleftrightarrow> a \<le> b"
proof
  assume le: "two_powi a \<le> two_powi b"
  show "a \<le> b"
  proof (rule ccontr)
    assume "\<not> a \<le> b"
    then have "two_powi (b + 1) \<le> two_powi a" by (intro two_powi_mono) simp
    with le have "two_powi (b + 1) \<le> two_powi b" by simp
    moreover have "two_powi 1 = 2" by (simp add: two_powi_def)
    ultimately show False using two_powi_pos [of b] by (simp add: two_powi_add)
  qed
qed (rule two_powi_mono)

lemma exponent2_upper:
  assumes "0 < x"
  shows "x < two_powi (exponent2 x + 1)"
proof -
  obtain n d where q: "quotient_of x = (n, d)" by (cases "quotient_of x")
  have d: "0 < d" and x: "x = of_int n / of_int d"
    using quotient_of_denom_pos [OF q] quotient_of_div [OF q] by auto
  have n: "0 < n" using assms x d by (simp add: zero_less_divide_iff)
  let ?a = "digits2 (nat n)" and ?b = "digits2 (nat d)"
  have a: "n < 2 ^ ?a" using digits2_bounds [of "nat n"] n by (simp add: nat_less_iff)
  have "int (2 ^ ?b) \<le> int (2 * nat d)" using digits2_bounds [of "nat d"] d by (simp only: of_nat_le_iff)
  then have b: "2 ^ ?b \<le> 2 * d" using d by simp
  let ?k = "int ?a - int ?b"
  have "n * 2 ^ ?b < 2 ^ ?a * (2 * d)" using a b n d by (intro mult_less_le_imp_less) auto
  then have "(of_int (n * 2 ^ ?b) :: rat) < of_int (2 ^ ?a * (2 * d))" by (simp only: of_int_less_iff)
  then have "x < 2 * 2 ^ ?a / 2 ^ ?b" using d unfolding x by (simp add: field_simps)
  also have "\<dots> = two_powi (?k + 1)"
  proof -
    have "two_powi (?k + 1) = two_powi (int ?a) * two_powi (- int ?b) * two_powi 1"
      by (simp add: algebra_simps flip: two_powi_add)
    then show ?thesis by (simp add: two_powi_minus two_powi_nat) (simp add: two_powi_def)
  qed
  finally show ?thesis by (auto simp: exponent2_def q Let_def)
qed

lemma exponent2_le: "0 < x \<Longrightarrow> x \<le> two_powi m \<Longrightarrow> exponent2 x \<le> m"
  using exponent2_lower [of x] order_trans two_powi_le_iff by blast

text \<open>The absolute error of a rounding in a bounded range.\<close>

lemma fl_abs_error:
  assumes "\<bar>x\<bar> \<le> two_powi m" "- 1022 \<le> m"
  shows "\<bar>fl x - x\<bar> \<le> two_powi (m - 53)"
proof (cases "x = 0")
  case False
  define e where "e = max (exponent2 \<bar>x\<bar> - 52) (- 1074)"
  have e: "e \<le> m - 52" using exponent2_le [of "\<bar>x\<bar>" m] False assms by (simp add: e_def)
  have "fl x - x = (of_int (py_round (x / two_powi e)) - x / two_powi e) * two_powi e"
    using False by (simp add: fl_def e_def Let_def field_simps)
  then have "\<bar>fl x - x\<bar> = \<bar>of_int (py_round (x / two_powi e)) - x / two_powi e\<bar> * two_powi e"
    by (simp add: abs_mult abs_of_pos [OF two_powi_pos])
  also have "\<dots> \<le> 1/2 * two_powi e"
    by (rule mult_right_mono [OF py_round_error]) (simp add: less_imp_le)
  also have "\<dots> \<le> 1/2 * two_powi (m - 52)" using e by simp
  also have "\<dots> = two_powi (m - 53)"
  proof -
    have "two_powi (m - 52) = two_powi (m - 53) * two_powi 1" by (simp flip: two_powi_add)
    then show ?thesis by (simp add: two_powi_def [of 1])
  qed
  finally show ?thesis .
qed (simp add: less_imp_le)

text \<open>Rounding is monotone and leaves floats as they are.\<close>

lemma py_round_mono: "x \<le> y \<Longrightarrow> py_round x \<le> py_round y"
proof -
  assume le: "x \<le> y"
  show ?thesis
  proof (cases "\<lfloor>x\<rfloor> = \<lfloor>y\<rfloor>")
    case True
    then show ?thesis using le by (auto simp: py_round_def Let_def)
  next
    case False
    then have "\<lfloor>x\<rfloor> + 1 \<le> \<lfloor>y\<rfloor>" using floor_mono [OF le] by simp
    moreover have "py_round x \<le> \<lfloor>x\<rfloor> + 1" "\<lfloor>y\<rfloor> \<le> py_round y" by (auto simp: py_round_def Let_def)
    ultimately show ?thesis by simp
  qed
qed

lemma fl_representable:
  assumes "\<bar>m\<bar> < 2 ^ 53" "- 1074 \<le> e"
  shows "fl (of_int m * two_powi e) = of_int m * two_powi e"
proof (cases "m = 0")
  case False
  let ?x = "of_int m * two_powi e :: rat"
  have x: "\<bar>?x\<bar> = of_int \<bar>m\<bar> * two_powi e" by (simp add: abs_mult abs_of_pos [OF two_powi_pos])
  have "(of_int \<bar>m\<bar> :: rat) < of_int (2 ^ 53)" using assms(1) by (simp only: of_int_less_iff)
  then have "\<bar>?x\<bar> < 2 ^ 53 * two_powi e" unfolding x by simp
  also have "\<dots> = two_powi (e + 53)" by (simp add: two_powi_add two_powi_nat [of 53, simplified])
  finally have "two_powi (exponent2 \<bar>?x\<bar>) < two_powi (e + 53)"
    using exponent2_lower [of "\<bar>?x\<bar>"] False by (simp add: order.strict_trans1)
  then have E: "exponent2 \<bar>?x\<bar> < e + 53" by (simp add: not_le [symmetric])
  define k where "k = max (exponent2 \<bar>?x\<bar> - 52) (- 1074)"
  have "k \<le> e" using E assms(2) by (simp add: k_def)
  then obtain n where n: "e = k + int n" using zle_iff_zadd by blast
  have "?x / two_powi k = of_int (m * 2 ^ n)" by (simp add: n two_powi_add two_powi_nat)
  then have "of_int (py_round (?x / two_powi k)) * two_powi k = ?x"
    by (simp only: py_round_of_int) (simp add: n two_powi_add two_powi_nat)
  then show ?thesis using False by (simp add: fl_def k_def Let_def)
qed simp

lemma fl_int: "\<bar>m\<bar> < 2 ^ 53 \<Longrightarrow> fl (of_int m) = of_int m"
  using fl_representable [of m 0] by (simp add: two_powi_def)

text \<open>A nonnegative rational lies between two floats of the exponent that \<open>fl\<close> picks.\<close>

lemma fl_between:
  assumes "0 < x"
  defines "e \<equiv> max (exponent2 x - 52) (- 1074)"
  shows "fl x = of_int (py_round (x / two_powi e)) * two_powi e" "0 \<le> py_round (x / two_powi e)"
    and "py_round (x / two_powi e) \<le> 2 ^ 53" "- 1074 < e \<Longrightarrow> 2 ^ 52 \<le> py_round (x / two_powi e)"
proof -
  show "fl x = of_int (py_round (x / two_powi e)) * two_powi e" using assms by (simp add: fl_def Let_def)
  have "py_round (of_int 0) \<le> py_round (x / two_powi e)"
    by (rule py_round_mono) (use assms in \<open>simp add: less_imp_le\<close>)
  then show "0 \<le> py_round (x / two_powi e)" by (simp only: py_round_of_int)
  have "x < two_powi (exponent2 x + 1)" by (rule exponent2_upper [OF assms(1)])
  also have "\<dots> \<le> two_powi (e + 53)" by (simp add: e_def)
  also have "\<dots> = 2 ^ 53 * two_powi e" by (simp add: two_powi_add two_powi_nat [of 53, simplified])
  finally have "x / two_powi e \<le> of_int (2 ^ 53)" by (simp add: pos_divide_le_eq less_imp_le)
  from py_round_mono [OF this] show "py_round (x / two_powi e) \<le> 2 ^ 53" by (simp only: py_round_of_int)
  assume "- 1074 < e"
  then have "exponent2 x = e + 52" by (simp add: e_def max_def split: if_splits)
  then have "two_powi (e + 52) \<le> x" using exponent2_lower [OF assms(1)] by simp
  then have "of_int (2 ^ 52) \<le> x / two_powi e"
    by (simp add: pos_le_divide_eq two_powi_add two_powi_nat [of 52, simplified] mult.commute)
  from py_round_mono [OF this] show "2 ^ 52 \<le> py_round (x / two_powi e)" by (simp only: py_round_of_int)
qed

lemma fl_nonneg: "0 \<le> x \<Longrightarrow> 0 \<le> fl x"
  using fl_between(1,2) [of x] by (cases "x = 0") (simp_all add: zero_le_mult_iff less_imp_le)

lemma fl_mono:
  assumes "0 \<le> x" "x \<le> y"
  shows "fl x \<le> fl y"
proof (cases "x = 0")
  case False
  then have x: "0 < x" and y: "0 < y" using assms by auto
  let ?e = "max (exponent2 x - 52) (- 1074)" and ?f = "max (exponent2 y - 52) (- 1074)"
  have "two_powi (exponent2 x) < two_powi (exponent2 y + 1)"
    using exponent2_lower [OF x] exponent2_upper [OF y] assms(2) by linarith
  then have "exponent2 x < exponent2 y + 1" by (simp add: not_le [symmetric])
  then have ef: "?e \<le> ?f" by simp
  show ?thesis
  proof (cases "?e = ?f")
    case True
    have "x / two_powi ?f \<le> y / two_powi ?f" using assms(2) by (simp add: divide_right_mono less_imp_le)
    then have "of_int (py_round (x / two_powi ?f)) * two_powi ?f \<le> of_int (py_round (y / two_powi ?f)) * (two_powi ?f :: rat)"
      using py_round_mono by (simp add: less_imp_le)
    then show ?thesis using fl_between(1) [OF x] fl_between(1) [OF y] True by simp
  next
    case False
    then have lt: "?e + 1 \<le> ?f" using ef by simp
    have "(of_int (py_round (x / two_powi ?e)) :: rat) \<le> of_int (2 ^ 53)"
      using fl_between(3) [OF x] by (simp only: of_int_le_iff)
    then have "fl x \<le> 2 ^ 53 * two_powi ?e" using fl_between(1) [OF x] by simp
    also have "\<dots> = 2 ^ 52 * two_powi (?e + 1)" by (simp add: two_powi_add two_powi_nat [of 1, simplified])
    also have "\<dots> \<le> 2 ^ 52 * two_powi ?f" using lt by simp
    also have "\<dots> \<le> fl y"
    proof -
      have "- 1074 < ?f" using lt by simp
      then have "(of_int (2 ^ 52) :: rat) \<le> of_int (py_round (y / two_powi ?f))"
        using fl_between(4) [OF y] by (simp only: of_int_le_iff)
      then show ?thesis using fl_between(1) [OF y] by simp
    qed
    finally show ?thesis .
  qed
qed (use assms in \<open>simp add: fl_nonneg\<close>)

lemma fl_idem:
  assumes "0 \<le> x"
  shows "fl (fl x) = fl x"
proof (cases "x = 0")
  case False
  then have x: "0 < x" using assms by simp
  define e where "e = max (exponent2 x - 52) (- 1074)"
  define m where "m = py_round (x / two_powi e)"
  have f: "fl x = of_int m * two_powi e" "0 \<le> m" "m \<le> 2 ^ 53"
    using fl_between [OF x] by (simp_all add: e_def m_def)
  show ?thesis
  proof (cases "m = 2 ^ 53")
    case True
    have "of_int m * two_powi e = of_int (2 ^ 52) * two_powi (e + 1)"
      by (simp add: True two_powi_add two_powi_nat [of 1, simplified])
    then show ?thesis using fl_representable [of "2 ^ 52" "e + 1"] f(1) by (simp add: e_def)
  next
    case False
    then show ?thesis using fl_representable [of m e] f by (simp add: e_def)
  qed
qed simp

lemma fl_numeral: "numeral k < (2 ^ 53 :: int) \<Longrightarrow> fl (numeral k) = numeral k"
  using fl_int [of "numeral k"] by simp

lemma fl_nonpos: "x \<le> 0 \<Longrightarrow> fl x \<le> 0"
proof (cases "x = 0")
  case False
  assume "x \<le> 0"
  have "py_round (x / two_powi e) \<le> py_round (of_int 0)" for e
    by (rule py_round_mono) (use \<open>x \<le> 0\<close> in \<open>simp add: divide_nonpos_pos\<close>)
  then have "py_round (x / two_powi e) \<le> 0" for e by (simp only: py_round_of_int)
  then show ?thesis by (simp add: fl_def Let_def mult_nonpos_nonneg less_imp_le)
qed simp

end
