(* ===== verification/Bits.thy ===== *)
theory Bits
  imports PyBytes
begin

unbundle bit_operations_syntax

text \<open>
  Python's \<open>&\<close>, \<open>|\<close>, \<open><<\<close> and \<open>>>\<close> on (unbounded) integers are \<open>AND\<close>, \<open>OR\<close>,
  \<open>push_bit\<close> and \<open>drop_bit\<close> on \<open>int\<close>. These lemmas turn the masks and shifts of the wire
  formats into arithmetic.
\<close>

named_theorems bits

lemma and_mask_mod: "(x :: int) AND mask n = x mod 2 ^ n"
  by (simp add: take_bit_eq_mod flip: take_bit_eq_mask)

lemma and_3 [bits]: "(x :: int) AND 3 = x mod 4"
  using and_mask_mod [of x 2] by (simp add: mask_eq_exp_minus_1)

lemma and_15 [bits]: "(x :: int) AND 15 = x mod 16"
  using and_mask_mod [of x 4] by (simp add: mask_eq_exp_minus_1)

lemma and_63 [bits]: "(x :: int) AND 63 = x mod 64"
  using and_mask_mod [of x 6] by (simp add: mask_eq_exp_minus_1)

lemma and_255 [bits]: "(x :: int) AND 255 = x mod 256"
  using and_mask_mod [of x 8] by (simp add: mask_eq_exp_minus_1)

lemma push_bits [bits]:
  "push_bit 2 (x :: int) = 4 * x" "push_bit 4 (x :: int) = 16 * x" "push_bit 6 (x :: int) = 64 * x"
  by (simp_all add: push_bit_eq_mult)

lemma drop_bits [bits]:
  "drop_bit 2 (x :: int) = x div 4" "drop_bit 4 (x :: int) = x div 16"
  "drop_bit 6 (x :: int) = x div 64"
  by (simp_all add: drop_bit_eq_div)

lemma or_high:
  assumes "0 \<le> a" "a < 2 ^ n"
  shows "(a :: int) OR 2 ^ n * b = a + 2 ^ n * b"
proof -
  have a: "take_bit n a = a" using assms by (simp add: take_bit_int_eq_self)
  have "\<not> bit a k \<or> \<not> bit (push_bit n b) k" for k
  proof (cases "k < n")
    case True
    then show ?thesis by (simp add: bit_push_bit_iff)
  next
    case False
    have "\<not> bit (take_bit n a) k" using False by (simp add: bit_take_bit_iff)
    then show ?thesis by (simp add: a)
  qed
  then have "a + push_bit n b = a OR push_bit n b" by (rule disjunctive_add)
  then show ?thesis by (simp add: push_bit_eq_mult ac_simps)
qed

lemma or_4 [bits]: "0 \<le> a \<Longrightarrow> a < 4 \<Longrightarrow> (a :: int) OR 4 * b = a + 4 * b"
  using or_high [of a 2 b] by simp

lemma or_16 [bits]: "0 \<le> a \<Longrightarrow> a < 16 \<Longrightarrow> (a :: int) OR 16 * b = a + 16 * b"
  using or_high [of a 4 b] by simp

lemma or_64 [bits]: "0 \<le> a \<Longrightarrow> a < 64 \<Longrightarrow> (a :: int) OR 64 * b = a + 64 * b"
  using or_high [of a 6 b] by simp

end
