(* ===== verification/Packet.thy ===== *)
theory Packet
  imports Bits
begin

unbundle bit_operations_syntax

text \<open>
  The MeshCore packet codec (\<open>softmesh_stack/packet.py\<close>): the header byte, the optional
  transport codes, the \<open>path_len\<close> byte, the path and the payload. The decoder and the encoder
  are shown to be exact inverses on well-formed packets.
\<close>

section \<open>Enumerations\<close>

text \<open>
  The \<open>IntEnum\<close> classes. \<open>_as_enum\<close> falls back to the raw integer for a value that is no member,
  hence the last constructor of each type.
\<close>

datatype route_type = TRANSPORT_FLOOD | FLOOD | DIRECT | TRANSPORT_DIRECT | RawRoute int

datatype payload_type =
    REQ | RESPONSE | TXT_MSG | ACK | ADVERT | GRP_TXT | GRP_DATA | ANON_REQ | PATH | TRACE
  | MULTIPART | CONTROL | RAW_CUSTOM | RawPayload int

datatype payload_ver = V1 | V2 | V3 | V4 | RawVer int

fun route_val :: "route_type \<Rightarrow> int" where
  "route_val TRANSPORT_FLOOD = 0x00"
| "route_val FLOOD = 0x01"
| "route_val DIRECT = 0x02"
| "route_val TRANSPORT_DIRECT = 0x03"
| "route_val (RawRoute n) = n"

fun payload_val :: "payload_type \<Rightarrow> int" where
  "payload_val REQ = 0x00"
| "payload_val RESPONSE = 0x01"
| "payload_val TXT_MSG = 0x02"
| "payload_val ACK = 0x03"
| "payload_val ADVERT = 0x04"
| "payload_val GRP_TXT = 0x05"
| "payload_val GRP_DATA = 0x06"
| "payload_val ANON_REQ = 0x07"
| "payload_val PATH = 0x08"
| "payload_val TRACE = 0x09"
| "payload_val MULTIPART = 0x0A"
| "payload_val CONTROL = 0x0B"
| "payload_val RAW_CUSTOM = 0x0F"
| "payload_val (RawPayload n) = n"

fun ver_val :: "payload_ver \<Rightarrow> int" where
  "ver_val V1 = 0x00"
| "ver_val V2 = 0x01"
| "ver_val V3 = 0x02"
| "ver_val V4 = 0x03"
| "ver_val (RawVer n) = n"

text \<open>\<open>_as_enum(cls, value)\<close>: the member with that value, or the value itself.\<close>

definition as_enum :: "('e \<Rightarrow> int) \<Rightarrow> (int \<Rightarrow> 'e) \<Rightarrow> 'e list \<Rightarrow> int \<Rightarrow> 'e" where
  "as_enum val raw members n = (case find (\<lambda>m. val m = n) members of Some m \<Rightarrow> m | None \<Rightarrow> raw n)"

definition as_route :: "int \<Rightarrow> route_type" where
  "as_route = as_enum route_val RawRoute [TRANSPORT_FLOOD, FLOOD, DIRECT, TRANSPORT_DIRECT]"

definition as_payload :: "int \<Rightarrow> payload_type" where
  "as_payload = as_enum payload_val RawPayload
     [REQ, RESPONSE, TXT_MSG, ACK, ADVERT, GRP_TXT, GRP_DATA, ANON_REQ, PATH, TRACE, MULTIPART,
      CONTROL, RAW_CUSTOM]"

definition as_ver :: "int \<Rightarrow> payload_ver" where
  "as_ver = as_enum ver_val RawVer [V1, V2, V3, V4]"

lemma as_enum_val: "val m = n \<Longrightarrow> m \<in> set ms \<Longrightarrow> val (as_enum val raw ms n) = n"
  by (auto simp: as_enum_def find_None_iff find_Some_iff split: option.splits)

lemma enum_vals [simp]:
  "route_val (as_route n) = n" "payload_val (as_payload n) = n" "ver_val (as_ver n) = n"
  by (auto simp: as_route_def as_payload_def as_ver_def as_enum_def)

section \<open>Packets\<close>

definition PATH_LEN_HASH_COUNT_MASK :: int where "PATH_LEN_HASH_COUNT_MASK = 0x3F"
definition TRANSPORT_CODES_SIZE :: nat where "TRANSPORT_CODES_SIZE = 4"
definition MAX_PATH_SIZE :: int where "MAX_PATH_SIZE = 64"

lemmas packet_consts = PATH_LEN_HASH_COUNT_MASK_def TRANSPORT_CODES_SIZE_def MAX_PATH_SIZE_def

record packet =
  pkt_route :: route_type
  pkt_type :: payload_type
  pkt_ver :: payload_ver
  pkt_codes :: "(int \<times> int) option"
  pkt_path :: bytes
  pkt_payload :: bytes
  pkt_hash_size :: int

definition has_transport_codes :: "int \<Rightarrow> bool" where
  "has_transport_codes r \<longleftrightarrow> r \<in> {route_val TRANSPORT_FLOOD, route_val TRANSPORT_DIRECT}"

definition encode_header :: "int \<Rightarrow> int \<Rightarrow> int \<Rightarrow> int" where
  "encode_header r p v = ((r AND 0x03) OR push_bit 2 (p AND 0x0F)) OR push_bit 6 (v AND 0x03)"

definition decode_header :: "int \<Rightarrow> int \<times> int \<times> int" where
  "decode_header b = (b AND 0x03, drop_bit 2 b AND 0x0F, drop_bit 6 b AND 0x03)"

definition encode_path_len :: "int \<Rightarrow> int \<Rightarrow> int res" where
  "encode_path_len hash_count hash_size =
     (if \<not> (1 \<le> hash_size \<and> hash_size \<le> 4) then Inl ValueError
      else if \<not> (0 \<le> hash_count \<and> hash_count \<le> PATH_LEN_HASH_COUNT_MASK) then Inl ValueError
      else Inr ((hash_count AND PATH_LEN_HASH_COUNT_MASK) OR push_bit 6 (hash_size - 1)))"

definition decode_path_len :: "int \<Rightarrow> int \<times> int" where
  "decode_path_len b = (b AND PATH_LEN_HASH_COUNT_MASK, (drop_bit 6 b AND 0x03) + 1)"

text \<open>The property \<open>Packet.hash_count\<close>: floor division, an exception for a hash size of 0.\<close>

definition hash_count :: "packet \<Rightarrow> int res" where
  "hash_count p = (if pkt_hash_size p = 0 then Inl ZeroDivisionError
     else Inr (int (length (pkt_path p)) div pkt_hash_size p))"

text \<open>
  \<open>encode_packet\<close>, in the order the code appends to its buffer: the transport codes
  (\<open>encode_codes\<close>), then the check of the path length and the \<open>path_len\<close> byte.
\<close>

definition encode_codes :: "route_type \<Rightarrow> (int \<times> int) option \<Rightarrow> bytes res" where
  "encode_codes r codes =
     (if has_transport_codes (route_val r) then
        (case codes of
           None \<Rightarrow> Inl ValueError
         | Some (a, b) \<Rightarrow>
             bindR (to_bytes_le 2 a) (\<lambda>as. bindR (to_bytes_le 2 b) (\<lambda>bs. Inr (as @ bs))))
      else if codes \<noteq> None then Inl ValueError
      else Inr [])"

definition encode_path_byte :: "packet \<Rightarrow> byte res" where
  "encode_path_byte p =
     bindR (if pkt_hash_size p = 1 then Inr ()
            else if pkt_hash_size p = 0 then Inl ZeroDivisionError
            else if int (length (pkt_path p)) mod pkt_hash_size p \<noteq> 0 then Inl ValueError
            else Inr ()) (\<lambda>_.
     bindR (hash_count p) (\<lambda>n.
     bindR (encode_path_len n (pkt_hash_size p)) (\<lambda>l. byte_of l)))"

definition encode_packet :: "packet \<Rightarrow> bytes res" where
  "encode_packet p =
     bindR (byte_of (encode_header (route_val (pkt_route p)) (payload_val (pkt_type p))
                       (ver_val (pkt_ver p)))) (\<lambda>h.
     bindR (encode_codes (pkt_route p) (pkt_codes p)) (\<lambda>codes.
     bindR (encode_path_byte p) (\<lambda>pl.
     Inr (h # codes @ pl # pkt_path p @ pkt_payload p))))"

text \<open>
  \<open>decode_packet\<close>: \<open>decode_codes\<close> is the part up to the transport codes and returns the next
  index \<open>i\<close>; \<open>decode_path\<close> reads the \<open>path_len\<close> byte and the path at \<open>i\<close> and returns
  the hash size, the path and the payload.
\<close>

definition decode_codes :: "int \<Rightarrow> nat \<Rightarrow> bytes \<Rightarrow> ((int \<times> int) option \<times> nat) res" where
  "decode_codes route_v i data =
     (if has_transport_codes route_v then
        (if length data < i + TRANSPORT_CODES_SIZE then Inl ValueError
         else Inr (Some (from_bytes_le (py_slice i (i + 2) data),
                         from_bytes_le (py_slice (i + 2) (i + 4) data)),
                   i + TRANSPORT_CODES_SIZE))
      else Inr (None, i))"

definition decode_path :: "nat \<Rightarrow> bytes \<Rightarrow> (int \<times> bytes \<times> bytes) res" where
  "decode_path i data =
     (if length data < i + 1 then Inl ValueError
      else
        let (hash_count, hash_size) = decode_path_len (uint (data ! i));
            i = i + 1;
            path_bytes = hash_count * hash_size in
        if path_bytes > MAX_PATH_SIZE then Inl ValueError
        else if int (length data) < int i + path_bytes then Inl ValueError
        else Inr (hash_size, py_slice i (i + nat path_bytes) data, drop (i + nat path_bytes) data))"

definition decode_packet :: "bytes \<Rightarrow> packet res" where
  "decode_packet data =
     (if data = [] then Inl ValueError
      else
        let (route_v, payload_v, ver_v) = decode_header (uint (data ! 0)) in
        bindR (decode_codes route_v 1 data) (\<lambda>(codes, i).
        bindR (decode_path i data) (\<lambda>(hash_size, path, payload).
          Inr \<lparr> pkt_route = as_route route_v, pkt_type = as_payload payload_v,
                pkt_ver = as_ver ver_v, pkt_codes = codes, pkt_path = path,
                pkt_payload = payload, pkt_hash_size = hash_size \<rparr>)))"

section \<open>The header and path length bytes\<close>

lemma encode_header_eq: "encode_header r p v = r mod 4 + 4 * (p mod 16) + 64 * (v mod 4)"
proof -
  have 1: "0 \<le> r mod 4" "r mod 4 < 4" "0 \<le> p mod 16" "p mod 16 < 16" by simp_all
  then have 2: "0 \<le> r mod 4 + 4 * (p mod 16)" "r mod 4 + 4 * (p mod 16) < 64" by linarith+
  show ?thesis unfolding encode_header_def and_3 and_15 push_bits or_4 [OF 1(1,2)] or_64 [OF 2] ..
qed

lemma decode_header_eq: "decode_header b = (b mod 4, b div 4 mod 16, b div 64 mod 4)"
  by (simp add: decode_header_def bits)

lemma encode_header_bounds: "0 \<le> encode_header r p v" "encode_header r p v < 256"
  using pos_mod_bound [of 4 r] pos_mod_bound [of 16 p] pos_mod_bound [of 4 v]
  unfolding encode_header_eq by (simp_all del: pos_mod_bound)

lemma header_fields:
  fixes a b c :: int
  assumes "0 \<le> a" "a < 4" "0 \<le> b" "b < 16" "0 \<le> c" "c < 4"
  shows "(a + 4 * b + 64 * c) mod 4 = a" "(a + 4 * b + 64 * c) div 4 mod 16 = b"
    "(a + 4 * b + 64 * c) div 64 mod 4 = c"
proof -
  have 1: "(a + 4 * b + 64 * c) div 4 = b + 16 * c" using assms by simp
  have 2: "(a + 4 * b + 64 * c) div 64 = c"
    using assms by (intro int_div_pos_eq [of _ _ _ "a + 4 * b"]) auto
  have "a + 4 * b + 64 * c = a + 4 * (b + 16 * c)" by simp
  then have "(a + 4 * b + 64 * c) mod 4 = a mod 4" by (simp only: mod_mult_self2)
  then show "(a + 4 * b + 64 * c) mod 4 = a" using assms by simp
  show "(a + 4 * b + 64 * c) div 4 mod 16 = b" unfolding 1 using assms by simp
  show "(a + 4 * b + 64 * c) div 64 mod 4 = c" unfolding 2 using assms by simp
qed

lemma decode_encode_header:
  "decode_header (encode_header r p v) = (r mod 4, p mod 16, v mod 4)"
  unfolding decode_header_eq encode_header_eq by (simp only: header_fields pos_mod_sign pos_mod_bound)

lemma encode_decode_header:
  assumes "0 \<le> b" "b < 256" "decode_header b = (r, p, v)"
  shows "encode_header r p v = b" "0 \<le> r" "r < 4" "0 \<le> p" "p < 16" "0 \<le> v" "v < 4"
proof -
  have *: "r = b mod 4" "p = b div 4 mod 16" "v = b div 64 mod 4"
    using assms(3) by (auto simp: decode_header_eq)
  have d: "b div 64 = b div 4 div 16" by (simp flip: zdiv_zmult2_eq)
  have "b div 64 mod 4 = b div 64" using assms(1,2) by (intro mod_pos_pos_trivial) auto
  moreover have "b = 4 * (b div 4) + b mod 4" "b div 4 = 16 * (b div 4 div 16) + b div 4 mod 16"
    by simp_all
  ultimately show "encode_header r p v = b"
    unfolding encode_header_eq * mod_mod_trivial using d by linarith
qed (use assms in \<open>auto simp: decode_header_eq\<close>)

lemma encode_path_len_Inr_iff:
  "encode_path_len n k = Inr l \<longleftrightarrow> 1 \<le> k \<and> k \<le> 4 \<and> 0 \<le> n \<and> n \<le> 63 \<and> l = n + 64 * (k - 1)"
proof (cases "1 \<le> k \<and> k \<le> 4 \<and> 0 \<le> n \<and> n \<le> 63")
  case True
  then have "n AND 63 OR push_bit 6 (k - 1) = n + 64 * (k - 1)"
    unfolding push_bits and_63 by (subst or_64) auto
  then show ?thesis using True by (auto simp: encode_path_len_def packet_consts)
next
  case False
  then show ?thesis by (auto simp: encode_path_len_def packet_consts)
qed

lemma decode_path_len_eq: "decode_path_len b = (b mod 64, b div 64 mod 4 + 1)"
  by (simp add: decode_path_len_def packet_consts bits)

lemma decode_encode_path_len:
  assumes "encode_path_len n k = Inr l"
  shows "decode_path_len l = (n, k)" "0 \<le> l" "l < 256"
proof -
  have l: "l = n + 64 * (k - 1)" and b: "0 \<le> n" "n \<le> 63" "1 \<le> k" "k \<le> 4"
    using assms by (auto simp: encode_path_len_Inr_iff)
  have "l mod 64 = n" unfolding l mod_mult_self2 using b by simp
  moreover have "l div 64 = k - 1" unfolding l using b by simp
  ultimately show "decode_path_len l = (n, k)" using b by (simp add: decode_path_len_eq)
qed (use assms in \<open>auto simp: encode_path_len_Inr_iff\<close>)

lemma encode_decode_path_len:
  assumes "0 \<le> b" "b < 256" "decode_path_len b = (n, k)"
  shows "encode_path_len n k = Inr b" "0 \<le> n" "n \<le> 63" "1 \<le> k" "k \<le> 4"
proof -
  have *: "n = b mod 64" "k = b div 64 mod 4 + 1" using assms(3) by (auto simp: decode_path_len_eq)
  have "b div 64 mod 4 = b div 64" using assms(1,2) by (intro mod_pos_pos_trivial) auto
  then show "encode_path_len n k = Inr b" using assms(1,2)
    unfolding encode_path_len_Inr_iff * by auto
qed (use assms in \<open>auto simp: decode_path_len_eq\<close>)

section \<open>Encoder and decoder are inverse\<close>

text \<open>
  Well-formed packets: the enumeration fields hold members (or the raw payload types \<open>0x0C..0x0E\<close>
  that have none), transport codes are there exactly for the transport routes and fit in 16 bits,
  the path is a whole number of hashes and within \<open>MAX_PATH_SIZE\<close>.
\<close>

definition codes_ok :: "route_type \<Rightarrow> (int \<times> int) option \<Rightarrow> bool" where
  "codes_ok r c \<longleftrightarrow>
     (case c of
        None \<Rightarrow> \<not> has_transport_codes (route_val r)
      | Some (a, b) \<Rightarrow> has_transport_codes (route_val r) \<and> 0 \<le> a \<and> a < 65536 \<and> 0 \<le> b \<and> b < 65536)"

definition path_ok :: "int \<Rightarrow> bytes \<Rightarrow> bool" where
  "path_ok k path \<longleftrightarrow>
     1 \<le> k \<and> k \<le> 4 \<and> int (length path) mod k = 0 \<and> int (length path) div k \<le> 63"

definition wf_packet :: "packet \<Rightarrow> bool" where
  "wf_packet p \<longleftrightarrow>
     as_route (route_val (pkt_route p)) = pkt_route p \<and>
     0 \<le> route_val (pkt_route p) \<and> route_val (pkt_route p) < 4 \<and>
     as_payload (payload_val (pkt_type p)) = pkt_type p \<and>
     0 \<le> payload_val (pkt_type p) \<and> payload_val (pkt_type p) < 16 \<and>
     as_ver (ver_val (pkt_ver p)) = pkt_ver p \<and>
     0 \<le> ver_val (pkt_ver p) \<and> ver_val (pkt_ver p) < 4 \<and>
     codes_ok (pkt_route p) (pkt_codes p) \<and>
     path_ok (pkt_hash_size p) (pkt_path p) \<and>
     length (pkt_path p) \<le> 64"

text \<open>The bytes of the transport codes, and what the encoder writes for a packet.\<close>

definition code_bytes :: "(int \<times> int) option \<Rightarrow> bytes" where
  "code_bytes c = (case c of None \<Rightarrow> [] | Some (a, b) \<Rightarrow> le_bytes 2 a @ le_bytes 2 b)"

definition packet_image :: "packet \<Rightarrow> bytes" where
  "packet_image p =
     word_of_int (encode_header (route_val (pkt_route p)) (payload_val (pkt_type p))
                    (ver_val (pkt_ver p)))
       # code_bytes (pkt_codes p)
       @ word_of_int (int (length (pkt_path p)) div pkt_hash_size p + 64 * (pkt_hash_size p - 1))
       # pkt_path p @ pkt_payload p"

lemma encode_codes_Inr_iff: "encode_codes r c = Inr bs \<longleftrightarrow> codes_ok r c \<and> bs = code_bytes c"
  by (auto simp: encode_codes_def codes_ok_def code_bytes_def to_bytes_le_def
      split: option.splits prod.splits if_splits)

lemma encode_path_byte_Inr_iff:
  "encode_path_byte p = Inr b \<longleftrightarrow> path_ok (pkt_hash_size p) (pkt_path p) \<and>
     b = word_of_int (int (length (pkt_path p)) div pkt_hash_size p + 64 * (pkt_hash_size p - 1))"
proof (cases "1 \<le> pkt_hash_size p")
  case True
  then have "0 \<le> int (length (pkt_path p)) div pkt_hash_size p"
    by (simp add: pos_imp_zdiv_nonneg_iff)
  then show ?thesis using True
    by (auto simp: encode_path_byte_def hash_count_def path_ok_def encode_path_len_Inr_iff
        byte_of_Inr_iff simp del: of_int_add of_int_diff of_int_mult)
next
  case False
  then show ?thesis
    by (auto simp: encode_path_byte_def hash_count_def path_ok_def encode_path_len_Inr_iff)
qed

lemma encode_packet_Inr_iff:
  "encode_packet p = Inr w \<longleftrightarrow>
     codes_ok (pkt_route p) (pkt_codes p) \<and> path_ok (pkt_hash_size p) (pkt_path p) \<and>
     w = packet_image p"
  by (auto simp: encode_packet_def packet_image_def encode_codes_Inr_iff encode_path_byte_Inr_iff
      byte_of_def encode_header_bounds)

text \<open>The decoder on bytes split where the format splits them.\<close>

lemma decode_codes_split:
  assumes "codes_ok r c"
  shows "decode_codes (route_val r) 1 (h # code_bytes c @ rest) = Inr (c, 1 + length (code_bytes c))"
proof (cases c)
  case None
  then show ?thesis using assms by (simp add: decode_codes_def codes_ok_def code_bytes_def)
next
  case (Some ab)
  obtain a b where c: "c = Some (a, b)" using Some by (cases ab) auto
  show ?thesis using assms c
    by (simp add: decode_codes_def codes_ok_def code_bytes_def packet_consts from_le_bytes py_slice_def)
qed

lemma decode_path_split:
  assumes "length pre = i" "decode_path_len (uint b) = (n, k)" "1 \<le> k" "0 \<le> n"
    and "n * k = int (length path)"
  shows "decode_path i (pre @ b # path @ rest) =
    (if length path \<le> 64 then Inr (k, path, rest) else Inl ValueError)"
  using assms by (auto simp: decode_path_def packet_consts py_slice_def nth_append)

lemma decode_packet_image:
  assumes wf: "codes_ok (pkt_route p) (pkt_codes p)" "path_ok (pkt_hash_size p) (pkt_path p)"
    and hdr: "0 \<le> route_val (pkt_route p)" "route_val (pkt_route p) < 4"
      "0 \<le> payload_val (pkt_type p)" "payload_val (pkt_type p) < 16"
      "0 \<le> ver_val (pkt_ver p)" "ver_val (pkt_ver p) < 4"
  shows "decode_packet (packet_image p) =
    (if length (pkt_path p) \<le> 64
     then Inr (p \<lparr> pkt_route := as_route (route_val (pkt_route p)),
                   pkt_type := as_payload (payload_val (pkt_type p)),
                   pkt_ver := as_ver (ver_val (pkt_ver p)) \<rparr>)
     else Inl ValueError)"
proof -
  let ?k = "pkt_hash_size p" and ?n = "int (length (pkt_path p)) div pkt_hash_size p"
  let ?hv = "encode_header (route_val (pkt_route p)) (payload_val (pkt_type p)) (ver_val (pkt_ver p))"
  let ?h = "word_of_int ?hv :: byte" and ?pl = "word_of_int (?n + 64 * (?k - 1)) :: byte"
  let ?cs = "code_bytes (pkt_codes p)"
  have k: "1 \<le> ?k" "?k \<le> 4" "?n \<le> 63" and n: "0 \<le> ?n"
    and nk: "?n * ?k = int (length (pkt_path p))"
    using wf(2) by (auto simp: path_ok_def pos_imp_zdiv_nonneg_iff)
  have h: "decode_header (uint ?h) = (route_val (pkt_route p), payload_val (pkt_type p), ver_val (pkt_ver p))"
    using hdr encode_header_bounds by (simp add: uint_of_int_byte decode_encode_header)
  have pl: "decode_path_len (uint ?pl) = (?n, ?k)"
    using decode_encode_path_len [of ?n ?k "?n + 64 * (?k - 1)"] k n
    by (simp only: uint_of_int_byte encode_path_len_Inr_iff) simp
  have path: "decode_path (1 + length ?cs) ((?h # ?cs) @ ?pl # pkt_path p @ pkt_payload p) =
      (if length (pkt_path p) \<le> 64 then Inr (?k, pkt_path p, pkt_payload p) else Inl ValueError)"
    by (rule decode_path_split [OF _ pl k(1) n nk]) simp
  show ?thesis
    unfolding packet_image_def decode_packet_def
    using h path decode_codes_split [OF wf(1), of ?h "?pl # pkt_path p @ pkt_payload p"]
    by (auto simp del: of_int_add of_int_mult of_int_diff)
qed

text \<open>What the decoder accepts is well formed, and the encoder rebuilds exactly those bytes.\<close>

lemma decode_codes_Inr:
  assumes "decode_codes (route_val r) 1 w = Inr (c, i)" "w \<noteq> []"
  shows "codes_ok r c" "i = 1 + length (code_bytes c)" "take i w = hd w # code_bytes c"
proof -
  obtain h t where w: "w = h # t" using assms(2) by (cases w) auto
  have "codes_ok r c \<and> i = 1 + length (code_bytes c) \<and> take i w = hd w # code_bytes c"
  proof (cases "has_transport_codes (route_val r)")
    case True
    have i: "i = 5" and l: "4 \<le> length t"
      and c: "c = Some (from_bytes_le (take 2 t), from_bytes_le (take 2 (drop 2 t)))"
      using assms(1) True w
      by (auto simp: decode_codes_def packet_consts py_slice_def numeral_2_eq_2 split: if_splits)
    have lens: "length (take 2 t) = 2" "length (take 2 (drop 2 t)) = 2" using l by simp_all
    have b: "from_bytes_le (take 2 t) < 65536" "from_bytes_le (take 2 (drop 2 t)) < 65536"
      using from_bytes_le_bounds [of "take 2 t"] from_bytes_le_bounds [of "take 2 (drop 2 t)"]
      unfolding lens by simp_all
    have r: "le_bytes 2 (from_bytes_le (take 2 t)) = take 2 t"
      "le_bytes 2 (from_bytes_le (take 2 (drop 2 t))) = take 2 (drop 2 t)"
      using l by (simp_all add: from_bytes_le_def le_bytes_le_int)
    have "take 4 t = take 2 t @ take 2 (drop 2 t)" using take_add [of 2 2 t] by simp
    moreover have "min (length t) 2 + min (length t - 2) 2 = 4" using l by simp
    ultimately show ?thesis using True b r i c w from_bytes_le_bounds
      by (simp add: codes_ok_def code_bytes_def)
  next
    case False
    then show ?thesis using assms(1) w
      by (auto simp: decode_codes_def codes_ok_def code_bytes_def)
  qed
  then show "codes_ok r c" "i = 1 + length (code_bytes c)" "take i w = hd w # code_bytes c"
    by blast+
qed

lemma decode_path_Inr:
  assumes "decode_path i w = Inr (k, path, rest)"
  shows "path_ok k path" "length path \<le> 64"
    "w = take i w @ word_of_int (int (length path) div k + 64 * (k - 1)) # path @ rest"
proof -
  obtain n k' where nk: "decode_path_len (uint (w ! i)) = (n, k')" by fastforce
  let ?m = "nat (n * k')"
  have i: "i < length w" and k': "k' = k" and b: "n * k \<le> 64" "int (i + 1) + n * k \<le> int (length w)"
    and path: "path = take ?m (drop (i + 1) w)" and rest: "rest = drop ?m (drop (i + 1) w)"
    using assms nk by (auto simp: decode_path_def packet_consts py_slice_def Let_def ac_simps
        split: if_splits)
  have e: "encode_path_len n k = Inr (uint (w ! i))" "0 \<le> n" "n \<le> 63" "1 \<le> k" "k \<le> 4"
    using encode_decode_path_len [OF _ _ nk] k' by auto
  have len: "int (length path) = n * k" using b e(2,4) path k' by auto
  then have dk: "int (length path) div k = n" "int (length path) mod k = 0" using e(4) by auto
  show "path_ok k path" using dk e by (simp add: path_ok_def)
  show "length path \<le> 64" using len b(1) by linarith
  have "uint (w ! i) = n + 64 * (k - 1)" using e(1) by (auto simp: encode_path_len_Inr_iff)
  then have "w ! i = word_of_int (n + 64 * (k - 1))" by (metis word_of_int_uint)
  moreover have "w = take i w @ w ! i # drop (i + 1) w" using i id_take_nth_drop [of i w] by simp
  moreover have "drop (i + 1) w = path @ rest" by (simp only: path rest append_take_drop_id)
  ultimately show "w = take i w @ word_of_int (int (length path) div k + 64 * (k - 1)) # path @ rest"
    unfolding dk by metis
qed

lemma decode_packet_Inr:
  assumes "decode_packet w = Inr p"
  shows "wf_packet p" "packet_image p = w"
proof -
  obtain r t v where h: "decode_header (uint (w ! 0)) = (r, t, v)" by (metis prod_cases3)
  obtain c i k path rest where w: "w \<noteq> []" and c: "decode_codes (route_val (as_route r)) 1 w = Inr (c, i)"
    and d: "decode_path i w = Inr (k, path, rest)"
    and p: "p = \<lparr> pkt_route = as_route r, pkt_type = as_payload t, pkt_ver = as_ver v,
      pkt_codes = c, pkt_path = path, pkt_payload = rest, pkt_hash_size = k \<rparr>"
    using assms h by (auto simp: decode_packet_def split: if_splits)
  have e: "encode_header r t v = uint (w ! 0)" "0 \<le> r" "r < 4" "0 \<le> t" "t < 16" "0 \<le> v" "v < 4"
    using encode_decode_header [OF _ _ h] by auto
  show "wf_packet p"
    using decode_codes_Inr(1) [OF c w] decode_path_Inr(1,2) [OF d] e p by (simp add: wf_packet_def)
  have "hd w = word_of_int (encode_header r t v)" using w by (simp add: e(1) hd_conv_nth)
  then show "packet_image p = w"
    using decode_codes_Inr(3) [OF c w] decode_path_Inr(3) [OF d] p
    by (simp add: packet_image_def del: of_int_add of_int_mult of_int_diff)
qed

lemma decode_packet_Inl: "decode_packet w = Inl e \<Longrightarrow> e = ValueError"
  by (auto simp: decode_packet_def decode_codes_def decode_path_def Let_def
      split: prod.splits if_splits)

interpretation pkt_codec: canonical_codec wf_packet encode_packet decode_packet
proof
  fix p w
  show "wf_packet p \<Longrightarrow> \<exists>w. encode_packet p = Inr w"
    by (simp add: encode_packet_Inr_iff wf_packet_def)
  show "wf_packet p \<Longrightarrow> encode_packet p = Inr w \<Longrightarrow> decode_packet w = Inr p"
    using decode_packet_image [of p] by (auto simp: encode_packet_Inr_iff wf_packet_def)
  show "decode_packet w = Inr p \<Longrightarrow> wf_packet p" by (rule decode_packet_Inr)
  show "decode_packet w = Inr p \<Longrightarrow> encode_packet p = Inr w"
    using decode_packet_Inr [of w p] by (simp add: encode_packet_Inr_iff wf_packet_def)
qed

section \<open>Properties\<close>

text \<open>
  Property (C1): \<open>decode_packet\<close> returns exactly the well-formed packets, and each from exactly one
  byte string: the one \<open>encode_packet\<close> writes for it. Hence decoding inverts encoding, encoding
  inverts decoding, and no two byte strings decode to the same packet.
\<close>

theorem decode_packet_iff_encode_packet:
  "decode_packet w = Inr p \<longleftrightarrow> wf_packet p \<and> encode_packet p = Inr w"
  by (rule pkt_codec.dec_iff_enc)

text \<open>
  On any byte string at all, \<open>decode_packet\<close> either returns a packet or raises
  \<open>ValueError\<close>, never an index error or another exception. The receive loops catch only
  \<open>ValueError\<close> around it, so no frame from the radio can escape that handler.
\<close>

lemma decode_packet_only_ValueError:
  "(\<exists>p. decode_packet w = Inr p) \<or> decode_packet w = Inl ValueError"
  using decode_packet_Inl [of w] by (cases "decode_packet w") auto

text \<open>
  The encoder does not enforce \<open>MAX_PATH_SIZE\<close>. A packet with header fields in range
  and a path of more than 64 bytes that is a whole number of hashes (at most 63) is encoded without
  an exception, and the decoder refuses the result.
\<close>

lemma long_path_encodes_but_does_not_decode:
  assumes "codes_ok (pkt_route p) (pkt_codes p)" "path_ok (pkt_hash_size p) (pkt_path p)"
    and "0 \<le> route_val (pkt_route p)" "route_val (pkt_route p) < 4"
    and "0 \<le> payload_val (pkt_type p)" "payload_val (pkt_type p) < 16"
    and "0 \<le> ver_val (pkt_ver p)" "ver_val (pkt_ver p) < 4"
    and "64 < length (pkt_path p)"
  shows "\<exists>w. encode_packet p = Inr w \<and> decode_packet w = Inl ValueError"
  using assms by (simp add: encode_packet_Inr_iff decode_packet_image)

definition long_path_packet :: packet where
  "long_path_packet = \<lparr> pkt_route = DIRECT, pkt_type = TXT_MSG, pkt_ver = V1, pkt_codes = None,
     pkt_path = replicate 66 7, pkt_payload = [1, 2], pkt_hash_size = 2 \<rparr>"

lemma long_path_witness:
  "\<exists>w. encode_packet long_path_packet = Inr w \<and> decode_packet w = Inl ValueError"
  by (rule long_path_encodes_but_does_not_decode)
    (simp_all add: long_path_packet_def codes_ok_def has_transport_codes_def path_ok_def)

end
