(* ===== verification/Kiss.thy ===== *)
theory Kiss
  imports Bits
begin

unbundle bit_operations_syntax

text \<open>
  KISS framing on the serial link (\<open>softmesh_stack/kiss.py\<close>): the escaping encoder and the
  streaming decoder, a state machine fed with arbitrary chunks of bytes.
\<close>

section \<open>Frames and the encoder\<close>

definition FEND :: byte where "FEND = 0xC0"
definition FESC :: byte where "FESC = 0xDB"
definition TFEND :: byte where "TFEND = 0xDC"
definition TFESC :: byte where "TFESC = 0xDD"

lemmas kiss_bytes = FEND_def FESC_def TFEND_def TFESC_def

text \<open>The members of \<open>KissCommand\<close> the code uses; a command is an integer.\<close>

definition KISS_DATA :: int where "KISS_DATA = 0x00"
definition KISS_SET_HARDWARE :: int where "KISS_SET_HARDWARE = 0x06"
definition KISS_RETURN :: int where "KISS_RETURN = 0xFF"

lemmas kiss_commands = KISS_DATA_def KISS_SET_HARDWARE_def KISS_RETURN_def

record kiss_frame =
  fr_port :: int
  fr_command :: int
  fr_data :: bytes

definition type_byte :: "kiss_frame \<Rightarrow> int res" where
  "type_byte f =
     (if fr_command f = KISS_RETURN then Inr 0xFF
      else if \<not> (0 \<le> fr_port f \<and> fr_port f \<le> 0x0F) then Inl ValueError
      else if \<not> (0 \<le> fr_command f \<and> fr_command f \<le> 0x0F) then Inl ValueError
      else Inr (push_bit 4 (fr_port f AND 0x0F) OR (fr_command f AND 0x0F)))"

fun escape :: "bytes \<Rightarrow> bytes" where
  "escape [] = []"
| "escape (b # bs) =
     (if b = FEND then FESC # TFEND # escape bs
      else if b = FESC then FESC # TFESC # escape bs
      else b # escape bs)"

definition encode :: "kiss_frame \<Rightarrow> bytes res" where
  "encode f = bindR (type_byte f) (\<lambda>t. bindR (byte_of t) (\<lambda>tb.
     Inr (FEND # tb # escape (fr_data f) @ [FEND])))"

definition data_frame :: "bytes \<Rightarrow> bytes res" where
  "data_frame payload = encode \<lparr> fr_port = 0, fr_command = KISS_DATA, fr_data = payload \<rparr>"

section \<open>The streaming decoder\<close>

record kiss_decoder =
  d_buf :: bytes
  d_escaped :: bool
  d_in_frame :: bool

definition new_decoder :: kiss_decoder where
  "new_decoder = \<lparr> d_buf = [], d_escaped = False, d_in_frame = False \<rparr>"

definition build_frame :: "bytes \<Rightarrow> kiss_frame option" where
  "build_frame buf =
     (case buf of
        [] \<Rightarrow> None
      | t # rest \<Rightarrow>
          if uint t = 0xFF then Some \<lparr> fr_port = 0, fr_command = KISS_RETURN, fr_data = [] \<rparr>
          else Some \<lparr> fr_port = drop_bit 4 (uint t) AND 0x0F, fr_command = uint t AND 0x0F,
                      fr_data = rest \<rparr>)"

text \<open>One iteration of the loop of \<open>feed\<close>, with the frame it completes, if any.\<close>

definition feed_byte :: "kiss_decoder \<Rightarrow> byte \<Rightarrow> kiss_decoder \<times> kiss_frame list" where
  "feed_byte d b =
     (if b = FEND then
        (\<lparr> d_buf = [], d_escaped = False, d_in_frame = True \<rparr>,
         if d_in_frame d \<and> d_buf d \<noteq> [] then
           (case build_frame (d_buf d) of None \<Rightarrow> [] | Some f \<Rightarrow> [f])
         else [])
      else if \<not> d_in_frame d then (d, [])
      else if d_escaped d then
        ((if b = TFEND then d\<lparr>d_buf := d_buf d @ [FEND]\<rparr>
          else if b = TFESC then d\<lparr>d_buf := d_buf d @ [FESC]\<rparr>
          else d)\<lparr>d_escaped := False\<rparr>, [])
      else if b = FESC then (d\<lparr>d_escaped := True\<rparr>, [])
      else (d\<lparr>d_buf := d_buf d @ [b]\<rparr>, []))"

definition feed :: "kiss_decoder \<Rightarrow> bytes \<Rightarrow> kiss_decoder \<times> kiss_frame list" where
  "feed d data = run_machine feed_byte d data"

section \<open>Decoding what was encoded\<close>

lemma kiss_bytes_distinct [simp]:
  "FEND \<noteq> FESC" "FESC \<noteq> FEND" "TFEND \<noteq> FEND" "TFESC \<noteq> FEND" "TFEND \<noteq> TFESC" "TFESC \<noteq> TFEND"
  by (simp_all add: kiss_bytes)

lemma feed_Nil [simp]: "feed d [] = (d, [])"
  by (simp add: feed_def)

lemma feed_append:
  "feed d (xs @ ys) = (let (d1, f1) = feed d xs; (d2, f2) = feed d1 ys in (d2, f1 @ f2))"
  by (simp add: feed_def run_machine_append)

lemma feed_Cons:
  "feed d (x # xs) = (let (d1, f1) = feed_byte d x; (d2, f2) = feed d1 xs in (d2, f1 @ f2))"
  by (simp add: feed_def)

text \<open>Inside a frame, escaped data goes to the buffer unchanged and completes nothing.\<close>

lemma feed_escape:
  "d_in_frame d \<Longrightarrow> \<not> d_escaped d \<Longrightarrow> feed d (escape bs) = (d\<lparr>d_buf := d_buf d @ bs\<rparr>, [])"
  by (induction bs arbitrary: d) (auto simp: feed_Cons feed_byte_def)

text \<open>
  The frames that survive a round trip: in range, and with a type byte that is not itself one of
  the special bytes (the encoder does not escape it). A RETURN frame comes back as port 0 without
  data.
\<close>

definition wf_frame :: "kiss_frame \<Rightarrow> bool" where
  "wf_frame f \<longleftrightarrow>
     (fr_command f = KISS_RETURN \<and> fr_port f = 0 \<and> fr_data f = []) \<or>
     (0 \<le> fr_port f \<and> fr_port f \<le> 15 \<and> 0 \<le> fr_command f \<and> fr_command f \<le> 15 \<and>
      16 * fr_port f + fr_command f \<notin> {0xC0, 0xDB, 0xFF})"

lemma type_byte_in_range:
  assumes "0 \<le> fr_port f" "fr_port f \<le> 15" "0 \<le> fr_command f" "fr_command f \<le> 15"
  shows "type_byte f = Inr (16 * fr_port f + fr_command f)"
proof -
  have "fr_command f OR 16 * fr_port f = fr_command f + 16 * fr_port f"
    using assms by (intro or_16) auto
  then show ?thesis using assms by (simp add: type_byte_def bits kiss_commands or.commute)
qed

lemma word_of_int_ne: "0 \<le> t \<Longrightarrow> t < 256 \<Longrightarrow> t \<noteq> uint b \<Longrightarrow> (word_of_int t :: byte) \<noteq> b"
  using uint_of_int_byte [of t] by auto

lemma build_frame_type_byte:
  assumes "wf_frame f" "type_byte f = Inr t"
  shows "0 \<le> t" "t < 256" "word_of_int t \<noteq> FEND" "word_of_int t \<noteq> FESC"
    "build_frame (word_of_int t # fr_data f) = Some f"
proof -
  consider (ret) "fr_command f = KISS_RETURN" "fr_port f = 0" "fr_data f = []"
    | (norm) "0 \<le> fr_port f" "fr_port f \<le> 15" "0 \<le> fr_command f" "fr_command f \<le> 15"
      "16 * fr_port f + fr_command f \<notin> {0xC0, 0xDB, 0xFF}"
    using assms(1) by (auto simp: wf_frame_def)
  then have "0 \<le> t \<and> t < 256 \<and> t \<noteq> 0xC0 \<and> t \<noteq> 0xDB \<and>
      build_frame (word_of_int t # fr_data f) = Some f"
  proof cases
    case ret
    then have "t = 255" using assms(2) by (simp add: type_byte_def kiss_commands)
    then show ?thesis using ret by (simp add: build_frame_def kiss_commands)
  next
    case norm
    have t: "t = 16 * fr_port f + fr_command f" using assms(2) type_byte_in_range norm by simp
    have d: "t mod 16 = fr_command f" "t div 16 = fr_port f" "0 \<le> t" "t < 256"
      "t \<notin> {0xC0, 0xDB, 0xFF}"
      using norm unfolding t by simp_all
    then have u: "uint (word_of_int t :: byte) = t" by (simp add: uint_of_int_byte)
    have "build_frame (word_of_int t # fr_data f) = Some f"
      using norm d unfolding build_frame_def bits list.case u by simp
    then show ?thesis using d by simp
  qed
  then show "0 \<le> t" "t < 256" "word_of_int t \<noteq> FEND" "word_of_int t \<noteq> FESC"
    "build_frame (word_of_int t # fr_data f) = Some f"
    using word_of_int_ne [of t FEND] word_of_int_ne [of t FESC] by (auto simp: kiss_bytes)
qed

lemma encode_shape:
  assumes "wf_frame f" "encode f = Inr w"
  obtains tb where "w = FEND # tb # escape (fr_data f) @ [FEND]" "tb \<noteq> FEND" "tb \<noteq> FESC"
    "build_frame (tb # fr_data f) = Some f"
proof -
  obtain t where t: "type_byte f = Inr t" and w: "bindR (byte_of t) (\<lambda>tb.
      Inr (FEND # tb # escape (fr_data f) @ [FEND])) = Inr w"
    using assms(2) by (auto simp: encode_def)
  show thesis
    using that [of "word_of_int t"] w build_frame_type_byte [OF assms(1) t]
    by (auto simp: byte_of_Inr_iff)
qed

lemma encode_total:
  assumes "wf_frame f"
  shows "\<exists>w. encode f = Inr w"
proof -
  have "\<exists>t. type_byte f = Inr t"
    using assms type_byte_in_range [of f] by (auto simp: wf_frame_def type_byte_def)
  then obtain t where t: "type_byte f = Inr t" by blast
  then show ?thesis using build_frame_type_byte(1,2) [OF assms t]
    by (simp add: encode_def byte_of_def)
qed

lemma build_frame_Nil [simp]: "build_frame [] = None"
  by (simp add: build_frame_def)

text \<open>The frame that a delimiter completes in a given state.\<close>

definition pending :: "kiss_decoder \<Rightarrow> kiss_frame list" where
  "pending d = (if d_in_frame d then (case build_frame (d_buf d) of None \<Rightarrow> [] | Some f \<Rightarrow> [f]) else [])"

definition idle_decoder :: kiss_decoder where
  "idle_decoder = \<lparr> d_buf = [], d_escaped = False, d_in_frame = True \<rparr>"

lemma build_frame_None_iff [simp]: "build_frame buf = None \<longleftrightarrow> buf = []"
  by (auto simp: build_frame_def split: list.splits)

lemma pending_empty [simp]: "pending idle_decoder = []" "pending new_decoder = []"
  by (simp_all add: pending_def idle_decoder_def new_decoder_def build_frame_def)

lemma feed_byte_FEND: "feed_byte d FEND = (idle_decoder, pending d)"
  by (auto simp: feed_byte_def pending_def idle_decoder_def build_frame_def split: list.splits)

text \<open>
  From any state of the decoder, an encoded frame is recovered whole: first whatever the opening
  delimiter completes, then the frame, and the decoder is idle again.
\<close>

lemma feed_encoded:
  assumes "wf_frame f" "encode f = Inr w"
  shows "feed d w = (idle_decoder, pending d @ [f])"
proof -
  obtain tb where w: "w = FEND # tb # escape (fr_data f) @ [FEND]" and tb: "tb \<noteq> FEND" "tb \<noteq> FESC"
    and f: "build_frame (tb # fr_data f) = Some f"
    using assms by (rule encode_shape)
  have "feed idle_decoder (tb # escape (fr_data f)) =
      (idle_decoder\<lparr>d_buf := tb # fr_data f\<rparr>, [])"
    using tb by (simp add: feed_Cons feed_byte_def feed_escape idle_decoder_def)
  then have "feed idle_decoder ((tb # escape (fr_data f)) @ [FEND]) = (idle_decoder, [f])"
    unfolding feed_append using f
    by (simp add: feed_Cons feed_byte_FEND pending_def) (simp add: idle_decoder_def)
  then show ?thesis unfolding w by (simp add: feed_Cons feed_byte_FEND)
qed

lemma feed_encoded_stream:
  "list_all wf_frame fs \<Longrightarrow> mapR encode fs = Inr ws \<Longrightarrow>
    feed idle_decoder (concat ws) = (idle_decoder, fs)"
  by (induction fs arbitrary: ws) (auto simp: feed_append feed_encoded)

lemma feed_noise: "FEND \<notin> set noise \<Longrightarrow> feed new_decoder noise = (new_decoder, [])"
  by (induction noise) (auto simp: feed_Cons feed_byte_def new_decoder_def)

lemma feed_chunks: "run_machine feed d chunks = feed d (concat chunks)"
  by (induction chunks arbitrary: d) (auto simp: feed_append)

section \<open>A reference deframer\<close>

text \<open>
  What the stream means, without a state machine: cut it at the delimiters, drop what precedes the
  first and what follows the last, unescape each piece (an escape followed by any other byte loses
  both), and read a frame off every piece that is not empty.
\<close>

fun cut :: "'a \<Rightarrow> 'a list \<Rightarrow> 'a list list" where
  "cut x [] = [[]]"
| "cut x (b # bs) =
     (if b = x then [] # cut x bs else (case cut x bs of [] \<Rightarrow> [[b]] | p # ps \<Rightarrow> (b # p) # ps))"

fun unescape :: "bool \<Rightarrow> bytes \<Rightarrow> bytes" where
  "unescape e [] = []"
| "unescape True (b # bs) =
     (if b = TFEND then [FEND] else if b = TFESC then [FESC] else []) @ unescape False bs"
| "unescape False (b # bs) = (if b = FESC then unescape True bs else b # unescape False bs)"

definition deframe :: "bytes \<Rightarrow> kiss_frame list" where
  "deframe data = List.map_filter (\<lambda>piece. build_frame (unescape False piece)) (butlast (tl (cut FEND data)))"

lemma cut_nonempty [simp]: "cut x bs \<noteq> []"
  by (induction x bs rule: cut.induct) (auto split: list.splits)

lemma cut_no_delim: "x \<notin> set bs \<Longrightarrow> cut x bs = [bs]"
  by (induction bs) auto

lemma cut_split: "x \<notin> set as \<Longrightarrow> cut x (as @ x # bs) = as # cut x bs"
  by (induction as) auto

lemma feed_piece:
  "d_in_frame d \<Longrightarrow> FEND \<notin> set piece \<Longrightarrow>
    d_in_frame (fst (feed d piece)) \<and> snd (feed d piece) = [] \<and>
    d_buf (fst (feed d piece)) = d_buf d @ unescape (d_escaped d) piece"
proof (induction piece arbitrary: d)
  case (Cons b bs)
  have s: "d_in_frame (fst (feed_byte d b))" "snd (feed_byte d b) = []"
    "d_buf (fst (feed_byte d b)) @ unescape (d_escaped (fst (feed_byte d b))) bs =
      d_buf d @ unescape (d_escaped d) (b # bs)"
    using Cons.prems by (cases "d_escaped d"; auto simp: feed_byte_def)+
  show ?case using Cons.IH [of "fst (feed_byte d b)"] Cons.prems s
    by (auto simp: feed_Cons Let_def split: prod.splits)
qed simp

lemma feed_idle_deframe:
  "snd (feed idle_decoder data) =
    List.map_filter (\<lambda>piece. build_frame (unescape False piece)) (butlast (cut FEND data))"
proof (induction "length data" arbitrary: data rule: less_induct)
  case less
  show ?case
  proof (cases "FEND \<in> set data")
    case False
    then show ?thesis using feed_piece [of idle_decoder data]
      by (simp add: cut_no_delim idle_decoder_def map_filter_simps)
  next
    case True
    then obtain as bs where d: "data = as @ FEND # bs" and as: "FEND \<notin> set as"
      by (meson split_list_first)
    have p: "d_in_frame (fst (feed idle_decoder as))" "snd (feed idle_decoder as) = []"
      "d_buf (fst (feed idle_decoder as)) = unescape False as"
      using feed_piece [of idle_decoder as] as by (auto simp: idle_decoder_def)
    have "snd (feed idle_decoder data) =
        pending (fst (feed idle_decoder as)) @ snd (feed idle_decoder bs)"
      unfolding d feed_append using p(2)
      by (auto simp: feed_Cons feed_byte_FEND Let_def split: prod.splits)
    moreover have "snd (feed idle_decoder bs) =
        List.map_filter (\<lambda>piece. build_frame (unescape False piece)) (butlast (cut FEND bs))"
      by (rule less) (simp add: d)
    ultimately show ?thesis using as p
      by (simp add: d cut_split pending_def map_filter_simps split: option.splits)
  qed
qed

lemma feed_new_decoder:
  "snd (feed new_decoder (noise @ FEND # data)) = snd (feed idle_decoder data)"
  if "FEND \<notin> set noise"
  using feed_noise [OF that] by (simp add: feed_append feed_Cons feed_byte_FEND Let_def split: prod.splits)

text \<open>A stream of encoded frames after noise, in any chunks.\<close>

lemma decode_stream:
  assumes "list_all wf_frame fs" "mapR encode fs = Inr ws"
    and "FEND \<notin> set noise" "concat chunks = noise @ concat ws"
  shows "snd (run_machine feed new_decoder chunks) = fs"
proof (cases fs)
  case Nil
  then show ?thesis using assms feed_noise [of noise] by (simp add: feed_chunks)
next
  case (Cons f fs')
  obtain v vs where ws: "ws = v # vs" and v: "encode f = Inr v" and vs: "mapR encode fs' = Inr vs"
    using assms(2) Cons by auto
  have "feed new_decoder v = (idle_decoder, [f])"
    using feed_encoded [OF _ v, of new_decoder] assms(1) Cons by simp
  then show ?thesis
    using assms Cons ws vs feed_noise [of noise] feed_encoded_stream [of fs' vs]
    by (simp add: feed_chunks feed_append)
qed

section \<open>Properties\<close>

text \<open>
  Property (C24): frames written by \<open>encode\<close>, after any noise that holds no delimiter, come out of a
  fresh decoder unchanged and in order, however the serial reads split the stream into chunks.
\<close>

theorem kiss_stream_roundtrip:
  assumes "list_all wf_frame fs" "mapR encode fs = Inr ws"
    and "FEND \<notin> set noise" "concat chunks = noise @ concat ws"
  shows "snd (run_machine feed new_decoder chunks) = fs"
  by (rule decode_stream [OF assms])

definition example_frames :: "kiss_frame list" where
  "example_frames = [\<lparr>fr_port = 0, fr_command = 0, fr_data = [0xC0, 1, 0xDB]\<rparr>,
     \<lparr>fr_port = 10, fr_command = 6, fr_data = []\<rparr>]"

lemma kiss_stream_witness:
  "snd (run_machine feed new_decoder
     [[9, 0xC0, 0], [0xDB], [0xDC, 1, 0xDB, 0xDD], [], [0xC0, 0xC0, 0xA6, 0xC0]]) = example_frames"
  by (rule kiss_stream_roundtrip [where noise = "[9]" and
        ws = "[[0xC0, 0, 0xDB, 0xDC, 1, 0xDB, 0xDD, 0xC0], [0xC0, 0xA6, 0xC0]]"])
    (simp_all add: example_frames_def wf_frame_def encode_def type_byte_in_range kiss_commands
      kiss_bytes byte_of_def)

text \<open>
  The decoder resynchronises. Whatever bytes it was fed before, the next encoded
  frame is returned (after at most one frame made of the garbage), and the decoder is idle.
\<close>

lemma kiss_resynchronises:
  assumes "wf_frame f" "encode f = Inr w"
  shows "\<exists>stale. feed (fst (feed new_decoder garbage)) w = (idle_decoder, stale @ [f]) \<and> length stale \<le> 1"
proof (intro exI conjI)
  show "feed (fst (feed new_decoder garbage)) w =
      (idle_decoder, pending (fst (feed new_decoder garbage)) @ [f])"
    by (rule feed_encoded [OF assms])
  show "length (pending (fst (feed new_decoder garbage))) \<le> 1"
    by (simp add: pending_def split: option.splits)
qed

lemma kiss_resynchronises_witness:
  "\<exists>stale. feed (fst (feed new_decoder [0xC0, 1, 2, 0xDB])) [0xC0, 0, 5, 0xC0] =
     (idle_decoder, stale @ [\<lparr>fr_port = 0, fr_command = 0, fr_data = [5]\<rparr>]) \<and> length stale \<le> 1"
  by (rule kiss_resynchronises)
    (simp_all add: wf_frame_def encode_def type_byte_in_range kiss_commands kiss_bytes byte_of_def)

text \<open>
  Property (C25): the state machine computes the reference meaning of a KISS stream: on every byte
  string, \<open>feed\<close> on a fresh decoder returns exactly what cutting at the delimiters, unescaping and
  reading the pieces gives.
\<close>

theorem feed_refines_deframe: "snd (feed new_decoder data) = deframe data"
proof (cases "FEND \<in> set data")
  case False
  then show ?thesis using feed_noise [of data] by (simp add: deframe_def cut_no_delim map_filter_simps)
next
  case True
  then obtain as bs where d: "data = as @ FEND # bs" and as: "FEND \<notin> set as"
    by (meson split_list_first)
  then show ?thesis
    using feed_new_decoder [OF as, of bs] by (simp add: feed_idle_deframe deframe_def cut_split)
qed

text \<open>
  \<open>encode\<close> escapes the data but not the type byte. A frame of port 12 and command 0
  is accepted, its type byte \<open>0xC0\<close> reads as a delimiter, and the frame never comes out of the
  decoder.
\<close>

lemma kiss_type_byte_not_escaped:
  "\<exists>w. encode \<lparr>fr_port = 12, fr_command = 0, fr_data = data\<rparr> = Inr w \<and>
     \<lparr>fr_port = 12, fr_command = 0, fr_data = data\<rparr> \<notin> set (snd (feed new_decoder w))"
proof -
  let ?f = "\<lparr>fr_port = 12, fr_command = 0, fr_data = data\<rparr>"
  let ?w = "FEND # FEND # escape data @ [FEND]" and ?d = "idle_decoder\<lparr>d_buf := data\<rparr>"
  have enc: "encode ?f = Inr ?w"
    by (simp add: encode_def type_byte_in_range byte_of_def kiss_bytes)
  have "feed idle_decoder (escape data @ [FEND]) = (idle_decoder, pending ?d)"
    unfolding feed_append feed_escape [of idle_decoder, simplified idle_decoder_def, simplified]
    by (simp add: feed_Cons feed_byte_FEND feed_escape idle_decoder_def)
  then have out: "snd (feed new_decoder ?w) = pending ?d"
    by (simp add: feed_Cons feed_byte_FEND)
  have "fr_data f \<noteq> data" if "build_frame data = Some f" for f
    using that by (cases data) (auto simp: build_frame_def split: if_splits)
  moreover have "set (pending ?d) = {f. build_frame data = Some f}"
    by (auto simp: pending_def idle_decoder_def split: option.splits)
  ultimately have "?f \<notin> set (pending ?d)" by force
  with enc out show ?thesis by metis
qed

end
