(* ===== verification/Crypto.thy ===== *)
theory Crypto
  imports PyBytes
begin

unbundle bit_operations_syntax

text \<open>
  The cryptographic helpers (\<open>softmesh_stack/crypto.py\<close>). The primitives come from the packages
  \<open>cryptography\<close> and \<open>pynacl\<close>: they are the fields of a record that every definition using
  them takes as an argument, \<open>None\<close> where the package raises. What is documented of them and relied
  on is \<open>crypto_laws\<close>. The checks, the padding, the MAC truncation and the layout are the code's.
\<close>

section \<open>The packages\<close>

record crypto_lib =
  lib_ed25519_pub :: "bytes \<Rightarrow> bytes"                           \<comment> \<open>public key of a seed\<close>
  lib_ed25519_sign :: "bytes \<Rightarrow> bytes \<Rightarrow> bytes"
  lib_ed25519_verify :: "bytes \<Rightarrow> bytes \<Rightarrow> bytes \<Rightarrow> bool"            \<comment> \<open>key, signature, message\<close>
  lib_sk_to_curve25519 :: "bytes \<Rightarrow> bytes"                      \<comment> \<open>of the key pair of a seed\<close>
  lib_pk_to_curve25519 :: "bytes \<Rightarrow> bytes option"
  lib_scalarmult :: "bytes \<Rightarrow> bytes \<Rightarrow> bytes option"
  lib_aes_ecb_encrypt :: "bytes \<Rightarrow> bytes \<Rightarrow> bytes"
  lib_aes_ecb_decrypt :: "bytes \<Rightarrow> bytes \<Rightarrow> bytes"
  lib_hmac_sha256 :: "bytes \<Rightarrow> bytes \<Rightarrow> bytes"
  lib_sha256 :: "bytes \<Rightarrow> bytes"

definition PUB_KEY_SIZE :: nat where "PUB_KEY_SIZE = 32"
definition SEED_SIZE :: nat where "SEED_SIZE = 32"
definition SIGNATURE_SIZE :: nat where "SIGNATURE_SIZE = 64"
definition CIPHER_KEY_SIZE :: nat where "CIPHER_KEY_SIZE = 16"
definition CIPHER_BLOCK_SIZE :: nat where "CIPHER_BLOCK_SIZE = 16"
definition CIPHER_MAC_SIZE :: nat where "CIPHER_MAC_SIZE = 2"
definition PATH_HASH_SIZE :: nat where "PATH_HASH_SIZE = 1"

lemmas crypto_consts = PUB_KEY_SIZE_def SEED_SIZE_def SIGNATURE_SIZE_def CIPHER_KEY_SIZE_def
  CIPHER_BLOCK_SIZE_def CIPHER_MAC_SIZE_def PATH_HASH_SIZE_def

text \<open>
  Documented behaviour of the packages: AES decryption inverts encryption under the same 16-byte key
  on whole blocks and keeps the length; SHA-256 and HMAC-SHA256 give 32 bytes; keys have 32 and
  signatures 64 bytes, and a signature made with a seed verifies under its public key.
\<close>

definition crypto_laws :: "crypto_lib \<Rightarrow> bool" where
  "crypto_laws C \<longleftrightarrow>
     (\<forall>k m. length k = 16 \<longrightarrow> length m mod 16 = 0 \<longrightarrow>
        lib_aes_ecb_decrypt C k (lib_aes_ecb_encrypt C k m) = m \<and>
        length (lib_aes_ecb_encrypt C k m) = length m) \<and>
     (\<forall>k m. length (lib_hmac_sha256 C k m) = 32) \<and>
     (\<forall>m. length (lib_sha256 C m) = 32) \<and>
     (\<forall>s. length s = 32 \<longrightarrow> length (lib_ed25519_pub C s) = 32) \<and>
     (\<forall>s m. length s = 32 \<longrightarrow> length (lib_ed25519_sign C s m) = 64 \<and>
        lib_ed25519_verify C (lib_ed25519_pub C s) (lib_ed25519_sign C s m) m)"

text \<open>
  Diffie-Hellman: two parties compute the same 32-byte secret from the other's public key.
\<close>

definition dh_law :: "crypto_lib \<Rightarrow> bytes \<Rightarrow> bytes \<Rightarrow> bytes \<Rightarrow> bool" where
  "dh_law C a b s \<longleftrightarrow> length s = 32 \<and>
     (\<exists>pa pb. lib_pk_to_curve25519 C (lib_ed25519_pub C a) = Some pa \<and>
              lib_pk_to_curve25519 C (lib_ed25519_pub C b) = Some pb \<and>
              lib_scalarmult C (lib_sk_to_curve25519 C a) pb = Some s \<and>
              lib_scalarmult C (lib_sk_to_curve25519 C b) pa = Some s)"

text \<open>X25519 gives 32 bytes, whatever the keys.\<close>

definition x25519_law :: "crypto_lib \<Rightarrow> bool" where
  "x25519_law C \<longleftrightarrow> (\<forall>a b s. lib_scalarmult C a b = Some s \<longrightarrow> length s = 32)"

section \<open>Keys and hashes\<close>

definition lib_result :: "'a option \<Rightarrow> 'a res" where
  "lib_result r = (case r of None \<Rightarrow> Inl LibraryError | Some x \<Rightarrow> Inr x)"

text \<open>\<open>generate_keypair\<close>, on the seed the package draws.\<close>

definition generate_keypair :: "crypto_lib \<Rightarrow> bytes \<Rightarrow> bytes \<times> bytes" where
  "generate_keypair C random_seed = (random_seed, lib_ed25519_pub C random_seed)"

definition derive_pub_key :: "crypto_lib \<Rightarrow> bytes \<Rightarrow> bytes res" where
  "derive_pub_key C seed =
     (if length seed \<noteq> SEED_SIZE then Inl ValueError else Inr (lib_ed25519_pub C seed))"

definition sign :: "crypto_lib \<Rightarrow> bytes \<Rightarrow> bytes \<Rightarrow> bytes res" where
  "sign C seed message =
     (if length seed \<noteq> SEED_SIZE then Inl ValueError else Inr (lib_ed25519_sign C seed message))"

definition verify :: "crypto_lib \<Rightarrow> bytes \<Rightarrow> bytes \<Rightarrow> bytes \<Rightarrow> bool" where
  "verify C pub_key signature message =
     (if length pub_key \<noteq> PUB_KEY_SIZE \<or> length signature \<noteq> SIGNATURE_SIZE then False
      else lib_ed25519_verify C pub_key signature message)"

definition ed25519_seed_to_x25519_priv :: "crypto_lib \<Rightarrow> bytes \<Rightarrow> bytes res" where
  "ed25519_seed_to_x25519_priv C seed =
     (if length seed \<noteq> SEED_SIZE then Inl ValueError else Inr (lib_sk_to_curve25519 C seed))"

definition ed25519_pub_to_x25519_pub :: "crypto_lib \<Rightarrow> bytes \<Rightarrow> bytes res" where
  "ed25519_pub_to_x25519_pub C pub_key =
     (if length pub_key \<noteq> PUB_KEY_SIZE then Inl ValueError
      else lib_result (lib_pk_to_curve25519 C pub_key))"

definition calc_shared_secret :: "crypto_lib \<Rightarrow> bytes \<Rightarrow> bytes \<Rightarrow> bytes res" where
  "calc_shared_secret C seed peer_pub_key =
     bindR (ed25519_seed_to_x25519_priv C seed) (\<lambda>x_priv.
     bindR (ed25519_pub_to_x25519_pub C peer_pub_key) (\<lambda>x_pub.
     lib_result (lib_scalarmult C x_priv x_pub)))"

definition path_hash :: "bytes \<Rightarrow> int res" where
  "path_hash pub_key = (case pub_key of [] \<Rightarrow> Inl ValueError | b # _ \<Rightarrow> Inr (uint b))"

definition sha256 :: "crypto_lib \<Rightarrow> bytes \<Rightarrow> bytes" where
  "sha256 C data = lib_sha256 C data"

definition hmac_sha256 :: "crypto_lib \<Rightarrow> bytes \<Rightarrow> bytes \<Rightarrow> bytes" where
  "hmac_sha256 C key data = lib_hmac_sha256 C key data"

lemma shared_secret_length: "x25519_law C \<Longrightarrow> calc_shared_secret C seed pub = Inr s \<Longrightarrow> length s = 32"
  by (auto simp: calc_shared_secret_def lib_result_def x25519_law_def split: option.splits)

text \<open>Both parties compute the same secret.\<close>

lemma shared_secrets_agree:
  assumes "crypto_laws C" "dh_law C a b s" "length a = 32" "length b = 32"
  shows "calc_shared_secret C a (lib_ed25519_pub C b) = Inr s"
    and "calc_shared_secret C b (lib_ed25519_pub C a) = Inr s"
  using assms by (auto simp: crypto_laws_def dh_law_def calc_shared_secret_def crypto_consts
      ed25519_seed_to_x25519_priv_def ed25519_pub_to_x25519_pub_def lib_result_def)

section \<open>Sealing: AES-128-ECB and a truncated HMAC\<close>

definition aes128_ecb_encrypt :: "crypto_lib \<Rightarrow> bytes \<Rightarrow> bytes \<Rightarrow> bytes res" where
  "aes128_ecb_encrypt C key plaintext =
     (if length key \<noteq> CIPHER_KEY_SIZE then Inl ValueError
      else if length plaintext mod CIPHER_BLOCK_SIZE \<noteq> 0 then Inl ValueError
      else Inr (lib_aes_ecb_encrypt C key plaintext))"

definition aes128_ecb_decrypt :: "crypto_lib \<Rightarrow> bytes \<Rightarrow> bytes \<Rightarrow> bytes res" where
  "aes128_ecb_decrypt C key ciphertext =
     (if length key \<noteq> CIPHER_KEY_SIZE then Inl ValueError
      else if length ciphertext mod CIPHER_BLOCK_SIZE \<noteq> 0 then Inl ValueError
      else Inr (lib_aes_ecb_decrypt C key ciphertext))"

definition padded_len :: "nat \<Rightarrow> nat" where
  "padded_len n = ((n + CIPHER_BLOCK_SIZE - 1) div CIPHER_BLOCK_SIZE) * CIPHER_BLOCK_SIZE"

definition mac_of :: "crypto_lib \<Rightarrow> bytes \<Rightarrow> bytes \<Rightarrow> bytes" where
  "mac_of C shared_secret ciphertext =
     take CIPHER_MAC_SIZE (hmac_sha256 C (take PUB_KEY_SIZE shared_secret) ciphertext)"

definition encrypt_then_mac :: "crypto_lib \<Rightarrow> bytes \<Rightarrow> bytes \<Rightarrow> bytes res" where
  "encrypt_then_mac C shared_secret plaintext =
     (let padded = ljust0 (padded_len (length plaintext)) plaintext in
      if padded_len (length plaintext) = 0 then Inr []
      else
        bindR (aes128_ecb_encrypt C (take CIPHER_KEY_SIZE shared_secret) padded) (\<lambda>ciphertext.
        Inr (mac_of C shared_secret ciphertext @ ciphertext)))"

text \<open>\<open>Inr None\<close> is the \<open>None\<close> the function returns; \<open>Inl\<close> an exception.\<close>

definition mac_then_decrypt :: "crypto_lib \<Rightarrow> bytes \<Rightarrow> bytes \<Rightarrow> bytes option res" where
  "mac_then_decrypt C shared_secret sealed =
     (if length sealed \<le> CIPHER_MAC_SIZE then Inr None
      else
        let mac = take CIPHER_MAC_SIZE sealed; ciphertext = drop CIPHER_MAC_SIZE sealed in
        if length ciphertext mod CIPHER_BLOCK_SIZE \<noteq> 0 then Inr None
        else if mac \<noteq> mac_of C shared_secret ciphertext then Inr None
        else bindR (aes128_ecb_decrypt C (take CIPHER_KEY_SIZE shared_secret) ciphertext)
               (\<lambda>p. Inr (Some p)))"

section \<open>AES-128 in CBC mode\<close>

text \<open>
  \<open>modes.CBC\<close> chains the block cipher, which ECB applies to single blocks: each block is combined with the
  ciphertext block before it, the first with the initialisation vector.
\<close>

function cbc_blocks :: "crypto_lib \<Rightarrow> bytes \<Rightarrow> bytes \<Rightarrow> bytes \<Rightarrow> bytes" where
  "cbc_blocks C key prev p =
     (if p = [] then []
      else let c = lib_aes_ecb_encrypt C key (map2 (XOR) (take 16 p) prev) in c @ cbc_blocks C key c (drop 16 p))"
  by pat_completeness auto
termination
  by (relation "measure (\<lambda>(C, key, prev, p). length p)") auto

function cbc_unblocks :: "crypto_lib \<Rightarrow> bytes \<Rightarrow> bytes \<Rightarrow> bytes \<Rightarrow> bytes" where
  "cbc_unblocks C key prev c =
     (if c = [] then []
      else map2 (XOR) (lib_aes_ecb_decrypt C key (take 16 c)) prev @ cbc_unblocks C key (take 16 c) (drop 16 c))"
  by pat_completeness auto
termination
  by (relation "measure (\<lambda>(C, key, prev, c). length c)") auto

declare cbc_blocks.simps [simp del] cbc_unblocks.simps [simp del]

definition aes128_cbc_encrypt :: "crypto_lib \<Rightarrow> bytes \<Rightarrow> bytes \<Rightarrow> bytes \<Rightarrow> bytes res" where
  "aes128_cbc_encrypt C key iv plaintext =
     (if length key \<noteq> CIPHER_KEY_SIZE then Inl ValueError
      else if length iv \<noteq> CIPHER_BLOCK_SIZE then Inl ValueError
      else if length plaintext mod CIPHER_BLOCK_SIZE \<noteq> 0 then Inl ValueError
      else Inr (cbc_blocks C key iv plaintext))"

definition aes128_cbc_decrypt :: "crypto_lib \<Rightarrow> bytes \<Rightarrow> bytes \<Rightarrow> bytes \<Rightarrow> bytes res" where
  "aes128_cbc_decrypt C key iv ciphertext =
     (if length key \<noteq> CIPHER_KEY_SIZE then Inl ValueError
      else if length iv \<noteq> CIPHER_BLOCK_SIZE then Inl ValueError
      else if length ciphertext mod CIPHER_BLOCK_SIZE \<noteq> 0 then Inl ValueError
      else Inr (cbc_unblocks C key iv ciphertext))"

lemma xor_back: "length xs = length ys \<Longrightarrow> map2 (XOR) (map2 (XOR) xs ys) ys = (xs :: bytes)"
  by (induction xs ys rule: list_induct2) (simp_all add: xor.assoc)

lemma cbc_unblocks_blocks:
  assumes C: "crypto_laws C" "length key = 16" and "length prev = 16" "length p mod 16 = 0"
  shows "cbc_unblocks C key prev (cbc_blocks C key prev p) = p \<and> length (cbc_blocks C key prev p) = length p"
  using assms(3,4)
proof (induction p arbitrary: prev rule: length_induct)
  case (1 p)
  show ?case
  proof (cases "p = []")
    case True
    then show ?thesis by (simp add: cbc_blocks.simps cbc_unblocks.simps)
  next
    case False
    then have "16 \<le> length p" using "1.prems"(2) by (cases "length p < 16") auto
    then have l: "length (take 16 p) = 16" "length (drop 16 p) mod 16 = 0" "length (drop 16 p) < length p"
      using "1.prems"(2) by (simp_all add: le_mod_geq)
    let ?x = "map2 (XOR) (take 16 p) prev"
    define c where "c = lib_aes_ecb_encrypt C key ?x"
    have c: "length c = 16" "lib_aes_ecb_decrypt C key c = ?x" using C l(1) "1.prems"(1)
      by (simp_all add: crypto_laws_def c_def)
    have IH: "cbc_unblocks C key c (cbc_blocks C key c (drop 16 p)) = drop 16 p"
      "length (cbc_blocks C key c (drop 16 p)) = length (drop 16 p)"
      using "1.IH" c(1) l(2,3) by simp_all
    have b: "cbc_blocks C key prev p = c @ cbc_blocks C key c (drop 16 p)"
      using False by (subst cbc_blocks.simps) (simp add: c_def Let_def)
    have "c \<noteq> []" using c(1) by auto
    then have "cbc_unblocks C key prev (c @ rest) = map2 (XOR) ?x prev @ cbc_unblocks C key c rest" for rest
      using c by (subst cbc_unblocks.simps) simp
    then show ?thesis using IH \<open>16 \<le> length p\<close> c(1) xor_back [of "take 16 p" prev] l(1) "1.prems"(1) by (simp add: b)
  qed
qed

text \<open>CBC decryption inverts encryption under the same key and vector.\<close>

lemma aes128_cbc_roundtrip:
  assumes "crypto_laws C" "aes128_cbc_encrypt C key iv p = Inr c"
  shows "aes128_cbc_decrypt C key iv c = Inr p"
  using assms cbc_unblocks_blocks [OF assms(1), of key iv p]
  by (auto simp: aes128_cbc_encrypt_def aes128_cbc_decrypt_def crypto_consts split: if_splits)

section \<open>Facts\<close>

lemma padded_len_facts:
  shows "padded_len n mod 16 = 0" "n \<le> padded_len n" "padded_len n < n + 16"
    and "padded_len n = 0 \<longleftrightarrow> n = 0" "n \<noteq> 0 \<Longrightarrow> 16 \<le> padded_len n"
proof -
  have *: "padded_len n = 16 * ((n + 15) div 16)" by (simp add: padded_len_def crypto_consts)
  show "padded_len n mod 16 = 0" unfolding * by simp
  show "n \<le> padded_len n" "padded_len n < n + 16" unfolding * by linarith+
  show "padded_len n = 0 \<longleftrightarrow> n = 0" unfolding * by auto
  show "n \<noteq> 0 \<Longrightarrow> 16 \<le> padded_len n" unfolding * by simp
qed

definition zero_padded :: "bytes \<Rightarrow> bytes" where
  "zero_padded p = ljust0 (padded_len (length p)) p"

lemma zero_padded_append: "\<exists>n. zero_padded p = p @ replicate n 0 \<and> n < 16"
  using padded_len_facts(2,3) [of "length p"] by (auto simp: zero_padded_def ljust0_def)

lemma length_zero_padded [simp]: "length (zero_padded p) = padded_len (length p)"
  using padded_len_facts(2) [of "length p"] by (simp add: zero_padded_def max_def)

lemma aes_laws:
  assumes "crypto_laws C" "16 \<le> length k"
  shows "lib_aes_ecb_decrypt C (take 16 k) (lib_aes_ecb_encrypt C (take 16 k) (zero_padded p)) = zero_padded p"
    and "length (lib_aes_ecb_encrypt C (take 16 k) (zero_padded p)) = padded_len (length p)"
proof -
  have l: "length (take 16 k) = 16" "length (zero_padded p) mod 16 = 0"
    using assms(2) by (simp_all add: padded_len_facts)
  have *: "\<And>k m. length k = 16 \<Longrightarrow> length m mod 16 = 0 \<Longrightarrow>
      lib_aes_ecb_decrypt C k (lib_aes_ecb_encrypt C k m) = m \<and>
      length (lib_aes_ecb_encrypt C k m) = length m"
    using assms(1) by (simp add: crypto_laws_def)
  show "lib_aes_ecb_decrypt C (take 16 k) (lib_aes_ecb_encrypt C (take 16 k) (zero_padded p)) = zero_padded p"
    "length (lib_aes_ecb_encrypt C (take 16 k) (zero_padded p)) = padded_len (length p)"
    using * [OF l] by simp_all
qed

lemma mac_of_length: "crypto_laws C \<Longrightarrow> length (mac_of C k c) = 2"
  by (simp add: crypto_laws_def mac_of_def hmac_sha256_def crypto_consts)

lemma encrypt_then_mac_eq:
  assumes "16 \<le> length k" "p \<noteq> []"
  shows "encrypt_then_mac C k p =
    (let c = lib_aes_ecb_encrypt C (take 16 k) (zero_padded p) in Inr (mac_of C k c @ c))"
proof -
  have "length (zero_padded p) mod 16 = 0" by (simp add: padded_len_facts)
  then show ?thesis using assms padded_len_facts(4) [of "length p"]
    by (simp add: encrypt_then_mac_def aes128_ecb_encrypt_def crypto_consts Let_def
        flip: zero_padded_def)
qed

lemma encrypt_then_mac_length:
  assumes "crypto_laws C" "16 \<le> length k" "p \<noteq> []" "encrypt_then_mac C k p = Inr s"
  shows "length s = 2 + padded_len (length p)" "18 \<le> length s"
proof -
  show "length s = 2 + padded_len (length p)"
    using assms aes_laws(2) [OF assms(1,2)] by (auto simp: encrypt_then_mac_eq Let_def mac_of_length)
  moreover have "16 \<le> padded_len (length p)"
    using assms(3) by (intro padded_len_facts(5)) simp
  ultimately show "18 \<le> length s" by simp
qed

lemma mac_then_decrypt_sealed:
  assumes "crypto_laws C" "16 \<le> length k" "p \<noteq> []" "encrypt_then_mac C k p = Inr s"
  shows "mac_then_decrypt C k s = Inr (Some (zero_padded p))"
proof -
  let ?c = "lib_aes_ecb_encrypt C (take 16 k) (zero_padded p)"
  have l: "length (take 16 k) = 16" "padded_len (length p) mod 16 = 0"
    using assms(2) by (simp_all add: padded_len_facts)
  note d = aes_laws [OF assms(1,2), of p]
  have s: "s = mac_of C k ?c @ ?c" using assms(2-4) by (simp add: encrypt_then_mac_eq Let_def)
  have "length s = 2 + length ?c" using s mac_of_length [OF assms(1)] by simp
  moreover have "take 2 s = mac_of C k ?c" "drop 2 s = ?c" using s mac_of_length [OF assms(1)] by simp_all
  moreover have "0 < length ?c"
    using padded_len_facts(4) [of "length p"] assms(3) d(2) by simp
  ultimately show ?thesis using l d
    by (simp add: mac_then_decrypt_def aes128_ecb_decrypt_def crypto_consts Let_def)
qed

lemma encrypt_then_mac_total: "16 \<le> length k \<Longrightarrow> \<exists>s. encrypt_then_mac C k p = Inr s"
proof (cases "p = []")
  case True
  then show ?thesis by (simp add: encrypt_then_mac_def padded_len_facts)
qed (simp add: encrypt_then_mac_eq Let_def)

section \<open>The sealed box as an interface\<close>

text \<open>
  What the datagram codecs rely on: under a good key a plaintext that is not empty can be sealed, the
  seal takes at least 18 bytes, and opening it gives the plaintext back with trailing zeros.
\<close>

locale sealed_box =
  fixes good :: "'k \<Rightarrow> bool"
    and seal :: "'k \<Rightarrow> bytes \<Rightarrow> bytes res"
    and unseal :: "'k \<Rightarrow> bytes \<Rightarrow> bytes option res"
  assumes seal_total: "good k \<Longrightarrow> \<exists>s. seal k p = Inr s"
    and seal_length: "good k \<Longrightarrow> p \<noteq> [] \<Longrightarrow> seal k p = Inr s \<Longrightarrow> 18 \<le> length s"
    and unseal_seal: "good k \<Longrightarrow> p \<noteq> [] \<Longrightarrow> seal k p = Inr s \<Longrightarrow>
      \<exists>n. unseal k s = Inr (Some (p @ replicate n 0))"
begin

text \<open>A sealed inner message behind a header in the clear.\<close>

lemma open_datagram:
  assumes "good k" "p \<noteq> []" "seal k p = Inr s"
  obtains n where "length hdr + 18 \<le> length (hdr @ s)"
    "unseal k (drop (length hdr) (hdr @ s)) = Inr (Some (p @ replicate n 0))"
  using seal_length [OF assms] unseal_seal [OF assms] by auto

end

definition good_key :: "crypto_lib \<times> bytes \<Rightarrow> bool" where
  "good_key Ck \<longleftrightarrow> crypto_laws (fst Ck) \<and> 16 \<le> length (snd Ck)"

interpretation aes_box: sealed_box good_key
  "\<lambda>Ck. encrypt_then_mac (fst Ck) (snd Ck)" "\<lambda>Ck. mac_then_decrypt (fst Ck) (snd Ck)"
proof
  fix Ck :: "crypto_lib \<times> bytes" and p s
  assume g: "good_key Ck"
  then have C: "crypto_laws (fst Ck)" "16 \<le> length (snd Ck)" by (simp_all add: good_key_def)
  show "\<exists>s. encrypt_then_mac (fst Ck) (snd Ck) p = Inr s" by (rule encrypt_then_mac_total [OF C(2)])
  assume p: "p \<noteq> []" "encrypt_then_mac (fst Ck) (snd Ck) p = Inr s"
  show "18 \<le> length s" by (rule encrypt_then_mac_length(2) [OF C p])
  show "\<exists>n. mac_then_decrypt (fst Ck) (snd Ck) s = Inr (Some (p @ replicate n 0))"
    using mac_then_decrypt_sealed [OF C p] zero_padded_append [of p] by auto
qed

section \<open>A concrete instance of the packages\<close>

text \<open>
  A small library that satisfies the laws (it is not secure), on which the theorems that assume them
  are evaluated.
\<close>

definition demo_lib :: crypto_lib where
  "demo_lib = \<lparr>
     lib_ed25519_pub = (\<lambda>s. s),
     lib_ed25519_sign = (\<lambda>s m. replicate 64 (sum_list s + sum_list m)),
     lib_ed25519_verify = (\<lambda>p sig m. sig = replicate 64 (sum_list p + sum_list m)),
     lib_sk_to_curve25519 = (\<lambda>s. s),
     lib_pk_to_curve25519 = (\<lambda>p. Some p),
     lib_scalarmult = (\<lambda>a b. if length a = 32 \<and> length b = 32 then Some (map2 (+) a b) else None),
     lib_aes_ecb_encrypt = (\<lambda>k m. map (\<lambda>b. b + 1) m),
     lib_aes_ecb_decrypt = (\<lambda>k m. map (\<lambda>b. b - 1) m),
     lib_hmac_sha256 = (\<lambda>k m. [sum_list k + sum_list m, of_nat (length m)] @ replicate 30 0),
     lib_sha256 = (\<lambda>m. [sum_list m, of_nat (length m)] @ replicate 30 0) \<rparr>"

lemma demo_lib_laws: "crypto_laws demo_lib"
  by (simp add: crypto_laws_def demo_lib_def comp_def)

lemma demo_lib_x25519: "x25519_law demo_lib"
  by (simp add: x25519_law_def demo_lib_def)

lemma demo_lib_dh:
  assumes "length a = 32" "length b = 32"
  shows "dh_law demo_lib a b (map2 (+) a b)"
proof -
  have "map2 (+) b a = map2 (+) a b"
    by (rule nth_equalityI) (use assms in \<open>auto simp: add.commute\<close>)
  then show ?thesis using assms by (simp add: dh_law_def demo_lib_def)
qed

section \<open>Properties\<close>

text \<open>
  Opening what was sealed under the same secret gives the plaintext, zero-padded to
  the next multiple of 16; the seal is two bytes longer than that.
\<close>

lemma mac_then_decrypt_encrypt_then_mac:
  assumes "crypto_laws C" "16 \<le> length k" "p \<noteq> []"
  shows "\<exists>s. encrypt_then_mac C k p = Inr s \<and> mac_then_decrypt C k s = Inr (Some (ljust0 (padded_len (length p)) p)) \<and>
    length s = 2 + padded_len (length p)"
proof -
  obtain s where s: "encrypt_then_mac C k p = Inr s" using encrypt_then_mac_total assms(2) by blast
  then show ?thesis
    using mac_then_decrypt_sealed [OF assms s] encrypt_then_mac_length(1) [OF assms s]
    by (simp add: zero_padded_def)
qed

lemma mac_then_decrypt_encrypt_then_mac_witness:
  "\<exists>s. encrypt_then_mac demo_lib (replicate 32 3) [1, 2, 0] = Inr s \<and>
     mac_then_decrypt demo_lib (replicate 32 3) s = Inr (Some (ljust0 (padded_len (length [1, 2, 0 :: byte])) [1, 2, 0])) \<and>
     length s = 2 + padded_len (length [1, 2, 0 :: byte])"
  by (rule mac_then_decrypt_encrypt_then_mac) (simp_all add: demo_lib_laws)

text \<open>
  With a secret of at least 16 bytes \<open>mac_then_decrypt\<close> never raises, whatever bytes
  arrive, and it returns a plaintext only for a MAC that is the truncated HMAC of a whole number of
  cipher blocks; any other input gives \<open>None\<close>.
\<close>

lemma mac_then_decrypt_rejects:
  assumes "16 \<le> length k"
  shows "mac_then_decrypt C k s =
    (if 2 < length s \<and> (length s - 2) mod 16 = 0 \<and>
        take 2 s = take 2 (hmac_sha256 C (take 32 k) (drop 2 s))
     then Inr (Some (lib_aes_ecb_decrypt C (take 16 k) (drop 2 s))) else Inr None)"
  using assms by (auto simp: mac_then_decrypt_def mac_of_def aes128_ecb_decrypt_def crypto_consts Let_def)

lemma mac_then_decrypt_rejects_witness:
  "mac_then_decrypt demo_lib (replicate 32 3) (replicate 18 7) =
    (if 2 < length (replicate 18 (7 :: byte)) \<and> (length (replicate 18 (7 :: byte)) - 2) mod 16 = 0 \<and>
        take 2 (replicate 18 7) = take 2 (hmac_sha256 demo_lib (take 32 (replicate 32 3)) (drop 2 (replicate 18 7)))
     then Inr (Some (lib_aes_ecb_decrypt demo_lib (take 16 (replicate 32 3)) (drop 2 (replicate 18 7)))) else Inr None)"
  by (rule mac_then_decrypt_rejects) simp

end
