(* ===== verification/Messaging.thy ===== *)
theory Messaging
  imports PyStr Packet Crypto
begin

unbundle bit_operations_syntax

text \<open>
  The datagram codecs (\<open>softmesh_stack/messaging.py\<close>): direct and channel text messages, returned
  paths, requests and acknowledgements. Every decoder returns \<open>Inr None\<close> where the code returns
  \<open>None\<close> and \<open>Inl\<close> where it raises.
\<close>

section \<open>Messages\<close>

definition TXT_MSG_HEADER_SIZE :: nat where "TXT_MSG_HEADER_SIZE = 2 * PATH_HASH_SIZE"
definition GRP_TXT_HEADER_SIZE :: nat where "GRP_TXT_HEADER_SIZE = 2 * PATH_HASH_SIZE"
definition ACK_HASH_SIZE :: nat where "ACK_HASH_SIZE = 4"
definition TIMESTAMP_SIZE :: nat where "TIMESTAMP_SIZE = 4"
definition ATTEMPT_SIZE :: nat where "ATTEMPT_SIZE = 1"
definition TXT_TYPE_PLAIN :: int where "TXT_TYPE_PLAIN = 0"
definition TXT_TYPE_SIGNED_PLAIN :: int where "TXT_TYPE_SIGNED_PLAIN = 2"
definition ATTEMPT_MASK :: int where "ATTEMPT_MASK = 0x03"

lemmas msg_consts = TXT_MSG_HEADER_SIZE_def GRP_TXT_HEADER_SIZE_def ACK_HASH_SIZE_def
  TIMESTAMP_SIZE_def ATTEMPT_SIZE_def TXT_TYPE_PLAIN_def TXT_TYPE_SIGNED_PLAIN_def ATTEMPT_MASK_def
  crypto_consts

record txt_msg =
  tm_dest_hash :: int
  tm_src_hash :: int
  tm_timestamp :: int
  tm_attempt :: int
  tm_text :: ustring
  tm_txt_type :: int

record path_msg =
  pm_dest_hash :: int
  pm_src_hash :: int
  pm_path :: bytes
  pm_hash_size :: int
  pm_extra_type :: int
  pm_extra :: bytes

record req_msg =
  rq_dest_hash :: int
  rq_src_hash :: int
  rq_timestamp :: int
  rq_data :: bytes

record grp_txt_msg =
  gm_channel_hash :: int
  gm_sender_hash :: int
  gm_timestamp :: int
  gm_attempt :: int
  gm_text :: ustring
  gm_txt_type :: int

section \<open>Encoders\<close>

definition encode_flags_byte :: "int \<Rightarrow> int \<Rightarrow> int" where
  "encode_flags_byte attempt txt_type = (attempt AND ATTEMPT_MASK) OR push_bit 2 txt_type"

text \<open>The part of the plaintext that is hashed: timestamp, flags and text.\<close>

definition plaintext_through_text :: "int \<Rightarrow> int \<Rightarrow> ustring \<Rightarrow> int \<Rightarrow> bytes res" where
  "plaintext_through_text timestamp attempt text txt_type =
     bindR (to_bytes_le TIMESTAMP_SIZE timestamp) (\<lambda>ts.
     bindR (byte_of (encode_flags_byte attempt txt_type)) (\<lambda>fl.
     bindR (utf8_encode text) (\<lambda>tx. Inr (ts @ [fl] @ tx))))"

definition compose_plaintext :: "int \<Rightarrow> int \<Rightarrow> ustring \<Rightarrow> int \<Rightarrow> bytes res" where
  "compose_plaintext timestamp attempt text txt_type =
     bindR (plaintext_through_text timestamp attempt text txt_type) (\<lambda>p. Inr (p @ [0]))"

definition ack_hash_for :: "crypto_lib \<Rightarrow> int \<Rightarrow> int \<Rightarrow> ustring \<Rightarrow> bytes \<Rightarrow> int \<Rightarrow> bytes res" where
  "ack_hash_for C timestamp attempt text sender_pub_key txt_type =
     bindR (plaintext_through_text timestamp attempt text txt_type) (\<lambda>msg.
     Inr (take ACK_HASH_SIZE (sha256 C (msg @ sender_pub_key))))"

text \<open>The method \<open>TxtMsg.ack_hash\<close>.\<close>

definition txt_ack_hash :: "crypto_lib \<Rightarrow> txt_msg \<Rightarrow> bytes \<Rightarrow> bytes res" where
  "txt_ack_hash C m sender_pub_key =
     ack_hash_for C (tm_timestamp m) (tm_attempt m) (tm_text m) sender_pub_key (tm_txt_type m)"

definition channel_key_from_secret :: "crypto_lib \<Rightarrow> ustring \<Rightarrow> bytes res" where
  "channel_key_from_secret C secret = bindR (utf8_encode secret) (\<lambda>p. Inr (sha256 C p))"

text \<open>\<open>bytes([dest_hash & 0xFF, src_hash & 0xFF]) + sealed\<close>.\<close>

definition hash_header :: "int \<Rightarrow> int \<Rightarrow> bytes" where
  "hash_header dest_hash src_hash = [word_of_int (dest_hash AND 0xFF), word_of_int (src_hash AND 0xFF)]"

definition build_txt_msg_payload ::
    "crypto_lib \<Rightarrow> bytes \<Rightarrow> int \<Rightarrow> int \<Rightarrow> int \<Rightarrow> int \<Rightarrow> ustring \<Rightarrow> bytes res" where
  "build_txt_msg_payload C shared_secret dest_hash src_hash timestamp attempt text =
     bindR (compose_plaintext timestamp attempt text TXT_TYPE_PLAIN) (\<lambda>plaintext.
     bindR (encrypt_then_mac C shared_secret plaintext) (\<lambda>sealed.
     Inr (hash_header dest_hash src_hash @ sealed)))"

text \<open>
  \<open>build_path_plaintext\<close>; \<open>urandom4\<close> is what \<open>os.urandom(4)\<close> returns when no \<open>extra\<close> is given.
\<close>

definition build_path_plaintext ::
    "bytes \<Rightarrow> bytes \<Rightarrow> int \<Rightarrow> int \<Rightarrow> bytes option \<Rightarrow> bytes res" where
  "build_path_plaintext urandom4 path hash_size extra_type extra =
     (let ex = (case extra of None \<Rightarrow> urandom4 | Some e \<Rightarrow> e) in
      if hash_size = 0 then Inl ZeroDivisionError
      else if int (length path) mod hash_size \<noteq> 0 then Inl ValueError
      else
        bindR (encode_path_len (int (length path) div hash_size) hash_size) (\<lambda>l.
        bindR (byte_of l) (\<lambda>pl.
        Inr (pl # path @ [word_of_int (extra_type AND 0xFF)] @ ex))))"

definition build_path_payload ::
    "crypto_lib \<Rightarrow> bytes \<Rightarrow> bytes \<Rightarrow> int \<Rightarrow> int \<Rightarrow> bytes \<Rightarrow> int \<Rightarrow> int \<Rightarrow> bytes option \<Rightarrow> bytes res" where
  "build_path_payload C urandom4 shared_secret dest_hash src_hash path hash_size extra_type extra =
     bindR (build_path_plaintext urandom4 path hash_size extra_type extra) (\<lambda>plaintext.
     bindR (encrypt_then_mac C shared_secret plaintext) (\<lambda>sealed.
     Inr (hash_header dest_hash src_hash @ sealed)))"

section \<open>Decoders\<close>

definition too_short :: "nat \<Rightarrow> bytes \<Rightarrow> bool" where
  "too_short header payload \<longleftrightarrow> length payload < header + CIPHER_MAC_SIZE + CIPHER_BLOCK_SIZE"

text \<open>The flags byte and text of a decrypted message: attempt, type and text up to the first NUL.\<close>

definition attempt_of :: "byte \<Rightarrow> int" where
  "attempt_of flags = uint flags AND ATTEMPT_MASK"

definition txt_type_of :: "byte \<Rightarrow> int" where
  "txt_type_of flags = drop_bit 2 (uint flags)"

definition try_decrypt_txt_msg :: "crypto_lib \<Rightarrow> bytes \<Rightarrow> bytes \<Rightarrow> txt_msg option res" where
  "try_decrypt_txt_msg C payload shared_secret =
     (if too_short TXT_MSG_HEADER_SIZE payload then Inr None
      else
        bindR (mac_then_decrypt C shared_secret (drop TXT_MSG_HEADER_SIZE payload)) (\<lambda>r.
        case r of
          None \<Rightarrow> Inr None
        | Some plaintext \<Rightarrow>
            if length plaintext < TIMESTAMP_SIZE + ATTEMPT_SIZE + 1 then Inr None
            else Inr (Some \<lparr>
              tm_dest_hash = uint (payload ! 0), tm_src_hash = uint (payload ! 1),
              tm_timestamp = from_bytes_le (take TIMESTAMP_SIZE plaintext),
              tm_attempt = attempt_of (plaintext ! TIMESTAMP_SIZE),
              tm_text = utf8_decode (before_nul (drop (TIMESTAMP_SIZE + ATTEMPT_SIZE) plaintext)),
              tm_txt_type = txt_type_of (plaintext ! TIMESTAMP_SIZE) \<rparr>)))"

definition try_decode_grp_txt :: "crypto_lib \<Rightarrow> bytes \<Rightarrow> bytes \<Rightarrow> grp_txt_msg option res" where
  "try_decode_grp_txt C payload channel_key =
     (if too_short GRP_TXT_HEADER_SIZE payload then Inr None
      else
        bindR (mac_then_decrypt C channel_key (drop GRP_TXT_HEADER_SIZE payload)) (\<lambda>r.
        case r of
          None \<Rightarrow> Inr None
        | Some plaintext \<Rightarrow>
            if length plaintext < TIMESTAMP_SIZE + ATTEMPT_SIZE + 1 then Inr None
            else Inr (Some \<lparr>
              gm_channel_hash = uint (payload ! 0), gm_sender_hash = uint (payload ! 1),
              gm_timestamp = from_bytes_le (take TIMESTAMP_SIZE plaintext),
              gm_attempt = attempt_of (plaintext ! TIMESTAMP_SIZE),
              gm_text = utf8_decode (before_nul (drop (TIMESTAMP_SIZE + ATTEMPT_SIZE) plaintext)),
              gm_txt_type = txt_type_of (plaintext ! TIMESTAMP_SIZE) \<rparr>)))"

definition try_decrypt_path_msg :: "crypto_lib \<Rightarrow> bytes \<Rightarrow> bytes \<Rightarrow> path_msg option res" where
  "try_decrypt_path_msg C payload shared_secret =
     (if too_short TXT_MSG_HEADER_SIZE payload then Inr None
      else
        bindR (mac_then_decrypt C shared_secret (drop TXT_MSG_HEADER_SIZE payload)) (\<lambda>r.
        case r of
          None \<Rightarrow> Inr None
        | Some plaintext \<Rightarrow>
            if length plaintext < 2 then Inr None
            else
              let (hash_count, hash_size) = decode_path_len (uint (plaintext ! 0));
                  path_len = nat (hash_count * hash_size) in
              if length plaintext < 1 + path_len + 1 then Inr None
              else
                let path = py_slice 1 (1 + path_len) plaintext;
                    extra_type = uint (plaintext ! (1 + path_len)) AND 0x0F;
                    extra = drop (2 + path_len) plaintext in
                Inr (Some \<lparr>
                  pm_dest_hash = uint (payload ! 0), pm_src_hash = uint (payload ! 1),
                  pm_path = path, pm_hash_size = hash_size, pm_extra_type = extra_type,
                  pm_extra = (if extra_type = payload_val ACK \<and> ACK_HASH_SIZE \<le> length extra
                              then take ACK_HASH_SIZE extra else rstrip0 extra) \<rparr>)))"

definition try_decrypt_req_msg :: "crypto_lib \<Rightarrow> bytes \<Rightarrow> bytes \<Rightarrow> req_msg option res" where
  "try_decrypt_req_msg C payload shared_secret =
     (if too_short TXT_MSG_HEADER_SIZE payload then Inr None
      else
        bindR (mac_then_decrypt C shared_secret (drop TXT_MSG_HEADER_SIZE payload)) (\<lambda>r.
        case r of
          None \<Rightarrow> Inr None
        | Some plaintext \<Rightarrow>
            if length plaintext < TIMESTAMP_SIZE + 1 then Inr None
            else Inr (Some \<lparr>
              rq_dest_hash = uint (payload ! 0), rq_src_hash = uint (payload ! 1),
              rq_timestamp = from_bytes_le (take TIMESTAMP_SIZE plaintext),
              rq_data = rstrip0 (drop TIMESTAMP_SIZE plaintext) \<rparr>)))"

section \<open>Packets\<close>

definition make_packet :: "route_type \<Rightarrow> payload_type \<Rightarrow> bytes \<Rightarrow> bytes \<Rightarrow> int \<Rightarrow> packet" where
  "make_packet route_type payload_type path payload hash_size =
     \<lparr> pkt_route = route_type, pkt_type = payload_type, pkt_ver = V1, pkt_codes = None,
       pkt_path = path, pkt_payload = payload, pkt_hash_size = hash_size \<rparr>"

definition build_txt_msg_packet ::
    "crypto_lib \<Rightarrow> bytes \<Rightarrow> bytes \<Rightarrow> bytes \<Rightarrow> int \<Rightarrow> ustring \<Rightarrow> int \<Rightarrow> route_type \<Rightarrow> bytes \<Rightarrow> int \<Rightarrow> packet res" where
  "build_txt_msg_packet C shared_secret dest_pub_key src_pub_key timestamp text attempt route_type path hash_size =
     bindR (path_hash dest_pub_key) (\<lambda>dest_hash.
     bindR (path_hash src_pub_key) (\<lambda>src_hash.
     bindR (build_txt_msg_payload C shared_secret dest_hash src_hash timestamp attempt text) (\<lambda>payload.
     Inr (make_packet route_type TXT_MSG path payload hash_size))))"

definition build_path_packet ::
    "crypto_lib \<Rightarrow> bytes \<Rightarrow> bytes \<Rightarrow> int \<Rightarrow> bytes \<Rightarrow> bytes \<Rightarrow> int \<Rightarrow> int \<Rightarrow> bytes option
       \<Rightarrow> route_type \<Rightarrow> bytes \<Rightarrow> int \<Rightarrow> packet res" where
  "build_path_packet C urandom4 shared_secret dest_hash src_pub_key path_payload path_hash_size
       extra_type extra route_type route_path route_hash_size =
     bindR (path_hash src_pub_key) (\<lambda>src_hash.
     bindR (build_path_payload C urandom4 shared_secret dest_hash src_hash path_payload
              path_hash_size extra_type extra) (\<lambda>payload.
     Inr (make_packet route_type PATH route_path payload route_hash_size)))"

definition build_ack_packet :: "bytes \<Rightarrow> route_type \<Rightarrow> packet res" where
  "build_ack_packet ack_hash route_type =
     (if length ack_hash \<noteq> ACK_HASH_SIZE then Inl ValueError
      else Inr (make_packet route_type ACK [] ack_hash 1))"

definition parse_ack_payload :: "bytes \<Rightarrow> bytes option" where
  "parse_ack_payload payload =
     (if length payload < ACK_HASH_SIZE then None else Some (take ACK_HASH_SIZE payload))"

text \<open>\<open>reverse_path\<close>: the hash-sized entries in reverse order.\<close>

definition reverse_path :: "bytes \<Rightarrow> int \<Rightarrow> bytes res" where
  "reverse_path path hash_size =
     (if path = [] then Inr []
      else if \<not> (1 \<le> hash_size \<and> hash_size \<le> 4) then Inl ValueError
      else if int (length path) mod hash_size \<noteq> 0 then Inl ValueError
      else Inr (concat (rev (entries (nat hash_size) path))))"

section \<open>Facts on the codecs\<close>

lemma encode_flags_byte_eq: "encode_flags_byte attempt txt_type = attempt mod 4 + 4 * txt_type"
proof -
  have "0 \<le> attempt mod 4" "attempt mod 4 < 4" by simp_all
  then show ?thesis unfolding encode_flags_byte_def msg_consts and_3 push_bits by (rule or_4)
qed

lemma encode_flags_byte_mod [simp]: "encode_flags_byte (attempt mod 4) t = encode_flags_byte attempt t"
  by (simp add: encode_flags_byte_eq)

lemma flags_byte_fields:
  assumes "byte_of (encode_flags_byte attempt txt_type) = Inr fl"
  shows "attempt_of fl = attempt mod 4" "txt_type_of fl = txt_type"
proof -
  have u: "uint fl = attempt mod 4 + 4 * txt_type"
    using uint_byte_of [OF assms] by (simp add: encode_flags_byte_eq)
  show "attempt_of fl = attempt mod 4" unfolding attempt_of_def u msg_consts and_3 by simp
  show "txt_type_of fl = txt_type" unfolding txt_type_of_def u drop_bits by simp
qed

lemma byte_of_flags_byte: "0 \<le> t \<Longrightarrow> t < 64 \<Longrightarrow> \<exists>fl. byte_of (encode_flags_byte attempt t) = Inr fl"
  using pos_mod_bound [of 4 attempt] unfolding encode_flags_byte_eq byte_of_def by auto

lemma plaintext_through_text_Inr:
  assumes "plaintext_through_text ts attempt body txt_type = Inr p"
  obtains tb fl tx where "p = tb @ [fl] @ tx" "to_bytes_le 4 ts = Inr tb" "length tb = 4"
    "byte_of (encode_flags_byte attempt txt_type) = Inr fl" "utf8_encode body = Inr tx"
  using assms to_bytes_le_length [of 4 ts] by (auto simp: plaintext_through_text_def msg_consts)

lemma plaintext_through_text_total:
  "0 \<le> ts \<Longrightarrow> ts < 2 ^ 32 \<Longrightarrow> 0 \<le> t \<Longrightarrow> t < 64 \<Longrightarrow> encodable body \<Longrightarrow>
    \<exists>p. plaintext_through_text ts attempt body t = Inr p"
  using byte_of_flags_byte [of t attempt] utf8_encode_Inr [of body]
  by (auto simp: plaintext_through_text_def msg_consts to_bytes_le_def)

lemma hash_header_bytes [simp]:
  "length (hash_header d s) = 2" "uint (hash_header d s ! 0) = d mod 256"
  "uint (hash_header d s ! Suc 0) = s mod 256"
  by (simp_all add: hash_header_def bits uint_of_int_byte)

text \<open>A sealed datagram behind the two hash bytes opens to its inner message and zeros.\<close>

lemma open_hash_datagram:
  assumes "crypto_laws C" "16 \<le> length k" "p \<noteq> []" "encrypt_then_mac C k p = Inr s"
  obtains n where "\<not> too_short 2 (hash_header d r @ s)"
    "mac_then_decrypt C k s = Inr (Some (p @ replicate n 0))"
proof -
  have "good_key (C, k)" using assms(1,2) by (simp add: good_key_def)
  then obtain n where "2 + 18 \<le> length (hash_header d r @ s)"
    "mac_then_decrypt C k s = Inr (Some (p @ replicate n 0))"
    using aes_box.open_datagram [of "(C, k)" p s "hash_header d r"] assms(3,4) by auto
  then show thesis by (intro that) (simp_all add: too_short_def msg_consts)
qed

lemma header_nth [simp]: "(hash_header d r @ s) ! 0 = hash_header d r ! 0"
  "(hash_header d r @ s) ! Suc 0 = hash_header d r ! Suc 0"
  by (simp_all add: hash_header_def)

text \<open>Any composed body, NUL characters included, is read back up to its first NUL byte.\<close>

lemma try_decrypt_built_txt_msg:
  assumes C: "crypto_laws C" "16 \<le> length k"
    and built: "build_txt_msg_payload C k dest src ts attempt body = Inr payload"
    and enc: "utf8_encode body = Inr tx"
  shows "try_decrypt_txt_msg C payload k = Inr (Some \<lparr> tm_dest_hash = dest mod 256,
    tm_src_hash = src mod 256, tm_timestamp = ts, tm_attempt = attempt mod 4,
    tm_text = utf8_decode (before_nul tx), tm_txt_type = TXT_TYPE_PLAIN \<rparr>)"
proof -
  obtain p s where p: "plaintext_through_text ts attempt body TXT_TYPE_PLAIN = Inr p"
    and s: "encrypt_then_mac C k (p @ [0]) = Inr s" and payload: "payload = hash_header dest src @ s"
    using built by (auto simp: build_txt_msg_payload_def compose_plaintext_def)
  obtain tb fl where p_eq: "p = tb @ [fl] @ tx" and tb: "to_bytes_le 4 ts = Inr tb" "length tb = 4"
    and fl: "byte_of (encode_flags_byte attempt TXT_TYPE_PLAIN) = Inr fl"
    using p enc by (auto elim!: plaintext_through_text_Inr)
  obtain n where short: "\<not> too_short 2 payload"
    and opened: "mac_then_decrypt C k s = Inr (Some ((p @ [0]) @ replicate n 0))"
    using open_hash_datagram [OF C _ s, of dest src] payload by auto
  have "take 4 ((p @ [0]) @ replicate n 0) = tb" "((p @ [0]) @ replicate n 0) ! 4 = fl"
    "before_nul (drop 5 ((p @ [0]) @ replicate n 0)) = before_nul tx"
    "\<not> length ((p @ [0]) @ replicate n 0) < 6"
    using tb(2) by (simp_all add: p_eq nth_append before_nul_first)
  then show ?thesis
    using short opened payload from_to_bytes_le [OF tb(1)] flags_byte_fields [OF fl]
    by (simp add: try_decrypt_txt_msg_def msg_consts)
qed

lemma build_txt_msg_payload_total:
  assumes "16 \<le> length k" "0 \<le> ts" "ts < 2 ^ 32" "encodable body"
  shows "\<exists>payload. build_txt_msg_payload C k dest src ts attempt body = Inr payload"
proof -
  obtain p where "plaintext_through_text ts attempt body TXT_TYPE_PLAIN = Inr p"
    using plaintext_through_text_total [OF assms(2,3) _ _ assms(4), of 0 attempt]
    by (auto simp: msg_consts)
  then show ?thesis using encrypt_then_mac_total [OF assms(1), of C "p @ [0]"]
    by (auto simp: build_txt_msg_payload_def compose_plaintext_def)
qed

lemma mac_then_decrypt_total: "16 \<le> length k \<Longrightarrow> \<exists>r. mac_then_decrypt C k s = Inr r"
  by (auto simp: mac_then_decrypt_def aes128_ecb_decrypt_def crypto_consts Let_def)

text \<open>What a decrypted message holds can be encoded again.\<close>

lemma txt_type_bounds: "0 \<le> txt_type_of b \<and> txt_type_of b < 64"
proof -
  have "drop_bit 2 (uint b) = uint b div 4" by (simp add: drop_bit_eq_div)
  moreover have "0 \<le> uint b" "uint b < 256" by simp_all
  ultimately show ?thesis unfolding txt_type_of_def by linarith
qed

lemma try_decrypt_txt_msg_ok:
  assumes "try_decrypt_txt_msg C payload k = Inr (Some m)"
  shows "0 \<le> tm_timestamp m \<and> tm_timestamp m < 2 ^ 32 \<and> encodable (tm_text m) \<and>
    0 \<le> tm_txt_type m \<and> tm_txt_type m < 64"
proof -
  obtain p where "tm_timestamp m = from_bytes_le (take 4 p)" "6 \<le> length p" "encodable (tm_text m)"
    "tm_txt_type m = txt_type_of (p ! TIMESTAMP_SIZE)"
    using assms encodable_decoded
    by (auto simp: try_decrypt_txt_msg_def msg_consts not_less split: if_splits option.splits)
  then show ?thesis using from_bytes_le_bounds [of "take 4 p"] txt_type_bounds by simp
qed

text \<open>Returned paths.\<close>

lemma build_path_plaintext_Inr:
  assumes "build_path_plaintext rnd path hs et extra = Inr p"
  obtains pl where "path_ok hs path" "decode_path_len (uint pl) = (int (length path) div hs, hs)"
    "p = pl # path @ [word_of_int (et mod 256)] @ (case extra of None \<Rightarrow> rnd | Some e \<Rightarrow> e)"
proof -
  obtain l pl where hs: "hs \<noteq> 0" "int (length path) mod hs = 0"
    and l: "encode_path_len (int (length path) div hs) hs = Inr l" and pl: "byte_of l = Inr pl"
    and p: "p = pl # path @ [word_of_int (et mod 256)] @ (case extra of None \<Rightarrow> rnd | Some e \<Rightarrow> e)"
    using assms by (auto simp: build_path_plaintext_def bits Let_def split: if_splits)
  have "path_ok hs path" using hs l by (auto simp: path_ok_def encode_path_len_Inr_iff)
  moreover have "decode_path_len (uint pl) = (int (length path) div hs, hs)"
    using decode_encode_path_len(1) [OF l] uint_byte_of [OF pl] by simp
  ultimately show thesis using p by (rule that)
qed

lemma build_path_plaintext_total:
  assumes "path_ok hs path"
  shows "\<exists>p. build_path_plaintext rnd path hs et extra = Inr p"
proof -
  have hs: "1 \<le> hs" "hs \<le> 4" "int (length path) mod hs = 0" "int (length path) div hs \<le> 63"
    using assms by (auto simp: path_ok_def)
  then have n: "0 \<le> int (length path) div hs" by (simp add: pos_imp_zdiv_nonneg_iff)
  obtain l where l: "encode_path_len (int (length path) div hs) hs = Inr l"
    using hs n by (auto simp: encode_path_len_Inr_iff)
  have "0 \<le> l \<and> l < 256" using decode_encode_path_len(2,3) [OF l] by simp
  then show ?thesis using hs l by (simp add: build_path_plaintext_def byte_of_def Let_def)
qed

lemma try_decrypt_built_path_msg:
  assumes C: "crypto_laws C" "16 \<le> length k"
    and built: "build_path_payload C rnd k dest src path hs et (Some ex) = Inr payload"
    and ack: "et mod 16 = payload_val ACK \<Longrightarrow> 4 \<le> length ex"
  shows "try_decrypt_path_msg C payload k = Inr (Some \<lparr> pm_dest_hash = dest mod 256,
    pm_src_hash = src mod 256, pm_path = path, pm_hash_size = hs, pm_extra_type = et mod 16,
    pm_extra = (if et mod 16 = payload_val ACK then take 4 ex else rstrip0 ex) \<rparr>)"
proof -
  obtain p s where p: "build_path_plaintext rnd path hs et (Some ex) = Inr p"
    and s: "encrypt_then_mac C k p = Inr s" and payload: "payload = hash_header dest src @ s"
    using built by (auto simp: build_path_payload_def)
  obtain pl where ok: "path_ok hs path"
    and pl: "decode_path_len (uint pl) = (int (length path) div hs, hs)"
    and p_eq: "p = pl # path @ [word_of_int (et mod 256)] @ ex"
    using p by (auto elim: build_path_plaintext_Inr)
  have n: "nat (int (length path) div hs * hs) = length path"
    using ok by (auto simp: path_ok_def)
  obtain z where short: "\<not> too_short 2 payload"
    and opened: "mac_then_decrypt C k s = Inr (Some (p @ replicate z 0))"
    using open_hash_datagram [OF C _ s, of dest src] payload p_eq by auto
  have et: "uint (word_of_int (et mod 256) :: byte) mod 16 = et mod 16"
    by (simp add: uint_of_int_byte mod_mod_cancel)
  have ex: "rstrip0 (ex @ replicate z 0) = rstrip0 ex" by simp
  have "et mod 16 \<noteq> 3 \<or> 4 \<le> length ex \<and> 4 \<le> length ex + z" using ack by auto
  then show ?thesis
    using short opened payload
    by (auto simp: try_decrypt_path_msg_def msg_consts p_eq pl n py_slice_def nth_append and_15 et ex
        uint_of_int_byte mod_mod_cancel Let_def)
qed

lemma hash_header_of:
  "build_txt_msg_payload C k dest src ts attempt body = Inr payload \<Longrightarrow> \<exists>s. payload = hash_header dest src @ s"
  "build_path_payload C rnd k dest src path hs et extra = Inr payload \<Longrightarrow> \<exists>s. payload = hash_header dest src @ s"
  by (auto simp: build_txt_msg_payload_def build_path_payload_def)

text \<open>\<open>reverse_path\<close> undoes itself.\<close>

lemma reverse_path_Inr:
  assumes "reverse_path path hs = Inr q" "path \<noteq> []"
  shows "1 \<le> hs" "hs \<le> 4" "length q = length path"
    "entries (nat hs) q = rev (entries (nat hs) path)"
proof -
  have hs: "1 \<le> hs" "hs \<le> 4" and m: "int (length path) mod hs = 0"
    and q: "q = concat (rev (entries (nat hs) path))"
    using assms by (auto simp: reverse_path_def split: if_splits)
  show "1 \<le> hs" "hs \<le> 4" by fact+
  have k: "0 < nat hs" using hs by simp
  have "int (length path mod nat hs) = 0" using m hs by (simp add: of_nat_mod)
  then have mm: "length path mod nat hs = 0" by simp
  have "length (concat (rev xs)) = length (concat xs)" for xs :: "byte list list"
    by (induction xs) auto
  from this [of "entries (nat hs) path"] show "length q = length path"
    by (simp only: q concat_entries [OF k])
  show "entries (nat hs) q = rev (entries (nat hs) path)"
    unfolding q by (rule entries_concat [OF k]) (use entries_lengths [OF k mm] in auto)
qed

lemma reverse_path_ok:
  assumes "path_ok hs path" "path \<noteq> []"
  obtains q where "reverse_path path hs = Inr q" "path_ok hs q" "q \<noteq> []" "length q = length path"
proof -
  have "reverse_path path hs = Inr (concat (rev (entries (nat hs) path)))"
    using assms by (simp add: reverse_path_def path_ok_def)
  moreover from reverse_path_Inr(3) [OF this assms(2)]
  have l: "length (concat (rev (entries (nat hs) path))) = length path" .
  moreover have "path_ok hs (concat (rev (entries (nat hs) path)))"
    using assms(1) unfolding path_ok_def l .
  moreover have "concat (rev (entries (nat hs) path)) \<noteq> []" using l assms(2) by (metis length_0_conv)
  ultimately show thesis using that by blast
qed

text \<open>The path of a decrypted PATH message is a whole number of hashes.\<close>

lemma try_decrypt_path_msg_ok:
  assumes "try_decrypt_path_msg C payload k = Inr (Some m)"
  shows "path_ok (pm_hash_size m) (pm_path m)"
proof -
  obtain p where p: "mac_then_decrypt C k (drop TXT_MSG_HEADER_SIZE payload) = Inr (Some p)"
    using assms by (auto simp: try_decrypt_path_msg_def split: if_splits option.splits)
  obtain n hs where d: "decode_path_len (uint (p ! 0)) = (n, hs)" by fastforce
  have l: "\<not> length p < 1 + nat (n * hs) + 1"
    and m: "pm_path m = py_slice 1 (1 + nat (n * hs)) p" "pm_hash_size m = hs"
    using assms by (auto simp: try_decrypt_path_msg_def p d Let_def split: if_splits)
  have e: "0 \<le> n" "n \<le> 63" "1 \<le> hs" "hs \<le> 4"
    using encode_decode_path_len(2-5) [OF _ _ d] by auto
  have "length (pm_path m) = nat (n * hs)" using l by (simp add: m py_slice_def)
  then have "int (length (pm_path m)) = n * hs" using e by simp
  then show ?thesis using e m(2) by (simp add: path_ok_def)
qed

section \<open>Properties\<close>



text \<open>
  Property (C28): both ends agree on the acknowledgement. The ACK hash the recipient computes from the
  message it decrypted, with the sender's public key, is the hash the sender computed for what it sent
  and waits for, although the attempt counter reaches the wire only modulo 4.
\<close>

theorem recipient_ack_is_sender_ack:
  assumes "crypto_laws C" "16 \<le> length k"
    and "0 \<le> ts" "ts < 2 ^ 32" "encodable msg" "0 \<notin> set msg"
  shows "\<exists>payload m ack. build_txt_msg_payload C k dest src ts attempt msg = Inr payload \<and>
    try_decrypt_txt_msg C payload k = Inr (Some m) \<and>
    ack_hash_for C ts attempt msg sender_pub TXT_TYPE_PLAIN = Inr ack \<and>
    txt_ack_hash C m sender_pub = Inr ack"
proof -
  obtain tx where tx: "utf8_encode msg = Inr tx" using utf8_encode_Inr assms(5) by blast
  obtain payload where b: "build_txt_msg_payload C k dest src ts attempt msg = Inr payload"
    using build_txt_msg_payload_total assms by blast
  obtain p where p: "plaintext_through_text ts attempt msg TXT_TYPE_PLAIN = Inr p"
    using plaintext_through_text_total [of ts TXT_TYPE_PLAIN msg attempt] assms(3-5)
    by (auto simp: msg_consts)
  have same: "plaintext_through_text ts (attempt mod 4) msg TXT_TYPE_PLAIN = Inr p"
    using p by (simp add: plaintext_through_text_def)
  have d: "utf8_decode (before_nul tx) = msg"
    using utf8_encode_no_nul [OF tx assms(6)] utf8_decode_encode [OF tx] by (simp add: before_nul_id)
  show ?thesis
    using b try_decrypt_built_txt_msg [OF assms(1,2) b tx] p same
    by (simp add: txt_ack_hash_def ack_hash_for_def d)
qed

lemma recipient_ack_is_sender_ack_witness:
  "\<exists>payload m ack. build_txt_msg_payload demo_lib (replicate 32 9) 3 5 1700000000 6 [104, 105] = Inr payload \<and>
    try_decrypt_txt_msg demo_lib payload (replicate 32 9) = Inr (Some m) \<and>
    ack_hash_for demo_lib 1700000000 6 [104, 105] (replicate 32 4) TXT_TYPE_PLAIN = Inr ack \<and>
    txt_ack_hash demo_lib m (replicate 32 4) = Inr ack"
  by (rule recipient_ack_is_sender_ack) (simp_all add: demo_lib_laws encodable_def surrogate_def)

text \<open>
  A returned path survives the trip: the path and hash size exactly, the extra type
  modulo 16, and the bundled extra: the first four bytes for an ACK, and for any other type the extra
  without its trailing zero bytes (the decoder cannot tell them from the cipher's padding).
\<close>

lemma path_msg_roundtrip:
  assumes "crypto_laws C" "16 \<le> length k" "path_ok hs path"
    and "et mod 16 = payload_val ACK \<Longrightarrow> 4 \<le> length ex"
  shows "\<exists>payload. build_path_payload C rnd k dest src path hs et (Some ex) = Inr payload \<and>
    try_decrypt_path_msg C payload k = Inr (Some \<lparr> pm_dest_hash = dest mod 256,
      pm_src_hash = src mod 256, pm_path = path, pm_hash_size = hs, pm_extra_type = et mod 16,
      pm_extra = (if et mod 16 = payload_val ACK then take 4 ex else rstrip0 ex) \<rparr>)"
proof -
  obtain p where p: "build_path_plaintext rnd path hs et (Some ex) = Inr p"
    using build_path_plaintext_total [OF assms(3)] by blast
  obtain s where s: "encrypt_then_mac C k p = Inr s" using encrypt_then_mac_total assms(2) by blast
  then have b: "build_path_payload C rnd k dest src path hs et (Some ex) = Inr (hash_header dest src @ s)"
    using p by (simp add: build_path_payload_def)
  show ?thesis using b try_decrypt_built_path_msg [OF assms(1,2) b assms(4)] by blast
qed

lemma path_msg_roundtrip_witness:
  "\<exists>payload. build_path_payload demo_lib [] (replicate 32 9) 3 5 [1, 2, 3, 4] 2 3 (Some [9, 0, 7, 0]) = Inr payload \<and>
    try_decrypt_path_msg demo_lib payload (replicate 32 9) = Inr (Some \<lparr> pm_dest_hash = 3 mod 256,
      pm_src_hash = 5 mod 256, pm_path = [1, 2, 3, 4], pm_hash_size = 2, pm_extra_type = 3 mod 16,
      pm_extra = (if (3 :: int) mod 16 = payload_val ACK then take 4 [9, 0, 7, 0] else rstrip0 [9, 0, 7, 0]) \<rparr>)"
  by (rule path_msg_roundtrip) (simp_all add: demo_lib_laws path_ok_def)

text \<open>
  With a secret of at least 16 bytes, no received payload makes a decoder raise: text
  messages, channel messages, returned paths and requests all decode to a message or to \<open>None\<close>.
\<close>

lemma decoders_never_raise:
  assumes "16 \<le> length k"
  shows "(\<exists>r. try_decrypt_txt_msg C payload k = Inr r) \<and> (\<exists>r. try_decode_grp_txt C payload k = Inr r) \<and>
    (\<exists>r. try_decrypt_path_msg C payload k = Inr r) \<and> (\<exists>r. try_decrypt_req_msg C payload k = Inr r)"
proof -
  obtain r where "mac_then_decrypt C k (drop 2 payload) = Inr r"
    using mac_then_decrypt_total [OF assms] by blast
  then show ?thesis
    by (auto simp: try_decrypt_txt_msg_def try_decode_grp_txt_def try_decrypt_path_msg_def
        try_decrypt_req_msg_def msg_consts Let_def split: option.splits prod.splits)
qed

lemma decoders_never_raise_witness:
  "(\<exists>r. try_decrypt_txt_msg demo_lib [1, 2] (replicate 16 0) = Inr r) \<and>
    (\<exists>r. try_decode_grp_txt demo_lib [1, 2] (replicate 16 0) = Inr r) \<and>
    (\<exists>r. try_decrypt_path_msg demo_lib [1, 2] (replicate 16 0) = Inr r) \<and>
    (\<exists>r. try_decrypt_req_msg demo_lib [1, 2] (replicate 16 0) = Inr r)"
  by (rule decoders_never_raise) simp

text \<open>
  Reversing a route twice gives the route back, entry by entry, and never changes its
  length: the reply path derived from an observed path leads back over the same hops.
\<close>

lemma reverse_path_involutive:
  assumes "reverse_path path hs = Inr q"
  shows "reverse_path q hs = Inr path \<and> length q = length path \<and>
    entries (nat hs) q = rev (entries (nat hs) path)"
proof (cases "path = []")
  case True
  then show ?thesis using assms by (auto simp: reverse_path_def)
next
  case False
  note r = reverse_path_Inr [OF assms False]
  have k: "0 < nat hs" using r(1) by simp
  have "concat (rev (entries (nat hs) q)) = path" by (simp add: r(4) concat_entries [OF k])
  moreover have "q \<noteq> []" using r(3) False by auto
  moreover have "int (length q) mod hs = 0"
    using assms False by (auto simp: r(3) reverse_path_def split: if_splits)
  ultimately show ?thesis using r by (simp add: reverse_path_def)
qed

lemma reverse_path_involutive_witness:
  "reverse_path [3, 4, 1, 2] 2 = Inr [1, 2, 3, 4] \<and> length [3, 4, 1, 2 :: byte] = length [1, 2, 3, 4 :: byte] \<and>
    entries (nat 2) [3, 4, 1, 2 :: byte] = rev (entries (nat 2) [1, 2, 3, 4])"
  by (rule reverse_path_involutive) (simp add: reverse_path_def entries.simps)

end
