(* ===== verification/Delivery.thy ===== *)
theory Delivery
  imports Messaging
begin

unbundle bit_operations_syntax

text \<open>
  Delivery with acknowledgement (\<open>deliver_txt_msg_with_ack\<close> of \<open>messaging.py\<close>, and the loop it
  shares with \<open>deliver_room_push_with_ack\<close> of \<open>room.py\<close>): a known route is tried first, then
  flooding, until an ACK arrives. The callables \<open>publish\<close> and \<open>wait_for_ack\<close> are parameters: each
  takes the state of the world and returns a result (or an exception) and the new state.
\<close>

section \<open>Attempts\<close>

type_synonym attempt = "route_type \<times> bytes \<times> int"

record delivery_result =
  dr_route :: route_type
  dr_attempt :: int
  dr_ack_hash :: bytes
  dr_acked :: bool

text \<open>
  The list of attempts: \<open>direct_attempts\<close> sends over the known path, if there is one, then
  \<open>flood_attempts\<close> floods.
\<close>

definition attempt_plan :: "bytes \<Rightarrow> int \<Rightarrow> int \<Rightarrow> int \<Rightarrow> attempt list" where
  "attempt_plan direct_path direct_hash_size direct_attempts flood_attempts =
     (if direct_path \<noteq> [] then replicate (nat direct_attempts) (DIRECT, direct_path, direct_hash_size)
      else []) @ replicate (nat flood_attempts) (FLOOD, [], 1)"

text \<open>
  The loop over the attempts. \<open>send i a\<close> builds the \<open>i\<close>-th packet for attempt \<open>a\<close>: its bytes and
  the ACK hash to wait for. The final \<open>assert\<close> of the code is the case of no result.
\<close>

fun deliver_loop ::
    "(int \<Rightarrow> attempt \<Rightarrow> (bytes \<times> bytes) res) \<Rightarrow> (bytes \<Rightarrow> ('w, unit) io) \<Rightarrow> (bytes \<Rightarrow> rat \<Rightarrow> ('w, bool) io)
       \<Rightarrow> rat \<Rightarrow> int \<Rightarrow> attempt list \<Rightarrow> delivery_result option \<Rightarrow> ('w, delivery_result) io" where
  "deliver_loop send publish wait_for_ack timeout i [] last_result w =
     (case last_result of None \<Rightarrow> (Inl AssertionError, w) | Some r \<Rightarrow> (Inr r, w))"
| "deliver_loop send publish wait_for_ack timeout i (a # rest) last_result w =
     (case send i a of
        Inl e \<Rightarrow> (Inl e, w)
      | Inr (wire, ack_hash) \<Rightarrow>
          (case publish wire w of
             (Inl e, w1) \<Rightarrow> (Inl e, w1)
           | (Inr _, w1) \<Rightarrow>
               (case wait_for_ack ack_hash timeout w1 of
                  (Inl e, w2) \<Rightarrow> (Inl e, w2)
                | (Inr acked, w2) \<Rightarrow>
                    let r = \<lparr> dr_route = fst a, dr_attempt = i, dr_ack_hash = ack_hash,
                              dr_acked = acked \<rparr> in
                    if acked then (Inr r, w2)
                    else deliver_loop send publish wait_for_ack timeout (i + 1) rest (Some r) w2)))"

text \<open>What every publish and every wait keeps, the loop keeps.\<close>

lemma deliver_loop_Cons:
  assumes "send i a = Inr (wire, ack)"
  shows "deliver_loop send publish wait timeout i (a # rest) last_result =
    bindIO (publish wire) (\<lambda>_. bindIO (wait ack timeout) (\<lambda>acked.
      if acked then returnIO \<lparr> dr_route = fst a, dr_attempt = i, dr_ack_hash = ack, dr_acked = acked \<rparr>
      else deliver_loop send publish wait timeout (i + 1) rest
             (Some \<lparr> dr_route = fst a, dr_attempt = i, dr_ack_hash = ack, dr_acked = acked \<rparr>)))"
  using assms by (simp add: fun_eq_iff bindIO_def returnIO_def Let_def split: sum.splits prod.splits)

lemma wp_deliver_loop:
  assumes "I w" "\<And>a i wire ack. a \<in> set plan \<Longrightarrow> send i a = Inr (wire, ack) \<Longrightarrow> good wire"
    and pub: "\<And>wire w. good wire \<Longrightarrow> I w \<Longrightarrow> wp (publish wire) (\<lambda>_. I) I w"
    and wait: "\<And>ack w. I w \<Longrightarrow> wp (wait ack timeout) (\<lambda>_. I) I w"
  shows "wp (deliver_loop send publish wait timeout i plan last_result) (\<lambda>_. I) I w"
  using assms(1,2)
proof (induction plan arbitrary: i last_result w)
  case Nil
  then show ?case by (simp add: wp_def split: option.splits)
next
  case (Cons a rest)
  show ?case
  proof (cases "send i a")
    case (Inl e)
    then show ?thesis using Cons.prems(1) by (simp add: wp_def)
  next
    case (Inr x)
    obtain wire ack where s: "send i a = Inr (wire, ack)" using Inr by (cases x) simp
    have good: "good wire" using Cons.prems(2) [OF _ s] by simp
    have IH: "wp (deliver_loop send publish wait timeout j rest r) (\<lambda>_. I) I v" if "I v" for j r v
      by (rule Cons.IH [OF that]) (erule (1) Cons.prems(2) [OF list.set_intros(2)])
    have tail: "wp (wait ack timeout) (\<lambda>acked. wp (if acked then returnIO (f acked)
        else deliver_loop send publish wait timeout (i + 1) rest (g acked)) (\<lambda>_. I) I) I v" if "I v" for f g v
      by (rule wp_mono [OF wait [OF that]]) (simp_all add: IH wp(1))
    show ?thesis unfolding deliver_loop_Cons [where send = send, OF s] wp(5)
      by (rule wp_mono [OF pub [OF good Cons.prems(1)]]) (simp_all add: tail)
  qed
qed

section \<open>Text messages\<close>

text \<open>
  The body of the loop up to \<open>publish\<close>: the timestamp moves on by one every four attempts, and the
  two-bit attempt counter wraps.
\<close>

definition send_txt ::
    "crypto_lib \<Rightarrow> bytes \<Rightarrow> bytes \<Rightarrow> bytes \<Rightarrow> ustring \<Rightarrow> int \<Rightarrow> int \<Rightarrow> attempt \<Rightarrow> (bytes \<times> bytes) res" where
  "send_txt C shared_secret dest_pub_key src_pub_key text timestamp attempt a =
     (let (route_type, path, hash_size) = a;
          wire_timestamp = timestamp + attempt div 4;
          wire_attempt = attempt AND 0x03 in
      bindR (build_txt_msg_packet C shared_secret dest_pub_key src_pub_key wire_timestamp text
               wire_attempt route_type path hash_size) (\<lambda>pkt.
      bindR (ack_hash_for C wire_timestamp wire_attempt text src_pub_key TXT_TYPE_PLAIN) (\<lambda>ack_hash.
      bindR (encode_packet pkt) (\<lambda>wire. Inr (wire, ack_hash)))))"

definition deliver_txt_msg_with_ack ::
    "crypto_lib \<Rightarrow> (bytes \<Rightarrow> ('w, unit) io) \<Rightarrow> (bytes \<Rightarrow> rat \<Rightarrow> ('w, bool) io) \<Rightarrow> bytes \<Rightarrow> bytes \<Rightarrow> bytes
       \<Rightarrow> ustring \<Rightarrow> int \<Rightarrow> bytes \<Rightarrow> int \<Rightarrow> int \<Rightarrow> int \<Rightarrow> rat \<Rightarrow> ('w, delivery_result) io" where
  "deliver_txt_msg_with_ack C publish wait_for_ack shared_secret dest_pub_key src_pub_key text timestamp
       direct_path direct_hash_size direct_attempts flood_attempts ack_timeout_s w =
     (if direct_attempts < 0 \<or> flood_attempts < 0 then (Inl ValueError, w)
      else if direct_path \<noteq> [] \<and> \<not> (1 \<le> direct_hash_size \<and> direct_hash_size \<le> 4)
      then (Inl ValueError, w)
      else
        let attempts = attempt_plan direct_path direct_hash_size direct_attempts flood_attempts in
        if attempts = [] then (Inl ValueError, w)
        else deliver_loop (send_txt C shared_secret dest_pub_key src_pub_key text timestamp)
               publish wait_for_ack ack_timeout_s 0 attempts None w)"

section \<open>An observable world\<close>

text \<open>
  A world that records what the loop does and answers its waits from a given sequence: the \<open>n\<close>-th
  wait sees an ACK exactly if \<open>answers n\<close>.
\<close>

datatype net_event = Published bytes | Awaited bytes

record net =
  net_answers :: "nat \<Rightarrow> bool"
  net_waits :: nat
  net_log :: "net_event list"

definition net_publish :: "bytes \<Rightarrow> (net, unit) io" where
  "net_publish wire n = (Inr (), n\<lparr>net_log := net_log n @ [Published wire]\<rparr>)"

definition net_wait :: "bytes \<Rightarrow> rat \<Rightarrow> (net, bool) io" where
  "net_wait ack timeout n =
     (Inr (net_answers n (net_waits n)),
      n\<lparr>net_waits := Suc (net_waits n), net_log := net_log n @ [Awaited ack]\<rparr>)"

text \<open>
  The world after the attempts \<open>0..m\<close> were published and waited for in order.
\<close>

definition after_attempts :: "(nat \<Rightarrow> bytes \<times> bytes) \<Rightarrow> nat \<Rightarrow> net \<Rightarrow> net" where
  "after_attempts sent m n =
     n\<lparr>net_waits := net_waits n + Suc m,
       net_log := net_log n @ concat (map (\<lambda>j. [Published (fst (sent j)), Awaited (snd (sent j))]) [0..<Suc m])\<rparr>"

text \<open>
  What a run of the loop must look like: it stops at the first attempt \<open>m\<close> whose wait is answered, or
  at the last one, and reports that attempt.
\<close>

definition delivered ::
    "(nat \<Rightarrow> bytes \<times> bytes) \<Rightarrow> attempt list \<Rightarrow> net \<Rightarrow> nat \<Rightarrow> delivery_result res \<times> net \<Rightarrow> bool" where
  "delivered sent plan n m out \<longleftrightarrow>
     m < length plan \<and>
     (\<forall>j < m. \<not> net_answers n (net_waits n + j)) \<and>
     (net_answers n (net_waits n + m) \<or> Suc m = length plan) \<and>
     out = (Inr \<lparr> dr_route = fst (plan ! m), dr_attempt = int m, dr_ack_hash = snd (sent m),
                  dr_acked = net_answers n (net_waits n + m) \<rparr>,
            after_attempts sent m n)"

text \<open>The packets a sender builds for the attempts of a plan, with their ACK hashes.\<close>

definition builds :: "(int \<Rightarrow> attempt \<Rightarrow> (bytes \<times> bytes) res) \<Rightarrow> attempt list \<Rightarrow> (nat \<Rightarrow> bytes \<times> bytes) \<Rightarrow> bool" where
  "builds send plan sent \<longleftrightarrow> (\<forall>j < length plan. send (int j) (plan ! j) = Inr (sent j))"

lemma after_attempts_0:
  "after_attempts sent 0 n = n\<lparr>net_waits := Suc (net_waits n),
     net_log := net_log n @ [Published (fst (sent 0)), Awaited (snd (sent 0))]\<rparr>"
  by (simp add: after_attempts_def)

lemma after_attempts_Suc:
  "after_attempts sent (Suc m) n = after_attempts (\<lambda>j. sent (Suc j)) m (after_attempts sent 0 n)"
proof -
  have "[0..<Suc (Suc m)] = 0 # map Suc [0..<Suc m]"
    by (metis map_Suc_upt upt_conv_Cons zero_less_Suc)
  moreover have "[0..<Suc 0] = [0]" by simp
  ultimately show ?thesis by (simp add: after_attempts_def comp_def del: upt_Suc)
qed

lemma after_attempts_answers [simp]:
  "net_answers (after_attempts sent m n) = net_answers n"
  "net_waits (after_attempts sent m n) = net_waits n + Suc m"
  by (simp_all add: after_attempts_def)

text \<open>
  The loop from index \<open>i\<close> on: every attempt builds, so it ends in one of the two ways.
\<close>

lemma deliver_loop_runs:
  assumes "plan \<noteq> []" "\<And>j. j < length plan \<Longrightarrow> send (i + int j) (plan ! j) = Inr (sent j)"
  shows "\<exists>m < length plan.
    (\<forall>j < m. \<not> net_answers n (net_waits n + j)) \<and>
    (net_answers n (net_waits n + m) \<or> Suc m = length plan) \<and>
    deliver_loop send net_publish net_wait timeout i plan last_result n =
      (Inr \<lparr> dr_route = fst (plan ! m), dr_attempt = i + int m, dr_ack_hash = snd (sent m),
             dr_acked = net_answers n (net_waits n + m) \<rparr>, after_attempts sent m n)"
  using assms
proof (induction plan arbitrary: i sent n last_result)
  case (Cons a rest)
  let ?n1 = "after_attempts sent 0 n"
  let ?r = "\<lparr> dr_route = fst a, dr_attempt = i, dr_ack_hash = snd (sent 0), dr_acked = False \<rparr>"
  have s0: "send i a = Inr (sent 0)" using Cons.prems(2) [of 0] by simp
  show ?case
  proof (cases "net_answers n (net_waits n)")
    case True
    then show ?thesis using s0
      by (intro exI [of _ 0]) (simp add: net_publish_def net_wait_def after_attempts_0 Let_def
          split: prod.splits)
  next
    case no: False
    then have step: "deliver_loop send net_publish net_wait timeout i (a # rest) last_result n =
        deliver_loop send net_publish net_wait timeout (i + 1) rest (Some ?r) ?n1"
      using s0 by (simp add: net_publish_def net_wait_def after_attempts_0 Let_def split: prod.splits)
    show ?thesis
    proof (cases "rest = []")
      case True
      then show ?thesis unfolding step using no by (intro exI [of _ 0]) simp
    next
      case False
      have "send (i + 1 + int j) (rest ! j) = Inr (sent (Suc j))" if "j < length rest" for j
        using Cons.prems(2) [of "Suc j"] that by (simp add: algebra_simps)
      from Cons.IH [OF False this, of ?n1 "Some ?r"] obtain m where m: "m < length rest"
        "\<forall>j < m. \<not> net_answers n (Suc (net_waits n + j))"
        "net_answers n (Suc (net_waits n + m)) \<or> Suc m = length rest"
        "deliver_loop send net_publish net_wait timeout (i + 1) rest (Some ?r) ?n1 =
          (Inr \<lparr> dr_route = fst (rest ! m), dr_attempt = i + 1 + int m, dr_ack_hash = snd (sent (Suc m)),
                 dr_acked = net_answers n (Suc (net_waits n + m)) \<rparr>,
           after_attempts (\<lambda>j. sent (Suc j)) m ?n1)"
        by auto
      have "\<forall>j < Suc m. \<not> net_answers n (net_waits n + j)"
        using m(2) no by (auto simp: less_Suc_eq_0_disj)
      then show ?thesis unfolding step using m
        by (intro exI [of _ "Suc m"]) (simp add: after_attempts_Suc)
    qed
  qed
qed simp

section \<open>Senders\<close>

text \<open>
  The contract the loop needs of a sender: with good parameters every attempt of the plan can be
  built. Both services' senders provide it.
\<close>

locale retry_sender =
  fixes good :: "'p \<Rightarrow> nat \<Rightarrow> attempt \<Rightarrow> bool"
    and send :: "'p \<Rightarrow> int \<Rightarrow> attempt \<Rightarrow> (bytes \<times> bytes) res"
  assumes send_total: "good p i a \<Longrightarrow> \<exists>wa. send p (int i) a = Inr wa"
begin

lemma delivers:
  assumes "plan \<noteq> []" "\<And>j. j < length plan \<Longrightarrow> good p j (plan ! j)"
  shows "\<exists>sent m. builds (send p) plan sent \<and>
    delivered sent plan n m (deliver_loop (send p) net_publish net_wait timeout 0 plan None n)"
proof -
  define sent where "sent j = (case send p (int j) (plan ! j) of Inr wa \<Rightarrow> wa | Inl _ \<Rightarrow> ([], []))" for j
  have sent: "send p (int j) (plan ! j) = Inr (sent j)" if "j < length plan" for j
    using send_total [OF assms(2) [OF that]] by (auto simp: sent_def)
  then have "\<exists>m. delivered sent plan n m (deliver_loop (send p) net_publish net_wait timeout 0 plan None n)"
    unfolding delivered_def using deliver_loop_runs [OF assms(1), of "send p" 0 sent n timeout None] by simp
  with sent show ?thesis unfolding builds_def by blast
qed

end

definition good_txt :: "crypto_lib \<times> bytes \<times> bytes \<times> bytes \<times> ustring \<times> int \<Rightarrow> nat \<Rightarrow> attempt \<Rightarrow> bool" where
  "good_txt p i a =
     (case (p, a) of ((C, k, dest, src, body, ts), (r, path, hs)) \<Rightarrow>
        16 \<le> length k \<and> dest \<noteq> [] \<and> src \<noteq> [] \<and> encodable body \<and> 0 \<le> ts \<and> ts + int i div 4 < 2 ^ 32 \<and>
        r \<in> {DIRECT, FLOOD} \<and> path_ok hs path)"

definition send_txt_of :: "crypto_lib \<times> bytes \<times> bytes \<times> bytes \<times> ustring \<times> int \<Rightarrow> int \<Rightarrow> attempt \<Rightarrow> (bytes \<times> bytes) res" where
  "send_txt_of p = (case p of (C, k, dest, src, body, ts) \<Rightarrow> send_txt C k dest src body ts)"

lemma path_hash_total: "pub \<noteq> [] \<Longrightarrow> \<exists>h. path_hash pub = Inr h"
  by (cases pub) (auto simp: path_hash_def)

lemma encode_made_packet:
  "r \<in> {DIRECT, FLOOD} \<Longrightarrow> path_ok hs path \<Longrightarrow> \<exists>w. encode_packet (make_packet r t path payload hs) = Inr w"
  by (auto simp: encode_packet_Inr_iff make_packet_def codes_ok_def has_transport_codes_def)

lemma ack_hash_for_total:
  assumes "0 \<le> ts" "ts < 2 ^ 32" "0 \<le> t" "t < 64" "encodable body"
  shows "\<exists>ack. ack_hash_for C ts attempt body pub t = Inr ack"
  using plaintext_through_text_total [OF assms, of attempt] by (auto simp: ack_hash_for_def)

lemma send_txt_total:
  assumes "16 \<le> length k" "dest \<noteq> []" "src \<noteq> []" "encodable body" "0 \<le> ts" "ts + int i div 4 < 2 ^ 32"
    and "r \<in> {DIRECT, FLOOD}" "path_ok hs path"
  shows "\<exists>wa. send_txt C k dest src body ts (int i) (r, path, hs) = Inr wa"
proof -
  let ?ts = "ts + int i div 4" and ?a = "int i AND 3"
  have ts: "0 \<le> ?ts" using assms(5) by simp
  obtain dh sh where h: "path_hash dest = Inr dh" "path_hash src = Inr sh"
    using path_hash_total assms(2,3) by blast
  obtain payload where b: "build_txt_msg_payload C k dh sh ?ts ?a body = Inr payload"
    using build_txt_msg_payload_total [OF assms(1) ts assms(6,4)] by blast
  have "\<exists>ack. ack_hash_for C ?ts ?a body src TXT_TYPE_PLAIN = Inr ack"
    by (rule ack_hash_for_total [OF ts assms(6) _ _ assms(4)]) (simp_all add: TXT_TYPE_PLAIN_def)
  then obtain ack where a: "ack_hash_for C ?ts ?a body src TXT_TYPE_PLAIN = Inr ack" by blast
  obtain w where "encode_packet (make_packet r TXT_MSG path payload hs) = Inr w"
    using encode_made_packet [OF assms(7,8)] by blast
  then show ?thesis using h b a by (simp add: send_txt_def build_txt_msg_packet_def)
qed

interpretation txt_sender: retry_sender good_txt send_txt_of
proof
  fix p i a
  assume "good_txt p i a"
  then show "\<exists>wa. send_txt_of p (int i) a = Inr wa"
    using send_txt_total by (auto simp: good_txt_def send_txt_of_def split: prod.splits)
qed

lemma attempt_plan_nth:
  assumes "j < length (attempt_plan path hs da fa)"
  shows "attempt_plan path hs da fa ! j = (DIRECT, path, hs) \<and> path \<noteq> [] \<or>
    attempt_plan path hs da fa ! j = (FLOOD, [], 1)"
  using assms by (auto simp: attempt_plan_def nth_append split: if_splits)

lemma path_ok_Nil [simp]: "path_ok 1 []"
  by (simp add: path_ok_def)

lemma attempt_plan_ok:
  assumes "j < length (attempt_plan path hs da fa)" "path \<noteq> [] \<Longrightarrow> path_ok hs path"
  shows "\<exists>r pa h. attempt_plan path hs da fa ! j = (r, pa, h) \<and> r \<in> {DIRECT, FLOOD} \<and> path_ok h pa"
  using attempt_plan_nth [OF assms(1)] assms(2) by (metis insertI1 insertI2 path_ok_Nil)

lemma good_txtI:
  assumes "16 \<le> length k" "dest \<noteq> []" "src \<noteq> []" "encodable body" "0 \<le> ts" "ts + int j div 4 < 2 ^ 32"
    and "\<exists>r pa h. a = (r, pa, h) \<and> r \<in> {DIRECT, FLOOD} \<and> path_ok h pa"
  shows "good_txt (C, k, dest, src, body, ts) j a"
proof -
  obtain r pa h where "a = (r, pa, h)" "r \<in> {DIRECT, FLOOD}" "path_ok h pa" using assms(7) by blast
  then show ?thesis unfolding good_txt_def using assms(1-6) by (simp only: prod.case simp_thms)
qed

lemma path_ok_hash_size: "path_ok hs path \<Longrightarrow> 1 \<le> hs \<and> hs \<le> 4"
  by (simp add: path_ok_def)

lemma deliver_txt_msg_checks:
  assumes "0 \<le> da" "0 \<le> fa" "path \<noteq> [] \<Longrightarrow> path_ok hs path" "attempt_plan path hs da fa \<noteq> []"
  shows "deliver_txt_msg_with_ack C publish wait k dest src body ts path hs da fa timeout w =
    deliver_loop (send_txt C k dest src body ts) publish wait timeout 0 (attempt_plan path hs da fa) None w"
proof -
  have c: "\<not> (da < 0 \<or> fa < 0)" using assms(1,2) by simp
  have d: "\<not> (path \<noteq> [] \<and> \<not> (1 \<le> hs \<and> hs \<le> 4))" using assms(3) path_ok_hash_size by blast
  show ?thesis unfolding deliver_txt_msg_with_ack_def Let_def if_not_P [OF c] if_not_P [OF d] if_not_P [OF assms(4)] ..
qed

lemma length_attempt_plan:
  "0 \<le> da \<Longrightarrow> 0 \<le> fa \<Longrightarrow> int (length (attempt_plan path hs da fa)) \<le> da + fa"
  by (simp add: attempt_plan_def)

lemma attempt_plan_first:
  assumes "0 \<le> da" "0 < fa"
  obtains rest where "attempt_plan path hs da fa =
    (if path \<noteq> [] \<and> 0 < da then (DIRECT, path, hs) else (FLOOD, [], 1)) # rest"
proof -
  obtain n where n: "nat fa = Suc n" using assms(2) by (metis gr0_implies_Suc zero_less_nat_eq)
  obtain m where "0 < da \<Longrightarrow> nat da = Suc m" by (metis gr0_implies_Suc zero_less_nat_eq)
  then have "\<exists>rest. attempt_plan path hs da fa = (if path \<noteq> [] \<and> 0 < da then (DIRECT, path, hs) else (FLOOD, [], 1)) # rest"
    using n assms(1) by (cases "0 < da") (auto simp: attempt_plan_def)
  then show thesis using that by blast
qed

section \<open>Properties\<close>

text \<open>
  Property (C29): a delivery always returns, and what it did is determined by when ACKs arrived. It
  publishes the packets of the plan in order, the direct attempts before the floods, waits for each
  packet's own ACK hash before the next, stops at the first that is acknowledged or after the last,
  and reports that attempt, its route, its hash and whether it was acknowledged.
\<close>

theorem deliver_txt_msg_follows_plan:
  assumes "16 \<le> length k" "dest \<noteq> []" "src \<noteq> []" "encodable body"
    and "0 \<le> ts" "ts + (da + fa) div 4 < 2 ^ 32" "0 \<le> da" "0 \<le> fa"
    and "path \<noteq> [] \<Longrightarrow> path_ok hs path" "attempt_plan path hs da fa \<noteq> []"
  shows "\<exists>sent m.
    builds (send_txt C k dest src body ts) (attempt_plan path hs da fa) sent \<and>
    delivered sent (attempt_plan path hs da fa) n m
      (deliver_txt_msg_with_ack C net_publish net_wait k dest src body ts path hs da fa timeout n)"
proof -
  let ?plan = "attempt_plan path hs da fa" and ?p = "(C, k, dest, src, body, ts)"
  have good: "good_txt ?p j (?plan ! j)" if j: "j < length ?plan" for j
  proof -
    have "int j \<le> da + fa" using j length_attempt_plan [OF assms(7,8), of path hs] by linarith
    then have "int j div 4 \<le> (da + fa) div 4" by (rule zdiv_mono1) simp
    then have "ts + int j div 4 < 2 ^ 32" using assms(6) by linarith
    from good_txtI [OF assms(1-5) this attempt_plan_ok [OF j assms(9)]] show ?thesis .
  qed
  have "deliver_txt_msg_with_ack C net_publish net_wait k dest src body ts path hs da fa timeout n =
      deliver_loop (send_txt C k dest src body ts) net_publish net_wait timeout 0 ?plan None n"
    by (rule deliver_txt_msg_checks [OF assms(7-10)])
  then show ?thesis
    using txt_sender.delivers [OF assms(10), of ?p n timeout, OF good] unfolding send_txt_of_def prod.case
    by (simp only:)
qed

lemma deliver_txt_msg_follows_plan_witness:
  "\<exists>sent m.
    builds (send_txt demo_lib (replicate 32 1) [7] [8] [104] 1700000000) (attempt_plan [1, 2] 2 1 2) sent \<and>
    delivered sent (attempt_plan [1, 2] 2 1 2) \<lparr>net_answers = (\<lambda>n. n = 1), net_waits = 0, net_log = []\<rparr> m
      (deliver_txt_msg_with_ack demo_lib net_publish net_wait (replicate 32 1) [7] [8] [104] 1700000000 [1, 2] 2 1 2 8
         \<lparr>net_answers = (\<lambda>n. n = 1), net_waits = 0, net_log = []\<rparr>)"
  by (rule deliver_txt_msg_follows_plan) (simp_all add: encodable_def surrogate_def path_ok_def attempt_plan_def)



end
