(* ===== verification/RoomCodec.thy ===== *)
theory RoomCodec
  imports Delivery
begin

unbundle bit_operations_syntax

text \<open>
  The room-server codecs (\<open>softmesh_stack/room.py\<close>): the login request and its response, pushed
  posts and their delivery. \<open>urandom4\<close> is what \<open>os.urandom(4)\<close> returns when no random blob is given.
\<close>

section \<open>Data\<close>

definition DEST_HASH_SIZE :: nat where "DEST_HASH_SIZE = 1"
definition SYNC_SINCE_SIZE :: nat where "SYNC_SINCE_SIZE = 4"
definition AUTHOR_PREFIX_SIZE :: nat where "AUTHOR_PREFIX_SIZE = 4"
definition ANON_REQ_HEADER_SIZE :: nat where "ANON_REQ_HEADER_SIZE = DEST_HASH_SIZE + PUB_KEY_SIZE"
definition DATAGRAM_HEADER_SIZE :: nat where "DATAGRAM_HEADER_SIZE = 2 * PATH_HASH_SIZE"
definition RESP_SERVER_LOGIN_OK :: int where "RESP_SERVER_LOGIN_OK = 0x00"
definition FIRMWARE_VER_LEVEL :: int where "FIRMWARE_VER_LEVEL = 1"
definition PERM_ACL_READ_WRITE :: int where "PERM_ACL_READ_WRITE = 2"
definition PERM_ACL_ADMIN :: int where "PERM_ACL_ADMIN = 3"

lemmas room_consts = DEST_HASH_SIZE_def SYNC_SINCE_SIZE_def AUTHOR_PREFIX_SIZE_def
  ANON_REQ_HEADER_SIZE_def DATAGRAM_HEADER_SIZE_def RESP_SERVER_LOGIN_OK_def FIRMWARE_VER_LEVEL_def
  PERM_ACL_READ_WRITE_def PERM_ACL_ADMIN_def msg_consts

record login_req =
  lg_client_pub_key :: bytes
  lg_timestamp :: int
  lg_sync_since :: int
  lg_password :: ustring

record login_response =
  lr_server_ts :: int
  lr_status :: int
  lr_is_admin :: bool
  lr_permissions :: int

record room_push =
  rp_post_ts :: int
  rp_attempt :: int
  rp_author_prefix :: bytes
  rp_text :: ustring

section \<open>Login request\<close>

definition build_anon_login_inner :: "int \<Rightarrow> int \<Rightarrow> ustring \<Rightarrow> bytes res" where
  "build_anon_login_inner timestamp sync_since password =
     bindR (to_bytes_le TIMESTAMP_SIZE timestamp) (\<lambda>ts.
     bindR (to_bytes_le SYNC_SINCE_SIZE sync_since) (\<lambda>since.
     bindR (utf8_encode password) (\<lambda>pw. Inr (ts @ since @ pw @ [0]))))"

definition build_anon_login_payload ::
    "crypto_lib \<Rightarrow> bytes \<Rightarrow> int \<Rightarrow> bytes \<Rightarrow> int \<Rightarrow> int \<Rightarrow> ustring \<Rightarrow> bytes res" where
  "build_anon_login_payload C shared_secret room_hash client_pub_key timestamp sync_since password =
     (if length client_pub_key \<noteq> PUB_KEY_SIZE then Inl ValueError
      else
        bindR (build_anon_login_inner timestamp sync_since password) (\<lambda>inner.
        bindR (encrypt_then_mac C shared_secret inner) (\<lambda>sealed.
        Inr ([word_of_int (room_hash AND 0xFF)] @ client_pub_key @ sealed))))"

definition build_anon_login_packet ::
    "crypto_lib \<Rightarrow> bytes \<Rightarrow> int \<Rightarrow> bytes \<Rightarrow> int \<Rightarrow> int \<Rightarrow> ustring \<Rightarrow> route_type \<Rightarrow> bytes \<Rightarrow> int \<Rightarrow> packet res" where
  "build_anon_login_packet C shared_secret room_hash client_pub_key timestamp sync_since password
       route_type path hash_size =
     bindR (build_anon_login_payload C shared_secret room_hash client_pub_key timestamp sync_since password)
       (\<lambda>payload. Inr (make_packet route_type ANON_REQ path payload hash_size))"

text \<open>
  \<open>try_decrypt_login\<close>: whatever \<open>calc_shared_secret\<close> raises on the key in the request counts as
  no match.
\<close>

definition try_decrypt_login :: "crypto_lib \<Rightarrow> bytes \<Rightarrow> bytes \<Rightarrow> login_req option res" where
  "try_decrypt_login C payload room_seed =
     (if too_short ANON_REQ_HEADER_SIZE payload then Inr None
      else
        let client_pub_key = py_slice DEST_HASH_SIZE (DEST_HASH_SIZE + PUB_KEY_SIZE) payload;
            sealed = drop ANON_REQ_HEADER_SIZE payload in
        case calc_shared_secret C room_seed client_pub_key of
          Inl e \<Rightarrow> Inr None
        | Inr shared \<Rightarrow>
            bindR (mac_then_decrypt C shared sealed) (\<lambda>r.
            case r of
              None \<Rightarrow> Inr None
            | Some plaintext \<Rightarrow>
                if length plaintext < TIMESTAMP_SIZE + SYNC_SINCE_SIZE then Inr None
                else Inr (Some \<lparr>
                  lg_client_pub_key = client_pub_key,
                  lg_timestamp = from_bytes_le (take TIMESTAMP_SIZE plaintext),
                  lg_sync_since = from_bytes_le (py_slice TIMESTAMP_SIZE (TIMESTAMP_SIZE + SYNC_SINCE_SIZE) plaintext),
                  lg_password = utf8_decode (before_nul (drop (TIMESTAMP_SIZE + SYNC_SINCE_SIZE) plaintext)) \<rparr>)))"

section \<open>Login response\<close>

definition build_login_response_inner :: "bytes \<Rightarrow> int \<Rightarrow> bool \<Rightarrow> int \<Rightarrow> bytes option \<Rightarrow> bytes res" where
  "build_login_response_inner urandom4 server_ts is_admin permissions random_blob =
     (let blob = (case random_blob of None \<Rightarrow> urandom4 | Some b \<Rightarrow> b) in
      bindR (to_bytes_le TIMESTAMP_SIZE server_ts) (\<lambda>ts.
      Inr (ts @ [word_of_int RESP_SERVER_LOGIN_OK, 0x00, (if is_admin then 1 else 0),
                 word_of_int (permissions AND 0xFF)] @ blob @ [word_of_int FIRMWARE_VER_LEVEL])))"

definition build_login_response_payload ::
    "crypto_lib \<Rightarrow> bytes \<Rightarrow> bytes \<Rightarrow> int \<Rightarrow> int \<Rightarrow> int \<Rightarrow> bool \<Rightarrow> int \<Rightarrow> bytes option \<Rightarrow> bytes res" where
  "build_login_response_payload C urandom4 shared_secret dest_hash src_hash server_ts is_admin permissions random_blob =
     bindR (build_login_response_inner urandom4 server_ts is_admin permissions random_blob) (\<lambda>inner.
     bindR (encrypt_then_mac C shared_secret inner) (\<lambda>sealed.
     Inr (hash_header dest_hash src_hash @ sealed)))"

definition build_login_response_packet ::
    "crypto_lib \<Rightarrow> bytes \<Rightarrow> bytes \<Rightarrow> int \<Rightarrow> int \<Rightarrow> int \<Rightarrow> bool \<Rightarrow> int \<Rightarrow> bytes option
       \<Rightarrow> route_type \<Rightarrow> bytes \<Rightarrow> int \<Rightarrow> packet res" where
  "build_login_response_packet C urandom4 shared_secret dest_hash src_hash server_ts is_admin permissions
       random_blob route_type path hash_size =
     bindR (build_login_response_payload C urandom4 shared_secret dest_hash src_hash server_ts is_admin
              permissions random_blob)
       (\<lambda>payload. Inr (make_packet route_type RESPONSE path payload hash_size))"

definition try_decrypt_login_response :: "crypto_lib \<Rightarrow> bytes \<Rightarrow> bytes \<Rightarrow> login_response option res" where
  "try_decrypt_login_response C payload shared_secret =
     (if too_short DATAGRAM_HEADER_SIZE payload then Inr None
      else
        bindR (mac_then_decrypt C shared_secret (drop DATAGRAM_HEADER_SIZE payload)) (\<lambda>r.
        case r of
          None \<Rightarrow> Inr None
        | Some plaintext \<Rightarrow>
            if length plaintext < 8 then Inr None
            else Inr (Some \<lparr>
              lr_server_ts = from_bytes_le (take TIMESTAMP_SIZE plaintext),
              lr_status = uint (plaintext ! 4),
              lr_is_admin = (plaintext ! 6 \<noteq> 0),
              lr_permissions = uint (plaintext ! 7) \<rparr>)))"

section \<open>Pushed posts\<close>

definition room_push_inner_through_text :: "int \<Rightarrow> int \<Rightarrow> bytes \<Rightarrow> ustring \<Rightarrow> bytes res" where
  "room_push_inner_through_text post_ts attempt author_pub_key text =
     bindR (to_bytes_le TIMESTAMP_SIZE post_ts) (\<lambda>ts.
     bindR (byte_of (encode_flags_byte attempt TXT_TYPE_SIGNED_PLAIN)) (\<lambda>fl.
     bindR (utf8_encode text) (\<lambda>tx.
     Inr (ts @ [fl] @ take AUTHOR_PREFIX_SIZE author_pub_key @ tx))))"

definition build_room_push_inner :: "int \<Rightarrow> int \<Rightarrow> bytes \<Rightarrow> ustring \<Rightarrow> bytes res" where
  "build_room_push_inner post_ts attempt author_pub_key text =
     bindR (room_push_inner_through_text post_ts attempt author_pub_key text) (\<lambda>p. Inr (p @ [0]))"

definition room_push_ack_hash :: "crypto_lib \<Rightarrow> int \<Rightarrow> int \<Rightarrow> bytes \<Rightarrow> ustring \<Rightarrow> bytes \<Rightarrow> bytes res" where
  "room_push_ack_hash C post_ts attempt author_pub_key text dest_pub_key =
     bindR (room_push_inner_through_text post_ts attempt author_pub_key text) (\<lambda>inner.
     Inr (take ACK_HASH_SIZE (sha256 C (inner @ dest_pub_key))))"

definition build_room_push_payload ::
    "crypto_lib \<Rightarrow> bytes \<Rightarrow> int \<Rightarrow> int \<Rightarrow> int \<Rightarrow> bytes \<Rightarrow> ustring \<Rightarrow> int \<Rightarrow> bytes res" where
  "build_room_push_payload C shared_secret dest_hash room_hash post_ts author_pub_key text attempt =
     bindR (build_room_push_inner post_ts attempt author_pub_key text) (\<lambda>inner.
     bindR (encrypt_then_mac C shared_secret inner) (\<lambda>sealed.
     Inr (hash_header dest_hash room_hash @ sealed)))"

definition build_room_push_packet ::
    "crypto_lib \<Rightarrow> bytes \<Rightarrow> bytes \<Rightarrow> bytes \<Rightarrow> int \<Rightarrow> bytes \<Rightarrow> ustring \<Rightarrow> int \<Rightarrow> route_type \<Rightarrow> bytes \<Rightarrow> int \<Rightarrow> packet res" where
  "build_room_push_packet C shared_secret dest_pub_key room_pub_key post_ts author_pub_key text attempt
       route_type path hash_size =
     bindR (path_hash dest_pub_key) (\<lambda>dest_hash.
     bindR (path_hash room_pub_key) (\<lambda>room_hash.
     bindR (build_room_push_payload C shared_secret dest_hash room_hash post_ts author_pub_key text attempt)
       (\<lambda>payload. Inr (make_packet route_type TXT_MSG path payload hash_size))))"

definition try_decrypt_room_push :: "crypto_lib \<Rightarrow> bytes \<Rightarrow> bytes \<Rightarrow> room_push option res" where
  "try_decrypt_room_push C payload shared_secret =
     (if too_short DATAGRAM_HEADER_SIZE payload then Inr None
      else
        bindR (mac_then_decrypt C shared_secret (drop DATAGRAM_HEADER_SIZE payload)) (\<lambda>r.
        case r of
          None \<Rightarrow> Inr None
        | Some plaintext \<Rightarrow>
            if length plaintext < TIMESTAMP_SIZE + 1 + AUTHOR_PREFIX_SIZE then Inr None
            else
              let flags = plaintext ! TIMESTAMP_SIZE;
                  off = TIMESTAMP_SIZE + 1 in
              Inr (Some \<lparr>
                rp_post_ts = from_bytes_le (take TIMESTAMP_SIZE plaintext),
                rp_attempt = uint flags AND 0x03,
                rp_author_prefix = py_slice off (off + AUTHOR_PREFIX_SIZE) plaintext,
                rp_text = utf8_decode (before_nul (drop (off + AUTHOR_PREFIX_SIZE) plaintext)) \<rparr>)))"

text \<open>The body of the push loop: the timestamp stays, only the two-bit attempt counter varies.\<close>

definition send_push ::
    "crypto_lib \<Rightarrow> bytes \<Rightarrow> bytes \<Rightarrow> bytes \<Rightarrow> int \<Rightarrow> bytes \<Rightarrow> ustring \<Rightarrow> int \<Rightarrow> attempt \<Rightarrow> (bytes \<times> bytes) res" where
  "send_push C shared_secret dest_pub_key room_pub_key post_ts author_pub_key text attempt a =
     (let (route_type, path, hash_size) = a; wire_attempt = attempt AND 0x03 in
      bindR (build_room_push_packet C shared_secret dest_pub_key room_pub_key post_ts author_pub_key text
               wire_attempt route_type path hash_size) (\<lambda>pkt.
      bindR (room_push_ack_hash C post_ts wire_attempt author_pub_key text dest_pub_key) (\<lambda>ack_hash.
      bindR (encode_packet pkt) (\<lambda>wire. Inr (wire, ack_hash)))))"

definition deliver_room_push_with_ack ::
    "crypto_lib \<Rightarrow> (bytes \<Rightarrow> ('w, unit) io) \<Rightarrow> (bytes \<Rightarrow> rat \<Rightarrow> ('w, bool) io) \<Rightarrow> bytes \<Rightarrow> bytes \<Rightarrow> bytes
       \<Rightarrow> int \<Rightarrow> bytes \<Rightarrow> ustring \<Rightarrow> bytes \<Rightarrow> int \<Rightarrow> int \<Rightarrow> int \<Rightarrow> rat \<Rightarrow> ('w, delivery_result) io" where
  "deliver_room_push_with_ack C publish wait_for_ack shared_secret dest_pub_key room_pub_key post_ts
       author_pub_key text direct_path direct_hash_size direct_attempts flood_attempts ack_timeout_s w =
     (if direct_attempts < 0 \<or> flood_attempts < 0 then (Inl ValueError, w)
      else
        let attempts = attempt_plan direct_path direct_hash_size direct_attempts flood_attempts in
        if attempts = [] then (Inl ValueError, w)
        else deliver_loop (send_push C shared_secret dest_pub_key room_pub_key post_ts author_pub_key text)
               publish wait_for_ack ack_timeout_s 0 attempts None w)"

section \<open>Facts\<close>

text \<open>A sealed inner message behind the login header.\<close>

lemma open_login_datagram:
  assumes "crypto_laws C" "16 \<le> length k" "p \<noteq> []" "encrypt_then_mac C k p = Inr s" "length pub = 32"
  obtains n where "\<not> too_short 33 ([h] @ pub @ s)" "py_slice 1 33 ([h] @ pub @ s) = pub"
    "drop 33 ([h] @ pub @ s) = s" "mac_then_decrypt C k s = Inr (Some (p @ replicate n 0))"
proof -
  have "good_key (C, k)" using assms(1,2) by (simp add: good_key_def)
  then obtain n where "length ([h] @ pub) + 18 \<le> length (([h] @ pub) @ s)"
    "mac_then_decrypt C k s = Inr (Some (p @ replicate n 0))"
    using aes_box.open_datagram [of "(C, k)" p s "[h] @ pub"] assms(3,4) by auto
  then show thesis using assms(5) by (intro that) (simp_all add: too_short_def msg_consts py_slice_def)
qed

lemma login_key_length:
  "try_decrypt_login C payload seed = Inr (Some req) \<Longrightarrow> length (lg_client_pub_key req) = 32"
  by (auto simp: try_decrypt_login_def too_short_def room_consts py_slice_def Let_def
      split: if_splits sum.splits option.splits)

lemma login_secret:
  "try_decrypt_login C payload seed = Inr (Some req) \<Longrightarrow>
    \<exists>shared. calc_shared_secret C seed (lg_client_pub_key req) = Inr shared"
  by (auto simp: try_decrypt_login_def Let_def split: if_splits sum.splits option.splits)

lemma room_push_inner_Inr:
  assumes "room_push_inner_through_text ts attempt author body = Inr p"
  obtains tb fl tx where "p = tb @ [fl] @ take 4 author @ tx" "to_bytes_le 4 ts = Inr tb" "length tb = 4"
    "byte_of (encode_flags_byte attempt TXT_TYPE_SIGNED_PLAIN) = Inr fl" "utf8_encode body = Inr tx"
  using assms to_bytes_le_length [of 4 ts] by (auto simp: room_push_inner_through_text_def room_consts)

lemma room_push_inner_total:
  "0 \<le> ts \<Longrightarrow> ts < 2 ^ 32 \<Longrightarrow> encodable body \<Longrightarrow>
    \<exists>p. room_push_inner_through_text ts attempt author body = Inr p"
  using byte_of_flags_byte [of TXT_TYPE_SIGNED_PLAIN attempt] utf8_encode_Inr [of body]
  by (auto simp: room_push_inner_through_text_def room_consts to_bytes_le_def)

lemma build_room_push_payload_total:
  assumes "16 \<le> length k" "0 \<le> ts" "ts < 2 ^ 32" "encodable body"
  shows "\<exists>payload. build_room_push_payload C k dest room ts author body attempt = Inr payload"
proof -
  obtain p where "room_push_inner_through_text ts attempt author body = Inr p"
    using room_push_inner_total [OF assms(2-4)] by blast
  then show ?thesis using encrypt_then_mac_total [OF assms(1), of C "p @ [0]"]
    by (auto simp: build_room_push_payload_def build_room_push_inner_def)
qed

lemma try_decrypt_built_room_push:
  assumes C: "crypto_laws C" "16 \<le> length k" and author: "4 \<le> length author"
    and built: "build_room_push_payload C k dest room ts author body attempt = Inr payload"
    and enc: "utf8_encode body = Inr tx"
  shows "try_decrypt_room_push C payload k = Inr (Some \<lparr> rp_post_ts = ts, rp_attempt = attempt mod 4,
    rp_author_prefix = take 4 author, rp_text = utf8_decode (before_nul tx) \<rparr>)"
proof -
  obtain p s where p: "room_push_inner_through_text ts attempt author body = Inr p"
    and s: "encrypt_then_mac C k (p @ [0]) = Inr s" and payload: "payload = hash_header dest room @ s"
    using built by (auto simp: build_room_push_payload_def build_room_push_inner_def)
  obtain tb fl where p_eq: "p = tb @ [fl] @ take 4 author @ tx" and tb: "to_bytes_le 4 ts = Inr tb" "length tb = 4"
    and fl: "byte_of (encode_flags_byte attempt TXT_TYPE_SIGNED_PLAIN) = Inr fl"
    using p enc by (auto elim!: room_push_inner_Inr)
  obtain n where short: "\<not> too_short 2 payload"
    and opened: "mac_then_decrypt C k s = Inr (Some ((p @ [0]) @ replicate n 0))"
    using open_hash_datagram [OF C _ s, of dest room] payload by auto
  let ?q = "(p @ [0]) @ replicate n 0"
  have a: "length (take 4 author) = 4" using author by simp
  have "take 4 ?q = tb" "?q ! 4 = fl" "take 4 (drop 5 ?q) = take 4 author"
    "before_nul (drop 9 ?q) = before_nul tx" "\<not> length ?q < 9"
    using tb(2) a by (simp_all add: p_eq nth_append before_nul_first)
  moreover have "uint fl AND 3 = attempt mod 4"
    using flags_byte_fields(1) [OF fl] by (simp add: attempt_of_def msg_consts)
  ultimately show ?thesis
    using short opened payload from_to_bytes_le [OF tb(1)]
    by (simp add: try_decrypt_room_push_def room_consts py_slice_def Let_def)
qed

lemma send_push_mod4: "send_push C k dest room ts author body (i + 4) a = send_push C k dest room ts author body i a"
  by (simp add: send_push_def and_3)

lemma login_response_opens:
  assumes "crypto_laws C" "16 \<le> length k" "0 \<le> ts" "ts < 2 ^ 32"
  shows "\<exists>payload. build_login_response_payload C rnd k dest src ts admin perms blob = Inr payload \<and>
    try_decrypt_login_response C payload k = Inr (Some \<lparr> lr_server_ts = ts, lr_status = RESP_SERVER_LOGIN_OK,
      lr_is_admin = admin, lr_permissions = perms mod 256 \<rparr>)"
proof -
  have tb: "to_bytes_le 4 ts = Inr (le_bytes 4 ts)" using assms(3,4) by (simp add: to_bytes_le_def)
  let ?rest = "(case blob of None \<Rightarrow> rnd | Some b \<Rightarrow> b) @ [1]"
  let ?inner = "le_bytes 4 ts @ [0, 0, if admin then 1 else 0, word_of_int (perms mod 256)] @ ?rest"
  have inner: "build_login_response_inner rnd ts admin perms blob = Inr ?inner"
    by (simp add: build_login_response_inner_def room_consts tb and_255)
  obtain s where s: "encrypt_then_mac C k ?inner = Inr s" using encrypt_then_mac_total [OF assms(2)] by blast
  obtain n where o: "\<not> too_short 2 (hash_header dest src @ s)"
      "mac_then_decrypt C k s = Inr (Some (?inner @ replicate n 0))"
    using open_hash_datagram [OF assms(1,2) _ s, of dest src] by auto
  have "try_decrypt_login_response C (hash_header dest src @ s) k = Inr (Some \<lparr> lr_server_ts = ts,
      lr_status = 0, lr_is_admin = admin, lr_permissions = perms mod 256 \<rparr>)"
    using o from_to_bytes_le [OF tb]
    by (simp add: try_decrypt_login_response_def room_consts nth_append uint_of_int_byte)
  then show ?thesis using inner s by (simp add: build_login_response_payload_def room_consts)
qed

lemma login_request_opens:
  assumes "crypto_laws C" "dh_law C room_seed client_seed secret" "length room_seed = 32" "length client_seed = 32"
    and "0 \<le> ts" "ts < 2 ^ 32" "0 \<le> since" "since < 2 ^ 32" "encodable password" "0 \<notin> set password"
  shows "\<exists>payload.
    calc_shared_secret C client_seed (lib_ed25519_pub C room_seed) = Inr secret \<and>
    build_anon_login_payload C secret room_hash (lib_ed25519_pub C client_seed) ts since password = Inr payload \<and>
    try_decrypt_login C payload room_seed = Inr (Some \<lparr> lg_client_pub_key = lib_ed25519_pub C client_seed,
      lg_timestamp = ts, lg_sync_since = since, lg_password = password \<rparr>) \<and>
    payload \<noteq> [] \<and> uint (payload ! 0) = room_hash mod 256"
proof -
  let ?pub = "lib_ed25519_pub C client_seed"
  note agree = shared_secrets_agree [OF assms(1-4)]
  have pub: "length ?pub = 32" using assms(1,4) by (simp add: crypto_laws_def)
  have k: "16 \<le> length secret" using assms(2) by (simp add: dh_law_def)
  obtain pw where pw: "utf8_encode password = Inr pw" using utf8_encode_Inr assms(9) by blast
  have tb: "to_bytes_le 4 ts = Inr (le_bytes 4 ts)" "to_bytes_le 4 since = Inr (le_bytes 4 since)"
    using assms(5-8) by (simp_all add: to_bytes_le_def)
  let ?inner = "le_bytes 4 ts @ le_bytes 4 since @ pw @ [0]"
  have inner: "build_anon_login_inner ts since password = Inr ?inner"
    by (simp add: build_anon_login_inner_def room_consts tb pw)
  obtain s where s: "encrypt_then_mac C secret ?inner = Inr s" using encrypt_then_mac_total [OF k] by blast
  let ?h = "word_of_int (room_hash mod 256)"
  obtain n where o: "\<not> too_short 33 ([?h] @ ?pub @ s)" "py_slice 1 33 ([?h] @ ?pub @ s) = ?pub"
      "drop 33 ([?h] @ ?pub @ s) = s" "mac_then_decrypt C secret s = Inr (Some (?inner @ replicate n 0))"
    using open_login_datagram [OF assms(1) k _ s pub, of ?h] by auto
  have built: "build_anon_login_payload C secret room_hash ?pub ts since password = Inr ([?h] @ ?pub @ s)"
    by (simp add: build_anon_login_payload_def room_consts pub inner s and_255)
  have pwd: "utf8_decode (before_nul (pw @ 0 # replicate n 0)) = password"
    using utf8_encode_no_nul [OF pw assms(10)] utf8_decode_encode [OF pw] by (simp add: before_nul_first before_nul_id)
  have "try_decrypt_login C ([?h] @ ?pub @ s) room_seed = Inr (Some \<lparr> lg_client_pub_key = ?pub,
      lg_timestamp = ts, lg_sync_since = since, lg_password = password \<rparr>)"
    using o agree(1) from_to_bytes_le [OF tb(1)] from_to_bytes_le [OF tb(2)]
    by (simp add: try_decrypt_login_def room_consts pwd py_slice_def)
  moreover have "uint (([?h] @ ?pub @ s) ! 0) = room_hash mod 256" by (simp add: uint_of_int_byte)
  ultimately show ?thesis using agree(2) built by blast
qed

section \<open>The push sender\<close>

definition good_push :: "crypto_lib \<times> bytes \<times> bytes \<times> bytes \<times> int \<times> bytes \<times> ustring \<Rightarrow> nat \<Rightarrow> attempt \<Rightarrow> bool" where
  "good_push p i a =
     (case (p, a) of ((C, k, dest, room, ts, author, body), (r, path, hs)) \<Rightarrow>
        16 \<le> length k \<and> dest \<noteq> [] \<and> room \<noteq> [] \<and> encodable body \<and> 0 \<le> ts \<and> ts < 2 ^ 32 \<and>
        r \<in> {DIRECT, FLOOD} \<and> path_ok hs path)"

definition send_push_of ::
    "crypto_lib \<times> bytes \<times> bytes \<times> bytes \<times> int \<times> bytes \<times> ustring \<Rightarrow> int \<Rightarrow> attempt \<Rightarrow> (bytes \<times> bytes) res" where
  "send_push_of p = (case p of (C, k, dest, room, ts, author, body) \<Rightarrow> send_push C k dest room ts author body)"

lemma send_push_total:
  assumes "16 \<le> length k" "dest \<noteq> []" "room \<noteq> []" "encodable body" "0 \<le> ts" "ts < 2 ^ 32"
    and "r \<in> {DIRECT, FLOOD}" "path_ok hs path"
  shows "\<exists>wa. send_push C k dest room ts author body i (r, path, hs) = Inr wa"
proof -
  obtain dh rh where h: "path_hash dest = Inr dh" "path_hash room = Inr rh"
    using path_hash_total assms(2,3) by blast
  obtain payload where b: "build_room_push_payload C k dh rh ts author body (i AND 3) = Inr payload"
    using build_room_push_payload_total [OF assms(1,5,6,4)] by blast
  obtain p where a: "room_push_inner_through_text ts (i AND 3) author body = Inr p"
    using room_push_inner_total [OF assms(5,6,4)] by blast
  obtain w where "encode_packet (make_packet r TXT_MSG path payload hs) = Inr w"
    using encode_made_packet [OF assms(7,8)] by blast
  then show ?thesis using h b a by (simp add: send_push_def build_room_push_packet_def room_push_ack_hash_def)
qed

interpretation push_sender: retry_sender good_push send_push_of
proof
  fix p i a
  assume "good_push p i a"
  then show "\<exists>wa. send_push_of p (int i) a = Inr wa"
    using send_push_total by (auto simp: good_push_def send_push_of_def split: prod.splits)
qed

lemma good_pushI:
  assumes "16 \<le> length k" "dest \<noteq> []" "room \<noteq> []" "encodable body" "0 \<le> ts" "ts < 2 ^ 32"
    and "\<exists>r pa h. a = (r, pa, h) \<and> r \<in> {DIRECT, FLOOD} \<and> path_ok h pa"
  shows "good_push (C, k, dest, room, ts, author, body) j a"
proof -
  obtain r pa h where "a = (r, pa, h)" "r \<in> {DIRECT, FLOOD}" "path_ok h pa" using assms(7) by blast
  then show ?thesis unfolding good_push_def using assms(1-6) by (simp only: prod.case simp_thms)
qed

lemma deliver_room_push_checks:
  assumes "0 \<le> da" "0 \<le> fa" "attempt_plan path hs da fa \<noteq> []"
  shows "deliver_room_push_with_ack C publish wait k dest room ts author body path hs da fa timeout w =
    deliver_loop (send_push C k dest room ts author body) publish wait timeout 0 (attempt_plan path hs da fa) None w"
proof -
  have c: "\<not> (da < 0 \<or> fa < 0)" using assms(1,2) by simp
  show ?thesis unfolding deliver_room_push_with_ack_def Let_def if_not_P [OF c] if_not_P [OF assms(3)] ..
qed

section \<open>Properties\<close>

text \<open>
  A client logs in with its own key only. The request a client seals under the secret
  it shares with the room is opened by the room from the seed alone: the room recovers the client's
  public key from the request, derives the same secret and reads the timestamp, the sync point and
  the password.
\<close>

lemma login_request_roundtrip:
  assumes "crypto_laws C" "dh_law C room_seed client_seed secret" "length room_seed = 32" "length client_seed = 32"
    and "0 \<le> ts" "ts < 2 ^ 32" "0 \<le> since" "since < 2 ^ 32" "encodable password" "0 \<notin> set password"
  shows "\<exists>payload.
    calc_shared_secret C client_seed (lib_ed25519_pub C room_seed) = Inr secret \<and>
    build_anon_login_payload C secret room_hash (lib_ed25519_pub C client_seed) ts since password = Inr payload \<and>
    try_decrypt_login C payload room_seed = Inr (Some \<lparr> lg_client_pub_key = lib_ed25519_pub C client_seed,
      lg_timestamp = ts, lg_sync_since = since, lg_password = password \<rparr>)"
  using login_request_opens [OF assms, of room_hash] by blast

lemma login_request_roundtrip_witness:
  "\<exists>payload.
    calc_shared_secret demo_lib (replicate 32 5) (lib_ed25519_pub demo_lib (replicate 32 2)) = Inr (map2 (+) (replicate 32 2) (replicate 32 5)) \<and>
    build_anon_login_payload demo_lib (map2 (+) (replicate 32 2) (replicate 32 5)) 2 (lib_ed25519_pub demo_lib (replicate 32 5)) 1700000000 0 [112, 119] = Inr payload \<and>
    try_decrypt_login demo_lib payload (replicate 32 2) = Inr (Some \<lparr> lg_client_pub_key = lib_ed25519_pub demo_lib (replicate 32 5),
      lg_timestamp = 1700000000, lg_sync_since = 0, lg_password = [112, 119] \<rparr>)"
  by (rule login_request_roundtrip [OF demo_lib_laws demo_lib_dh])
    (simp_all add: encodable_def surrogate_def)

text \<open>
  Nobody crashes the login handler. Whatever bytes arrive as a login request, with any
  key in them, parsing them returns a request or \<open>None\<close>, provided X25519 gives 32-byte secrets.
\<close>

lemma login_request_never_raises:
  assumes "x25519_law C"
  shows "\<exists>r. try_decrypt_login C payload room_seed = Inr r"
proof (cases "calc_shared_secret C room_seed (py_slice 1 33 payload)")
  case (Inr shared)
  have "16 \<le> length shared" using shared_secret_length [OF assms Inr] by simp
  then obtain r where "mac_then_decrypt C shared (drop 33 payload) = Inr r"
    using mac_then_decrypt_total by blast
  then show ?thesis using Inr by (auto simp: try_decrypt_login_def room_consts Let_def split: option.splits)
qed (simp add: try_decrypt_login_def room_consts Let_def)

lemma login_request_never_raises_witness: "\<exists>r. try_decrypt_login demo_lib (replicate 60 255) (replicate 32 1) = Inr r"
  by (rule login_request_never_raises) (rule demo_lib_x25519)

text \<open>
  The login response survives the trip: server time, the login-OK status, the admin
  flag and the low byte of the permissions, whatever the random blob.
\<close>

lemma login_response_roundtrip:
  assumes "crypto_laws C" "16 \<le> length k" "0 \<le> ts" "ts < 2 ^ 32"
  shows "\<exists>payload. build_login_response_payload C rnd k dest src ts admin perms blob = Inr payload \<and>
    try_decrypt_login_response C payload k = Inr (Some \<lparr> lr_server_ts = ts, lr_status = RESP_SERVER_LOGIN_OK,
      lr_is_admin = admin, lr_permissions = perms mod 256 \<rparr>)"
  by (rule login_response_opens [OF assms])

lemma login_response_roundtrip_witness:
  "\<exists>payload. build_login_response_payload demo_lib [1, 2, 3, 4] (replicate 32 9) 7 8 1700000000 True 3 None = Inr payload \<and>
    try_decrypt_login_response demo_lib payload (replicate 32 9) = Inr (Some \<lparr> lr_server_ts = 1700000000,
      lr_status = RESP_SERVER_LOGIN_OK, lr_is_admin = True, lr_permissions = 3 mod 256 \<rparr>)"
  by (rule login_response_roundtrip) (simp_all add: demo_lib_laws)

text \<open>
  A pushed post survives the trip, and both ends agree on its acknowledgement: the
  client reads the room's timestamp, the author's prefix and the text, and the ACK hash it computes
  from what it read, with its own public key, is the one the room waits for.
\<close>

lemma room_push_roundtrip:
  assumes "crypto_laws C" "16 \<le> length k" "4 \<le> length author"
    and "0 \<le> ts" "ts < 2 ^ 32" "encodable msg" "0 \<notin> set msg"
  shows "\<exists>payload m ack. build_room_push_payload C k dest room ts author msg attempt = Inr payload \<and>
    try_decrypt_room_push C payload k = Inr (Some m) \<and>
    m = \<lparr> rp_post_ts = ts, rp_attempt = attempt mod 4, rp_author_prefix = take 4 author, rp_text = msg \<rparr> \<and>
    room_push_ack_hash C ts attempt author msg client_pub = Inr ack \<and>
    room_push_ack_hash C (rp_post_ts m) (rp_attempt m) (rp_author_prefix m) (rp_text m) client_pub = Inr ack"
proof -
  obtain tx where tx: "utf8_encode msg = Inr tx" using utf8_encode_Inr assms(6) by blast
  obtain payload where b: "build_room_push_payload C k dest room ts author msg attempt = Inr payload"
    using build_room_push_payload_total assms by blast
  obtain p where p: "room_push_inner_through_text ts attempt author msg = Inr p"
    using room_push_inner_total [OF assms(4-6)] by blast
  have same: "room_push_inner_through_text ts (attempt mod 4) (take 4 author) msg = Inr p"
    using p by (simp add: room_push_inner_through_text_def room_consts)
  have d: "utf8_decode (before_nul tx) = msg"
    using utf8_encode_no_nul [OF tx assms(7)] utf8_decode_encode [OF tx] by (simp add: before_nul_id)
  show ?thesis
    using b try_decrypt_built_room_push [OF assms(1-3) b tx] p same
    by (simp add: room_push_ack_hash_def d)
qed

lemma room_push_roundtrip_witness:
  "\<exists>payload m ack. build_room_push_payload demo_lib (replicate 32 9) 3 5 1700000000 (replicate 32 6) [104, 105] 5 = Inr payload \<and>
    try_decrypt_room_push demo_lib payload (replicate 32 9) = Inr (Some m) \<and>
    m = \<lparr> rp_post_ts = 1700000000, rp_attempt = 5 mod 4, rp_author_prefix = take 4 (replicate 32 6), rp_text = [104, 105] \<rparr> \<and>
    room_push_ack_hash demo_lib 1700000000 5 (replicate 32 6) [104, 105] (replicate 32 4) = Inr ack \<and>
    room_push_ack_hash demo_lib (rp_post_ts m) (rp_attempt m) (rp_author_prefix m) (rp_text m) (replicate 32 4) = Inr ack"
  by (rule room_push_roundtrip) (simp_all add: demo_lib_laws encodable_def surrogate_def)

text \<open>
  A push always returns and follows its plan of direct attempts and floods exactly as
  a text message does.
\<close>

lemma deliver_room_push_follows_plan:
  assumes "16 \<le> length k" "dest \<noteq> []" "room \<noteq> []" "encodable body"
    and "0 \<le> ts" "ts < 2 ^ 32" "0 \<le> da" "0 \<le> fa"
    and "path \<noteq> [] \<Longrightarrow> path_ok hs path" "attempt_plan path hs da fa \<noteq> []"
  shows "\<exists>sent m.
    builds (send_push C k dest room ts author body) (attempt_plan path hs da fa) sent \<and>
    delivered sent (attempt_plan path hs da fa) n m
      (deliver_room_push_with_ack C net_publish net_wait k dest room ts author body path hs da fa timeout n)"
proof -
  let ?plan = "attempt_plan path hs da fa" and ?p = "(C, k, dest, room, ts, author, body)"
  have good: "good_push ?p j (?plan ! j)" if j: "j < length ?plan" for j
    by (rule good_pushI [OF assms(1-6) attempt_plan_ok [OF j assms(9)]])
  have "deliver_room_push_with_ack C net_publish net_wait k dest room ts author body path hs da fa timeout n =
      deliver_loop (send_push C k dest room ts author body) net_publish net_wait timeout 0 ?plan None n"
    by (rule deliver_room_push_checks [OF assms(7,8,10)])
  then show ?thesis
    using push_sender.delivers [OF assms(10), of ?p n timeout, OF good] unfolding send_push_of_def prod.case
    by (simp only:)
qed

lemma deliver_room_push_follows_plan_witness:
  "\<exists>sent m.
    builds (send_push demo_lib (replicate 32 1) [7] [8] 1700000000 [1, 2, 3, 4] [104]) (attempt_plan [1, 2] 2 3 3) sent \<and>
    delivered sent (attempt_plan [1, 2] 2 3 3) \<lparr>net_answers = (\<lambda>n. n = 4), net_waits = 0, net_log = []\<rparr> m
      (deliver_room_push_with_ack demo_lib net_publish net_wait (replicate 32 1) [7] [8] 1700000000 [1, 2, 3, 4] [104] [1, 2] 2 3 3 8
         \<lparr>net_answers = (\<lambda>n. n = 4), net_waits = 0, net_log = []\<rparr>)"
  by (rule deliver_room_push_follows_plan) (simp_all add: encodable_def surrogate_def path_ok_def attempt_plan_def)

text \<open>
  The fifth transmission of a push repeats the first. The timestamp of a push is fixed
  and the attempt counter has two bits, so over the same route attempts \<open>n\<close> and \<open>n + 4\<close> are the same
  bytes with the same ACK hash, and over any two routes they carry the same payload: with the default
  of three direct attempts and three floods, the last two floods carry payloads already sent. (Text
  messages avoid this by moving the timestamp, see \<open>retries_never_repeat\<close>.)
\<close>

lemma push_attempts_repeat_after_four:
  "send_push C k dest room ts author body (n + 4) a = send_push C k dest room ts author body n a \<and>
   build_room_push_payload C k dh rh ts author body ((n + 4) AND 3) = build_room_push_payload C k dh rh ts author body (n AND 3)"
  using send_push_mod4 by (simp add: and_3)

end
