(* ===== verification/Advert.thy ===== *)
theory Advert
  imports PyFloat PyStr Crypto Bits
begin

unbundle bit_operations_syntax

text \<open>
  The advert codec (\<open>softmesh_stack/advert.py\<close>): the optional fields behind the flags byte and the
  signed envelope around them. Coordinates are doubles (\<open>PyFloat\<close>).
\<close>

section \<open>Data\<close>

definition ADVERT_TIMESTAMP_SIZE :: nat where "ADVERT_TIMESTAMP_SIZE = 4"
definition ADVERT_HEADER_SIZE :: nat where
  "ADVERT_HEADER_SIZE = PUB_KEY_SIZE + ADVERT_TIMESTAMP_SIZE + SIGNATURE_SIZE"
definition ADV_LATLON_MASK :: int where "ADV_LATLON_MASK = 0x10"
definition ADV_FEAT1_MASK :: int where "ADV_FEAT1_MASK = 0x20"
definition ADV_FEAT2_MASK :: int where "ADV_FEAT2_MASK = 0x40"
definition ADV_NAME_MASK :: int where "ADV_NAME_MASK = 0x80"
definition ADV_TYPE_MASK :: int where "ADV_TYPE_MASK = 0x0F"
definition LATLON_SCALE :: rat where "LATLON_SCALE = 1000000"

lemmas advert_consts = ADVERT_TIMESTAMP_SIZE_def ADVERT_HEADER_SIZE_def ADV_LATLON_MASK_def
  ADV_FEAT1_MASK_def ADV_FEAT2_MASK_def ADV_NAME_MASK_def ADV_TYPE_MASK_def LATLON_SCALE_def crypto_consts

text \<open>The values of \<open>AdvertType\<close>; the field itself stays an integer.\<close>

datatype advert_type = NONE | CHAT | REPEATER | ROOM | SENSOR

fun advert_type_val :: "advert_type \<Rightarrow> int" where
  "advert_type_val NONE = 0"
| "advert_type_val CHAT = 1"
| "advert_type_val REPEATER = 2"
| "advert_type_val ROOM = 3"
| "advert_type_val SENSOR = 4"

record advert_data =
  ad_type :: int
  ad_name :: ustring
  ad_lat :: "rat option"
  ad_lon :: "rat option"
  ad_feat1 :: "int option"
  ad_feat2 :: "int option"

record advertisement =
  av_pub_key :: bytes
  av_timestamp :: int
  av_signature :: bytes
  av_app_data :: advert_data
  av_raw_app_data :: bytes

section \<open>The application data\<close>

text \<open>\<open>round(x * LATLON_SCALE).to_bytes(4, "little", signed=True)\<close> and its inverse.\<close>

definition to_micro :: "rat \<Rightarrow> int" where
  "to_micro x = py_round (fl (x * LATLON_SCALE))"

definition from_micro :: "int \<Rightarrow> rat" where
  "from_micro v = fl (of_int v / LATLON_SCALE)"

text \<open>
  The optional parts of \<open>AdvertData.encode\<close>: each gives its flag and its bytes.
\<close>

definition encode_latlon :: "rat option \<Rightarrow> rat option \<Rightarrow> (int \<times> bytes) res" where
  "encode_latlon lat lon =
     (case (lat, lon) of
        (None, None) \<Rightarrow> Inr (0, [])
      | (Some la, Some lo) \<Rightarrow>
          bindR (to_bytes_le_signed 4 (to_micro la)) (\<lambda>a.
          bindR (to_bytes_le_signed 4 (to_micro lo)) (\<lambda>b. Inr (ADV_LATLON_MASK, a @ b)))
      | _ \<Rightarrow> Inl ValueError)"

definition encode_feat :: "int \<Rightarrow> int option \<Rightarrow> (int \<times> bytes) res" where
  "encode_feat flag feat =
     (case feat of
        None \<Rightarrow> Inr (0, [])
      | Some v \<Rightarrow> bindR (to_bytes_le 2 v) (\<lambda>b. Inr (flag, b)))"

definition encode_name :: "ustring \<Rightarrow> (int \<times> bytes) res" where
  "encode_name name =
     (if name = [] then Inr (0, []) else bindR (utf8_encode name) (\<lambda>b. Inr (ADV_NAME_MASK, b)))"

definition encode_advert_data :: "advert_data \<Rightarrow> bytes res" where
  "encode_advert_data d =
     bindR (encode_latlon (ad_lat d) (ad_lon d)) (\<lambda>(f1, b1).
     bindR (encode_feat ADV_FEAT1_MASK (ad_feat1 d)) (\<lambda>(f2, b2).
     bindR (encode_feat ADV_FEAT2_MASK (ad_feat2 d)) (\<lambda>(f3, b3).
     bindR (encode_name (ad_name d)) (\<lambda>(f4, b4).
     bindR (byte_of (((((ad_type d AND ADV_TYPE_MASK) OR f1) OR f2) OR f3) OR f4)) (\<lambda>flags.
     Inr ([flags] @ b1 @ b2 @ b3 @ b4))))))"

text \<open>The optional parts of \<open>AdvertData.decode\<close>, each from an offset, giving the next offset.\<close>

definition decode_latlon :: "int \<Rightarrow> bytes \<Rightarrow> nat \<Rightarrow> (rat option \<times> rat option \<times> nat) res" where
  "decode_latlon flags app_data i =
     (if flags AND ADV_LATLON_MASK \<noteq> 0 then
        if length app_data < i + 8 then Inl ValueError
        else Inr (Some (from_micro (from_bytes_le_signed (py_slice i (i + 4) app_data))),
                  Some (from_micro (from_bytes_le_signed (py_slice (i + 4) (i + 8) app_data))), i + 8)
      else Inr (None, None, i))"

definition decode_feat :: "int \<Rightarrow> int \<Rightarrow> bytes \<Rightarrow> nat \<Rightarrow> (int option \<times> nat) res" where
  "decode_feat mask_bit flags app_data i =
     (if flags AND mask_bit \<noteq> 0 then
        if length app_data < i + 2 then Inl ValueError
        else Inr (Some (from_bytes_le (py_slice i (i + 2) app_data)), i + 2)
      else Inr (None, i))"

definition decode_advert_data :: "bytes \<Rightarrow> advert_data res" where
  "decode_advert_data app_data =
     (if app_data = [] then Inl ValueError
      else
        let flags = uint (app_data ! 0) in
        bindR (decode_latlon flags app_data 1) (\<lambda>(lat, lon, i1).
        bindR (decode_feat ADV_FEAT1_MASK flags app_data i1) (\<lambda>(feat1, i2).
        bindR (decode_feat ADV_FEAT2_MASK flags app_data i2) (\<lambda>(feat2, i3).
        Inr \<lparr> ad_type = flags AND ADV_TYPE_MASK,
              ad_name = (if flags AND ADV_NAME_MASK \<noteq> 0 then utf8_decode (before_nul (drop i3 app_data)) else []),
              ad_lat = lat, ad_lon = lon, ad_feat1 = feat1, ad_feat2 = feat2 \<rparr>))))"

section \<open>The signed envelope\<close>

definition signed_message :: "advertisement \<Rightarrow> bytes res" where
  "signed_message a =
     bindR (to_bytes_le ADVERT_TIMESTAMP_SIZE (av_timestamp a)) (\<lambda>ts.
     Inr (av_pub_key a @ ts @ av_raw_app_data a))"

definition signature_valid :: "crypto_lib \<Rightarrow> advertisement \<Rightarrow> bool res" where
  "signature_valid C a =
     bindR (signed_message a) (\<lambda>msg. Inr (verify C (av_pub_key a) (av_signature a) msg))"

definition decode_advert :: "bytes \<Rightarrow> advertisement res" where
  "decode_advert payload =
     (if length payload < ADVERT_HEADER_SIZE then Inl ValueError
      else
        let pub_key = take PUB_KEY_SIZE payload;
            ts_off = PUB_KEY_SIZE;
            timestamp = from_bytes_le (py_slice ts_off (ts_off + ADVERT_TIMESTAMP_SIZE) payload);
            sig_off = ts_off + ADVERT_TIMESTAMP_SIZE;
            signature = py_slice sig_off (sig_off + SIGNATURE_SIZE) payload;
            raw_app_data = drop ADVERT_HEADER_SIZE payload in
        bindR (decode_advert_data raw_app_data) (\<lambda>app_data.
        Inr \<lparr> av_pub_key = pub_key, av_timestamp = timestamp, av_signature = signature,
              av_app_data = app_data, av_raw_app_data = raw_app_data \<rparr>))"

definition encode_advert :: "crypto_lib \<Rightarrow> bytes \<Rightarrow> bytes \<Rightarrow> int \<Rightarrow> advert_data \<Rightarrow> bytes res" where
  "encode_advert C identity_seed pub_key timestamp app_data =
     bindR (encode_advert_data app_data) (\<lambda>raw_app_data.
     bindR (to_bytes_le ADVERT_TIMESTAMP_SIZE timestamp) (\<lambda>ts.
     bindR (sign C identity_seed (pub_key @ ts @ raw_app_data)) (\<lambda>signature.
     Inr (pub_key @ ts @ signature @ raw_app_data))))"

section \<open>Facts\<close>

lemma advert_flags:
  fixes t :: int
  assumes "f1 = 0 \<or> f1 = 16" "f2 = 0 \<or> f2 = 32" "f3 = 0 \<or> f3 = 64" "f4 = 0 \<or> f4 = (128 :: int)"
    and F_def: "F = ((((t AND 15) OR f1) OR f2) OR f3) OR f4"
  shows "0 \<le> F" "F < 256" "F AND 15 = t mod 16" "F AND 16 = f1" "F AND 32 = f2" "F AND 64 = f3" "F AND 128 = f4"
proof -
  have t: "0 \<le> t AND 15" "t AND 15 < 2 ^ 8" using pos_mod_bound [of 16 t] by (simp_all add: and_15)
  have f: "0 \<le> f1" "f1 < 2 ^ 8" "0 \<le> f2" "f2 < 2 ^ 8" "0 \<le> f3" "f3 < 2 ^ 8" "0 \<le> f4" "f4 < 2 ^ 8"
    using assms(1-4) by auto
  show "0 \<le> F" using t(1) f by (simp add: F_def)
  have "F < 2 ^ 8" unfolding F_def using t f by (intro OR_upper) simp_all
  then show "F < 256" by simp
  note d = bit.conj_disj_distrib2 and.assoc
  have z: "t AND (15 AND 16) = 0" "t AND (15 AND 32) = 0" "t AND (15 AND 64) = 0" "t AND (15 AND 128) = 0" by simp_all
  show "F AND 16 = f1" "F AND 32 = f2" "F AND 64 = f3" "F AND 128 = f4"
    unfolding F_def using assms(1-4) z by (auto simp add: d)
  have "F AND 15 = t AND 15" unfolding F_def using assms(1-4) by (auto simp add: d)
  then show "F AND 15 = t mod 16" by (simp add: and_15)
qed

lemma encode_latlon_Inr:
  assumes "encode_latlon lat lon = Inr (f, b)"
  shows "f = 0 \<or> f = 16"
    and "flags AND 16 = f \<Longrightarrow> decode_latlon flags (pre @ b @ rest) (length pre) =
      Inr (map_option (from_micro \<circ> to_micro) lat, map_option (from_micro \<circ> to_micro) lon, length pre + length b)"
  using assms
  by (auto simp: encode_latlon_def decode_latlon_def advert_consts py_slice_def from_to_bytes_le_signed
      to_bytes_le_signed_length split: option.splits)

lemma encode_feat_Inr:
  assumes "encode_feat m feat = Inr (f, b)" "m \<noteq> 0"
  shows "f = 0 \<or> f = m"
    and "flags AND m = f \<Longrightarrow> decode_feat m flags (pre @ b @ rest) (length pre) = Inr (feat, length pre + length b)"
  using assms
  by (auto simp: encode_feat_def decode_feat_def py_slice_def from_to_bytes_le to_bytes_le_length
      split: option.splits)

lemma encode_name_Inr:
  assumes "encode_name name = Inr (f, b)" "0 \<notin> set name"
  shows "f = 0 \<or> f = 128"
    and "(if f \<noteq> 0 then utf8_decode (before_nul b) else []) = name"
  using assms utf8_encode_no_nul [of name] utf8_decode_encode [of name]
  by (auto simp: encode_name_def advert_consts before_nul_id split: if_splits)

text \<open>What the receiver reads of advert data: the type's low bits, coordinates in microdegrees.\<close>

definition as_received :: "advert_data \<Rightarrow> advert_data" where
  "as_received d = d\<lparr>ad_type := ad_type d mod 16,
     ad_lat := map_option (from_micro \<circ> to_micro) (ad_lat d),
     ad_lon := map_option (from_micro \<circ> to_micro) (ad_lon d)\<rparr>"

lemma decode_encoded_advert_data:
  assumes "encode_advert_data d = Inr b" "0 \<notin> set (ad_name d)"
  shows "decode_advert_data b = Inr (as_received d)"
proof -
  obtain f1 b1 f2 b2 f3 b3 f4 b4 fl where
    e: "encode_latlon (ad_lat d) (ad_lon d) = Inr (f1, b1)" "encode_feat 32 (ad_feat1 d) = Inr (f2, b2)"
      "encode_feat 64 (ad_feat2 d) = Inr (f3, b3)" "encode_name (ad_name d) = Inr (f4, b4)"
    and fl: "byte_of (((((ad_type d AND 15) OR f1) OR f2) OR f3) OR f4) = Inr fl"
    and b: "b = [fl] @ b1 @ b2 @ b3 @ b4"
    using assms(1) by (auto simp: encode_advert_data_def advert_consts)
  note l = encode_latlon_Inr [OF e(1)] and g1 = encode_feat_Inr [OF e(2)] and g2 = encode_feat_Inr [OF e(3)]
    and n = encode_name_Inr [OF e(4) assms(2)]
  have g: "f2 = 0 \<or> f2 = 32" "f3 = 0 \<or> f3 = 64" using g1(1) g2(1) by simp_all
  note F = advert_flags [OF l(1) g n(1) refl, of "ad_type d"]
  have u: "uint fl = ((((ad_type d AND 15) OR f1) OR f2) OR f3) OR f4" using uint_byte_of [OF fl] .
  note F' = F(3-7) [folded u]
  have 1: "decode_latlon (uint fl) b 1 = Inr (map_option (from_micro \<circ> to_micro) (ad_lat d),
      map_option (from_micro \<circ> to_micro) (ad_lon d), length ([fl] @ b1))"
    using l(2) [OF F'(2), of "[fl]" "b2 @ b3 @ b4"] by (simp add: b)
  have 2: "decode_feat 32 (uint fl) b (length ([fl] @ b1)) = Inr (ad_feat1 d, length ([fl] @ b1 @ b2))"
    using g1(2) [OF _ F'(3), of "[fl] @ b1" "b3 @ b4"] by (simp add: b)
  have 3: "decode_feat 64 (uint fl) b (length ([fl] @ b1 @ b2)) = Inr (ad_feat2 d, length ([fl] @ b1 @ b2 @ b3))"
    using g2(2) [OF _ F'(4), of "[fl] @ b1 @ b2" "b4"] by (simp add: b)
  have h: "b \<noteq> []" "b ! 0 = fl" "drop (length ([fl] @ b1 @ b2 @ b3)) b = b4" by (simp_all add: b)
  show ?thesis
    unfolding decode_advert_data_def advert_consts Let_def h(2) 1 bindR.simps prod.case 2 3 h(3) F'(1,5) n(2)
    using h(1) by (simp add: as_received_def)
qed

text \<open>A coordinate in microdegrees is exact: the two roundings never change it.\<close>

lemma to_from_micro:
  assumes "\<bar>v\<bar> \<le> 2 ^ 31"
  shows "to_micro (from_micro v) = v"
proof (cases "v = 0")
  case True
  then show ?thesis by (simp add: to_micro_def from_micro_def py_round_of_int [of 0, simplified])
next
  case False
  let ?v = "of_int v :: rat"
  have v: "1 \<le> \<bar>?v\<bar>" "\<bar>?v\<bar> \<le> 2 ^ 31"
    using False assms by (simp_all flip: of_int_abs)
  have small: "two_powi (- 1022) \<le> 1 / 2 ^ 30" unfolding two_powi_minus using two_powi_nat [of 1022] by simp
  define q where "q = ?v / 1000000"
  define a where "a = fl q * 1000000"
  have q: "\<bar>q\<bar> = \<bar>?v\<bar> / 1000000" by (simp add: q_def)
  have "two_powi (- 1022) \<le> \<bar>q\<bar>" using small v(1) unfolding q by simp
  then have "\<bar>fl q - q\<bar> \<le> \<bar>q\<bar> / 2 ^ 53" by (rule fl_error)
  then have e: "\<bar>fl q - q\<bar> * 1000000 \<le> \<bar>?v\<bar> / 2 ^ 53" by (simp add: q)
  have "a - ?v = (fl q - q) * 1000000" by (simp add: a_def q_def algebra_simps)
  then have "\<bar>a - ?v\<bar> = \<bar>fl q - q\<bar> * 1000000" by (simp only: abs_mult abs_numeral)
  with e have ea: "\<bar>a - ?v\<bar> \<le> \<bar>?v\<bar> / 2 ^ 53" by (simp only:)
  moreover have "\<bar>?v\<bar> / 2 ^ 53 \<le> 1/4" using v(2) by simp
  ultimately have d: "\<bar>a - ?v\<bar> \<le> 1/4" by (rule order_trans)
  have p: "(2 :: rat) ^ 31 + 1 \<le> 2 ^ 32" by simp
  have a: "\<bar>a\<bar> \<le> 2 ^ 32" "1/2 \<le> \<bar>a\<bar>" using d v p by arith+
  have "(1 :: rat) / 2 ^ 30 \<le> 1/2" by simp
  then have "two_powi (- 1022) \<le> \<bar>a\<bar>" using small a(2) by (meson order_trans)
  then have "\<bar>fl a - a\<bar> \<le> \<bar>a\<bar> / 2 ^ 53" by (rule fl_error)
  moreover have "\<bar>a\<bar> / 2 ^ 53 < 1/4" using a(1) by simp
  ultimately have "\<bar>fl a - ?v\<bar> < 1/2" using d by linarith
  then have "py_round (fl a) = v" by (rule py_round_unique)
  then show ?thesis by (simp add: to_micro_def from_micro_def LATLON_SCALE_def a_def q_def)
qed

lemma decode_advert_parts:
  assumes "length pub = 32" "length ts = 4" "length sig = 64" "decode_advert_data raw = Inr d"
  shows "decode_advert (pub @ ts @ sig @ raw) = Inr \<lparr> av_pub_key = pub, av_timestamp = from_bytes_le ts,
    av_signature = sig, av_app_data = d, av_raw_app_data = raw \<rparr>"
  using assms by (simp add: decode_advert_def advert_consts py_slice_def Let_def)

text \<open>Advert data that fits the wire format: both coordinates or none, every field in range.\<close>

definition valid_advert_data :: "advert_data \<Rightarrow> bool" where
  "valid_advert_data d \<longleftrightarrow>
     (case (ad_lat d, ad_lon d) of
        (None, None) \<Rightarrow> True
      | (Some la, Some lo) \<Rightarrow> to_micro la \<in> {- (2 ^ 31)..<2 ^ 31} \<and> to_micro lo \<in> {- (2 ^ 31)..<2 ^ 31}
      | _ \<Rightarrow> False) \<and>
     pred_option (\<lambda>v. 0 \<le> v \<and> v < 2 ^ 16) (ad_feat1 d) \<and> pred_option (\<lambda>v. 0 \<le> v \<and> v < 2 ^ 16) (ad_feat2 d) \<and>
     encodable (ad_name d) \<and> 0 \<notin> set (ad_name d)"

lemma encode_advert_data_total:
  assumes "valid_advert_data d"
  shows "\<exists>b. encode_advert_data d = Inr b"
proof -
  obtain f1 b1 where 1: "encode_latlon (ad_lat d) (ad_lon d) = Inr (f1, b1)"
    using assms by (auto simp: valid_advert_data_def encode_latlon_def to_bytes_le_signed_def split: option.splits)
  have f: "pred_option (\<lambda>v. 0 \<le> v \<and> v < 2 ^ 16) v \<Longrightarrow> \<exists>r. encode_feat m v = Inr r" for m v
    by (cases v) (auto simp: encode_feat_def to_bytes_le_def)
  obtain f2 b2 f3 b3 where 2: "encode_feat 32 (ad_feat1 d) = Inr (f2, b2)" "encode_feat 64 (ad_feat2 d) = Inr (f3, b3)"
    using f assms by (fastforce simp: valid_advert_data_def)
  obtain tx where "utf8_encode (ad_name d) = Inr tx"
    using assms utf8_encode_Inr by (auto simp: valid_advert_data_def)
  then have "\<exists>r. encode_name (ad_name d) = Inr r" by (simp add: encode_name_def)
  then obtain f4 b4 where 4: "encode_name (ad_name d) = Inr (f4, b4)" by auto
  have "0 \<notin> set (ad_name d)" using assms by (simp add: valid_advert_data_def)
  note n = encode_name_Inr(1) [OF 4 this]
  have g: "f2 = 0 \<or> f2 = 32" "f3 = 0 \<or> f3 = 64"
    using encode_feat_Inr(1) [OF 2(1)] encode_feat_Inr(1) [OF 2(2)] by simp_all
  show ?thesis
    using advert_flags(1,2) [OF encode_latlon_Inr(1) [OF 1] g n refl, of "ad_type d"] 1 2 4
    by (simp add: encode_advert_data_def advert_consts byte_of_def)
qed

lemma encoded_advert_opens:
  assumes "crypto_laws C" "length seed = 32" "0 \<le> ts" "ts < 2 ^ 32" "valid_advert_data d"
  shows "\<exists>payload a. encode_advert C seed (lib_ed25519_pub C seed) ts d = Inr payload \<and>
    decode_advert payload = Inr a \<and> av_pub_key a = lib_ed25519_pub C seed \<and>
    av_timestamp a = ts \<and> av_app_data a = as_received d \<and> signature_valid C a = Inr True"
proof -
  let ?pub = "lib_ed25519_pub C seed"
  obtain raw where raw: "encode_advert_data d = Inr raw" using encode_advert_data_total assms(5) by blast
  have nul: "0 \<notin> set (ad_name d)" using assms(5) by (simp add: valid_advert_data_def)
  let ?tb = "le_bytes 4 ts"
  have tb: "to_bytes_le 4 ts = Inr ?tb" using assms(3,4) by (simp add: to_bytes_le_def)
  let ?msg = "?pub @ ?tb @ raw"
  have l: "length ?pub = 32" "length ?tb = 4" "length (lib_ed25519_sign C seed ?msg) = 64"
    "lib_ed25519_verify C ?pub (lib_ed25519_sign C seed ?msg) ?msg"
    using assms(1,2) by (simp_all add: crypto_laws_def)
  have e: "encode_advert C seed ?pub ts d = Inr (?pub @ ?tb @ lib_ed25519_sign C seed ?msg @ raw)"
    using assms(2) by (simp add: encode_advert_def advert_consts sign_def raw tb)
  note d = decode_advert_parts [OF l(1-3) decode_encoded_advert_data [OF raw nul], unfolded from_to_bytes_le [OF tb]]
  show ?thesis unfolding e using d l tb
    by (simp add: signature_valid_def signed_message_def verify_def advert_consts)
qed

section \<open>Properties\<close>

text \<open>
  A signed advert survives the trip and verifies. Data that fits the wire format
  encodes, and decodes to the same public key and timestamp, the same name and features, the type's
  low four bits and the coordinates in microdegrees; the signature over the received bytes is valid.
\<close>

lemma advert_roundtrip:
  assumes "crypto_laws C" "length seed = 32" "0 \<le> ts" "ts < 2 ^ 32" "valid_advert_data d"
  shows "\<exists>payload a. encode_advert C seed (lib_ed25519_pub C seed) ts d = Inr payload \<and>
    decode_advert payload = Inr a \<and> av_pub_key a = lib_ed25519_pub C seed \<and>
    av_timestamp a = ts \<and> av_app_data a = as_received d \<and> signature_valid C a = Inr True"
  by (rule encoded_advert_opens [OF assms])

lemma advert_roundtrip_witness:
  "\<exists>payload a. encode_advert demo_lib (replicate 32 7) (lib_ed25519_pub demo_lib (replicate 32 7)) 1700000000
      \<lparr> ad_type = 3, ad_name = [104, 105], ad_lat = Some (from_micro 52370216), ad_lon = Some (from_micro 4895168),
        ad_feat1 = None, ad_feat2 = Some 9 \<rparr> = Inr payload \<and>
    decode_advert payload = Inr a \<and> av_pub_key a = lib_ed25519_pub demo_lib (replicate 32 7) \<and>
    av_timestamp a = 1700000000 \<and> av_app_data a = as_received
      \<lparr> ad_type = 3, ad_name = [104, 105], ad_lat = Some (from_micro 52370216), ad_lon = Some (from_micro 4895168),
        ad_feat1 = None, ad_feat2 = Some 9 \<rparr> \<and> signature_valid demo_lib a = Inr True"
  by (rule advert_roundtrip)
    (simp_all add: demo_lib_laws valid_advert_data_def to_from_micro encodable_def surrogate_def)

text \<open>
  Coordinates are exact on the wire's grid. For every signed 32-bit count of
  microdegrees, the division by a million when decoding and the multiplication when
  encoding, both rounded to doubles, lose nothing.
\<close>

lemma coordinates_exact:
  assumes "- (2 ^ 31) \<le> v" "v < 2 ^ 31" "- (2 ^ 31) \<le> w" "w < 2 ^ 31"
  shows "encode_latlon (Some (from_micro v)) (Some (from_micro w)) =
    Inr (ADV_LATLON_MASK, le_bytes 4 v @ le_bytes 4 w)"
  using assms by (simp add: encode_latlon_def to_from_micro to_bytes_le_signed_def)

lemma coordinates_exact_witness:
  "encode_latlon (Some (from_micro 52370216)) (Some (from_micro (- 4895168))) =
    Inr (ADV_LATLON_MASK, le_bytes 4 52370216 @ le_bytes 4 (- 4895168))"
  by (rule coordinates_exact) simp_all

text \<open>
  A signature is checked over exactly what was received: for any payload that parses,
  \<open>signature_valid\<close> verifies the payload without its signature field under the payload's own key,
  and parsing raises nothing but \<open>ValueError\<close>.
\<close>

lemma advert_signature_covers_payload:
  "(case decode_advert payload of
      Inl e \<Rightarrow> e = ValueError
    | Inr a \<Rightarrow> signature_valid C a =
        Inr (lib_ed25519_verify C (take 32 payload) (py_slice 36 100 payload) (take 36 payload @ drop 100 payload)))"
proof (cases "decode_advert payload")
  case (Inl e)
  then show ?thesis
    by (auto simp: decode_advert_def decode_advert_data_def decode_latlon_def decode_feat_def Let_def
        split: if_splits)
next
  case (Inr a)
  have l: "100 \<le> length payload" using Inr by (auto simp: decode_advert_def advert_consts split: if_splits)
  have "to_bytes_le 4 (from_bytes_le (take 4 (drop 32 payload))) = Inr (take 4 (drop 32 payload))"
    by (rule to_from_bytes_le) (use l in simp)
  moreover have "take 36 payload = take 32 payload @ take 4 (drop 32 payload)" by (simp flip: take_add)
  ultimately show ?thesis using Inr l
    by (auto simp: decode_advert_def advert_consts signature_valid_def signed_message_def verify_def py_slice_def Let_def)
qed

end
