(* ===== verification/Identity.thy ===== *)
theory Identity
  imports PyStr Crypto
begin

text \<open>
  Node identities (\<open>softmesh_stack/identity.py\<close>): the seed, the public key derived from it and the
  display name; their file layout; and how a service finds its identity at start. A file is its
  content, \<open>None\<close> when it does not exist; errors of the file system are not modelled.
\<close>

section \<open>Identities\<close>

definition IDENTITY_NAME_SIZE :: nat where "IDENTITY_NAME_SIZE = 32"

record identity =
  id_seed :: bytes
  id_pub_key :: bytes
  id_name :: ustring

text \<open>The constructor with the checks of \<open>__post_init__\<close>.\<close>

definition make_identity :: "bytes \<Rightarrow> bytes \<Rightarrow> ustring \<Rightarrow> identity res" where
  "make_identity seed pub_key name =
     (if length seed \<noteq> SEED_SIZE then Inl ValueError
      else if length pub_key \<noteq> PUB_KEY_SIZE then Inl ValueError
      else Inr \<lparr> id_seed = seed, id_pub_key = pub_key, id_name = name \<rparr>)"

text \<open>\<open>Identity.generate\<close>, on the seed the package draws at random.\<close>

definition generate :: "crypto_lib \<Rightarrow> bytes \<Rightarrow> ustring \<Rightarrow> identity res" where
  "generate C random_seed name = (let (seed, pub) = generate_keypair C random_seed in make_identity seed pub name)"

definition from_seed :: "crypto_lib \<Rightarrow> bytes \<Rightarrow> ustring \<Rightarrow> identity res" where
  "from_seed C seed name = bindR (derive_pub_key C seed) (\<lambda>pub_key. make_identity seed pub_key name)"

definition load_identity :: "crypto_lib \<Rightarrow> bytes \<Rightarrow> identity res" where
  "load_identity C file_data =
     (if length file_data < SEED_SIZE + PUB_KEY_SIZE then Inl ValueError
      else
        let seed = take SEED_SIZE file_data;
            pub_key = py_slice SEED_SIZE (SEED_SIZE + PUB_KEY_SIZE) file_data;
            name_off = SEED_SIZE + PUB_KEY_SIZE in
        bindR (derive_pub_key C seed) (\<lambda>expected_pub.
        if pub_key \<noteq> expected_pub then Inl ValueError
        else
          let name = (if length file_data > name_off
                      then utf8_decode (before_nul (py_slice name_off (name_off + IDENTITY_NAME_SIZE) file_data))
                      else []) in
          make_identity seed pub_key name))"

definition save_identity :: "identity \<Rightarrow> bytes res" where
  "save_identity i =
     (if id_name i = [] then Inr (id_seed i @ id_pub_key i)
      else
        bindR (utf8_encode (id_name i)) (\<lambda>encoded.
        Inr (id_seed i @ id_pub_key i @ ljust0 IDENTITY_NAME_SIZE (take (IDENTITY_NAME_SIZE - 1) encoded))))"

definition address :: "identity \<Rightarrow> int res" where
  "address i = path_hash (id_pub_key i)"

definition id_sign :: "crypto_lib \<Rightarrow> identity \<Rightarrow> bytes \<Rightarrow> bytes res" where
  "id_sign C i message = sign C (id_seed i) message"

definition id_verify :: "crypto_lib \<Rightarrow> identity \<Rightarrow> bytes \<Rightarrow> bytes \<Rightarrow> bool" where
  "id_verify C i signature message = verify C (id_pub_key i) signature message"

definition id_shared_secret :: "crypto_lib \<Rightarrow> identity \<Rightarrow> bytes \<Rightarrow> bytes res" where
  "id_shared_secret C i peer_pub_key = calc_shared_secret C (id_seed i) peer_pub_key"

section \<open>Finding the identity of a service\<close>

datatype id_source = FromEnv | FromFile | Generated

definition removeprefix :: "ustring \<Rightarrow> ustring \<Rightarrow> ustring" where
  "removeprefix p s = (if take (length p) s = p then drop (length p) s else s)"

definition resolve_from_file ::
    "crypto_lib \<Rightarrow> bytes option \<Rightarrow> bytes \<Rightarrow> ustring \<Rightarrow> (identity \<times> id_source) res \<times> bytes option" where
  "resolve_from_file C id_file random_seed name =
     (case id_file of
        Some file_data \<Rightarrow> (bindR (load_identity C file_data) (\<lambda>i. Inr (i, FromFile)), id_file)
      | None \<Rightarrow>
          (case generate C random_seed name of
             Inl e \<Rightarrow> (Inl e, None)
           | Inr i \<Rightarrow>
               (case save_identity i of
                  Inl e \<Rightarrow> (Inl e, None)
                | Inr file_data \<Rightarrow> (Inr (i, Generated), Some file_data))))"

text \<open>
  \<open>resolve_identity\<close>: the configured seed, the content of the identity file and the seed the package
  would draw; the result with the new content of the file.
\<close>

definition resolve_identity ::
    "crypto_lib \<Rightarrow> ustring option \<Rightarrow> bytes option \<Rightarrow> bytes \<Rightarrow> ustring
       \<Rightarrow> (identity \<times> id_source) res \<times> bytes option" where
  "resolve_identity C seed_hex id_file random_seed name =
     (case seed_hex of
        Some h \<Rightarrow>
          if h \<noteq> [] \<and> str_strip h \<noteq> []
          then (bindR (bytes_fromhex (removeprefix (ustr ''0x'') (str_strip h))) (\<lambda>seed.
                bindR (from_seed C seed name) (\<lambda>i. Inr (i, FromEnv))), id_file)
          else resolve_from_file C id_file random_seed name
      | None \<Rightarrow> resolve_from_file C id_file random_seed name)"

section \<open>Properties\<close>

lemma load_saved_identity:
  assumes "length (id_seed i) = 32" "id_pub_key i = lib_ed25519_pub C (id_seed i)" "length (id_pub_key i) = 32"
    and "utf8_encode (id_name i) = Inr tx"
  shows "\<exists>file_data. save_identity i = Inr file_data \<and>
    load_identity C file_data = Inr (i\<lparr>id_name := utf8_decode (before_nul (take 31 tx))\<rparr>)"
proof (cases "id_name i = []")
  case True
  then have "tx = []" using assms(4) by simp
  then show ?thesis using assms True
    by (simp add: save_identity_def load_identity_def crypto_consts derive_pub_key_def make_identity_def py_slice_def
        IDENTITY_NAME_SIZE_def Let_def before_nul_id)
next
  case False
  obtain n where n: "ljust0 32 (take 31 tx) = take 31 tx @ replicate (Suc n) 0"
  proof (rule that)
    have "32 - length (take 31 tx) = Suc (31 - length (take 31 tx))" by simp
    then show "ljust0 32 (take 31 tx) = take 31 tx @ replicate (Suc (31 - length (take 31 tx))) 0"
      unfolding ljust0_def by (simp only:)
  qed
  have b: "before_nul (take 32 (ljust0 32 (take 31 tx))) = before_nul (take 31 tx)"
  proof -
    have "length (ljust0 32 (take 31 tx)) = 32" by (simp add: ljust0_def)
    then show ?thesis by (simp add: n before_nul_first)
  qed
  show ?thesis using assms False b
    by (simp add: save_identity_def load_identity_def crypto_consts derive_pub_key_def make_identity_def py_slice_def
        IDENTITY_NAME_SIZE_def Let_def)
qed

text \<open>
  A saved identity loads again. The seed and the key are always recovered; the name is
  the part of it that fits in 31 bytes of UTF-8, so a NUL-free name of at most 31 bytes is recovered
  exactly.
\<close>

lemma identity_file_roundtrip:
  assumes "crypto_laws C" "from_seed C seed name = Inr i" "encodable name" "0 \<notin> set name"
  shows "\<exists>file_data j tx. save_identity i = Inr file_data \<and> load_identity C file_data = Inr j \<and>
    id_seed j = seed \<and> id_pub_key j = lib_ed25519_pub C seed \<and> utf8_encode name = Inr tx \<and>
    id_name j = utf8_decode (take 31 tx) \<and> (31 < length tx \<or> j = i)"
proof -
  obtain tx where tx: "utf8_encode name = Inr tx" using utf8_encode_Inr assms(3) by blast
  have i: "i = \<lparr> id_seed = seed, id_pub_key = lib_ed25519_pub C seed, id_name = name \<rparr>" "length seed = 32"
    using assms(2) by (auto simp: from_seed_def derive_pub_key_def make_identity_def crypto_consts split: if_splits)
  have l: "length (lib_ed25519_pub C seed) = 32" using assms(1) i(2) by (simp add: crypto_laws_def)
  have "0 \<notin> set (take 31 tx)" using utf8_encode_no_nul [OF tx assms(4)] by (auto dest: in_set_takeD)
  then have b: "before_nul (take 31 tx) = take 31 tx" by (rule before_nul_id)
  have "before_nul tx = tx" using utf8_encode_no_nul [OF tx assms(4)] by (rule before_nul_id)
  then show ?thesis
    using load_saved_identity [of i C tx] i l tx utf8_decode_encode [OF tx]
    by (cases "31 < length tx") (auto simp: b)
qed

lemma identity_file_roundtrip_witness:
  "\<exists>file_data j tx. save_identity \<lparr> id_seed = replicate 32 1, id_pub_key = replicate 32 1, id_name = [114, 0xE9] \<rparr> = Inr file_data \<and>
    load_identity demo_lib file_data = Inr j \<and>
    id_seed j = replicate 32 1 \<and> id_pub_key j = lib_ed25519_pub demo_lib (replicate 32 1) \<and> utf8_encode [114, 0xE9] = Inr tx \<and>
    id_name j = utf8_decode (take 31 tx) \<and>
    (31 < length tx \<or> j = \<lparr> id_seed = replicate 32 1, id_pub_key = replicate 32 1, id_name = [114, 0xE9] \<rparr>)"
  by (rule identity_file_roundtrip [OF demo_lib_laws])
    (simp_all add: from_seed_def derive_pub_key_def make_identity_def crypto_consts demo_lib_def encodable_def surrogate_def)

text \<open>
  A service keeps its identity. Without a configured seed, what the first start
  generates and saves is what every later start loads, and the file is never written again; with a
  configured seed the file is neither read nor written.
\<close>

lemma identity_survives_restart:
  assumes "crypto_laws C" "length random_seed = 32" "encodable name"
    and "resolve_identity C seed_hex id_file random_seed name = (Inr (i, source), id_file')"
  shows "(source = FromEnv \<longrightarrow> id_file' = id_file \<and>
            (\<forall>other. resolve_identity C seed_hex other random_seed2 name = (Inr (i, FromEnv), other))) \<and>
    (source \<noteq> FromEnv \<longrightarrow>
       (\<exists>j. resolve_identity C seed_hex id_file' random_seed2 name = (Inr (j, FromFile), id_file') \<and>
            id_seed j = id_seed i \<and> id_pub_key j = id_pub_key i \<and> id_file' \<noteq> None))"
proof (cases "seed_hex = None \<or> seed_hex = Some [] \<or> str_strip (the seed_hex) = []")
  case True
  then have r: "resolve_identity C seed_hex f s name = resolve_from_file C f s name" for f s
    by (auto simp: resolve_identity_def split: option.splits)
  have a: "resolve_from_file C id_file random_seed name = (Inr (i, source), id_file')"
    using assms(4) unfolding r .
  show ?thesis
  proof (cases id_file)
    case None
    obtain tx where tx: "utf8_encode name = Inr tx" using utf8_encode_Inr assms(3) by blast
    have l: "length (lib_ed25519_pub C random_seed) = 32" using assms(1,2) by (simp add: crypto_laws_def)
    let ?i = "\<lparr> id_seed = random_seed, id_pub_key = lib_ed25519_pub C random_seed, id_name = name \<rparr>"
    obtain file_data where s: "save_identity ?i = Inr file_data"
      "load_identity C file_data = Inr (?i\<lparr>id_name := utf8_decode (before_nul (take 31 tx))\<rparr>)"
      using load_saved_identity [of ?i C tx] assms(2) l tx by auto
    then have "i = ?i" "source = Generated" "id_file' = Some file_data"
      using a None assms(2) l by (auto simp: resolve_from_file_def generate_def generate_keypair_def make_identity_def crypto_consts)
    then show ?thesis using s(2) by (simp add: r resolve_from_file_def)
  next
    case (Some file_data)
    then show ?thesis using a by (auto simp: r resolve_from_file_def)
  qed
next
  case False
  then show ?thesis using assms(4) by (auto simp: resolve_identity_def)
qed

lemma identity_survives_restart_witness:
  "\<exists>j. resolve_identity demo_lib None (Some (replicate 64 3)) (replicate 32 8) [] = (Inr (j, FromFile), Some (replicate 64 3)) \<and>
    id_seed j = replicate 32 3 \<and> id_pub_key j = replicate 32 3"
  using identity_survives_restart [OF demo_lib_laws, of "replicate 32 3" "[]" None None
      "\<lparr> id_seed = replicate 32 3, id_pub_key = replicate 32 3, id_name = [] \<rparr>" Generated "Some (replicate 64 3)" "replicate 32 8"]
  by (simp add: resolve_identity_def resolve_from_file_def generate_def generate_keypair_def make_identity_def save_identity_def
      crypto_consts demo_lib_def encodable_def flip: replicate_add)

end
