(* ===== verification/RoomStore.thy ===== *)
theory RoomStore
  imports PyStr "HOL-Library.Product_Lexorder" "HOL-Library.Multiset"
begin

text \<open>
  The room server's store (\<open>room_server/db.py\<close>): the tables \<open>posts\<close> and \<open>clients\<close> of its SQLite
  database and the statements run on them. A parameter \<open>now\<close> is what \<open>int(time.time())\<close> returns. SQLite
  keeps integers of 64 bits and text that encodes; anything else makes the driver raise.
\<close>

section \<open>Tables\<close>

record post_row =
  row_id :: int
  row_author_pubkey :: ustring
  row_author_prefix :: int
  row_ts :: int
  row_body :: ustring
  row_txt_type :: int
  row_created_at :: int

record client_row =
  crow_name :: ustring
  crow_is_admin :: int
  crow_last_timestamp :: int
  crow_last_login :: int

text \<open>
  The rows of \<open>posts\<close> in order of insertion with the last id AUTOINCREMENT gave, and the rows of
  \<open>clients\<close> by primary key.
\<close>

record tables =
  tb_posts :: "post_row list"
  tb_seq :: int
  tb_clients :: "ustring \<rightharpoonup> client_row"

definition empty_tables :: tables where
  "empty_tables = \<lparr> tb_posts = [], tb_seq = 0, tb_clients = (\<lambda>_. None) \<rparr>"

text \<open>The classes \<open>Post\<close> and \<open>Client\<close>.\<close>

record post =
  post_id :: int
  post_author_pubkey :: ustring
  post_author_prefix :: int
  post_ts :: int
  post_body :: ustring
  post_txt_type :: int

record client =
  cl_pubkey :: ustring
  cl_name :: ustring
  cl_is_admin :: bool
  cl_last_timestamp :: int
  cl_last_login :: int

section \<open>Values the driver can bind\<close>

definition sql_int :: "int \<Rightarrow> int res" where
  "sql_int v = (if - (2 ^ 63) \<le> v \<and> v < 2 ^ 63 then Inr v else Inl OverflowError)"

definition sql_text :: "ustring \<Rightarrow> ustring res" where
  "sql_text s = (if encodable s then Inr s else Inl UnicodeEncodeError)"

section \<open>Posts\<close>

definition add_post :: "int \<Rightarrow> bytes \<Rightarrow> int \<Rightarrow> ustring \<Rightarrow> int \<Rightarrow> (tables, post) io" where
  "add_post now author_pubkey ts body txt_type db =
     (if author_pubkey = [] then (Inl IndexError, db)
      else
        case bindR (sql_int ts) (\<lambda>_. bindR (sql_text body) (\<lambda>_. bindR (sql_int txt_type) (\<lambda>_. sql_int now))) of
          Inl e \<Rightarrow> (Inl e, db)
        | Inr created \<Rightarrow>
            if tb_seq db + 1 \<ge> 2 ^ 63 then (Inl LibraryError, db)
            else
              let i = tb_seq db + 1;
                  author_hex = bytes_hex author_pubkey;
                  prefix = uint (author_pubkey ! 0);
                  row = \<lparr> row_id = i, row_author_pubkey = author_hex, row_author_prefix = prefix, row_ts = ts,
                          row_body = body, row_txt_type = txt_type, row_created_at = created \<rparr> in
              (Inr \<lparr> post_id = i, post_author_pubkey = author_hex, post_author_prefix = prefix, post_ts = ts,
                     post_body = body, post_txt_type = txt_type \<rparr>,
               db\<lparr>tb_posts := tb_posts db @ [row], tb_seq := i\<rparr>))"

definition post_of_row :: "post_row \<Rightarrow> post" where
  "post_of_row r = \<lparr> post_id = row_id r, post_author_pubkey = row_author_pubkey r,
     post_author_prefix = row_author_prefix r, post_ts = row_ts r, post_body = row_body r,
     post_txt_type = row_txt_type r \<rparr>"

definition posts_since :: "int \<Rightarrow> bytes option \<Rightarrow> (tables, post list) io" where
  "posts_since since_ts exclude_pubkey db =
     (case sql_int since_ts of
        Inl e \<Rightarrow> (Inl e, db)
      | Inr since \<Rightarrow>
          let selected = filter (\<lambda>r. row_ts r > since \<and>
                (case exclude_pubkey of None \<Rightarrow> True | Some k \<Rightarrow> row_author_pubkey r \<noteq> bytes_hex k)) (tb_posts db) in
          (Inr (map post_of_row (sort_key (\<lambda>r. (row_ts r, row_id r)) selected)), db))"

section \<open>Clients\<close>

definition upsert_client :: "int \<Rightarrow> bytes \<Rightarrow> ustring \<Rightarrow> bool \<Rightarrow> (tables, unit) io" where
  "upsert_client now pubkey name is_admin db =
     (case bindR (sql_text name) (\<lambda>_. sql_int now) of
        Inl e \<Rightarrow> (Inl e, db)
      | Inr login \<Rightarrow>
          let k = bytes_hex pubkey;
              last = (case tb_clients db k of None \<Rightarrow> 0 | Some c \<Rightarrow> crow_last_timestamp c) in
          (Inr (), db\<lparr>tb_clients := (tb_clients db)(k \<mapsto>
             \<lparr> crow_name = name, crow_is_admin = (if is_admin then 1 else 0),
               crow_last_timestamp = last, crow_last_login = login \<rparr>)\<rparr>))"

definition get_client :: "bytes \<Rightarrow> tables \<Rightarrow> client option" where
  "get_client pubkey db =
     (case tb_clients db (bytes_hex pubkey) of
        None \<Rightarrow> None
      | Some r \<Rightarrow> Some \<lparr> cl_pubkey = bytes_hex pubkey, cl_name = crow_name r, cl_is_admin = (crow_is_admin r \<noteq> 0),
          cl_last_timestamp = crow_last_timestamp r, cl_last_login = crow_last_login r \<rparr>)"

definition set_client_cursor :: "bytes \<Rightarrow> int \<Rightarrow> (tables, unit) io" where
  "set_client_cursor pubkey last_timestamp db =
     (case sql_int last_timestamp of
        Inl e \<Rightarrow> (Inl e, db)
      | Inr t \<Rightarrow>
          let k = bytes_hex pubkey in
          (Inr (), (case tb_clients db k of
             None \<Rightarrow> db
           | Some c \<Rightarrow>
               if crow_last_timestamp c < t
               then db\<lparr>tb_clients := (tb_clients db)(k \<mapsto> c\<lparr>crow_last_timestamp := t\<rparr>)\<rparr>
               else db)))"

section \<open>The database file and its connection\<close>

text \<open>
  A database file has a schema version and, once the first migration ran, its tables. A store is open
  or not; every operation on a store that is not open raises.
\<close>

definition SCHEMA_VERSION :: int where "SCHEMA_VERSION = 1"

record db_file =
  dbf_user_version :: int
  dbf_tables :: "tables option"

definition migrate :: "db_file \<Rightarrow> db_file" where
  "migrate f =
     (let f1 = (if dbf_user_version f < 1
                then f\<lparr>dbf_tables := (case dbf_tables f of None \<Rightarrow> Some empty_tables | Some t \<Rightarrow> Some t)\<rparr>
                else f) in
      f1\<lparr>dbf_user_version := SCHEMA_VERSION\<rparr>)"

record room_store =
  rs_file :: db_file
  rs_open :: bool

definition open_store :: "room_store \<Rightarrow> room_store" where
  "open_store s = s\<lparr>rs_file := migrate (rs_file s), rs_open := True\<rparr>"

definition close_store :: "room_store \<Rightarrow> room_store" where
  "close_store s = s\<lparr>rs_open := False\<rparr>"

text \<open>A statement run through the property \<open>db\<close>.\<close>

definition on_db :: "(tables, 'a) io \<Rightarrow> (room_store, 'a) io" where
  "on_db m s =
     (if \<not> rs_open s then (Inl RuntimeError, s)
      else case dbf_tables (rs_file s) of
             None \<Rightarrow> (Inl LibraryError, s)
           | Some t \<Rightarrow> (fst (m t), s\<lparr>rs_file := (rs_file s)\<lparr>dbf_tables := Some (snd (m t))\<rparr>\<rparr>))"

section \<open>Facts\<close>

text \<open>Ids are distinct and increase with insertion; the sequence is at least the last of them.\<close>

definition wf_tables :: "tables \<Rightarrow> bool" where
  "wf_tables t \<longleftrightarrow> sorted_wrt (<) (map row_id (tb_posts t)) \<and> (\<forall>r \<in> set (tb_posts t). row_id r \<le> tb_seq t)"

lemma wf_empty_tables [simp]: "wf_tables empty_tables"
  by (simp add: wf_tables_def empty_tables_def)

lemma add_post_Inr:
  assumes "add_post now author ts body tt t = (Inr p, t')"
  obtains r where "t' = t\<lparr>tb_posts := tb_posts t @ [r], tb_seq := tb_seq t + 1\<rparr>" "p = post_of_row r"
    "row_id r = tb_seq t + 1" "row_author_pubkey r = bytes_hex author" "row_ts r = ts" "row_body r = body"
    "row_txt_type r = tt" "author \<noteq> []" "row_author_prefix r = uint (author ! 0)"
  using assms
  by (auto simp: add_post_def post_of_row_def Let_def split: if_splits sum.splits intro: that)

lemma add_post_total:
  assumes "author \<noteq> []" "- (2 ^ 63) \<le> ts" "ts < 2 ^ 63" "encodable body" "- (2 ^ 63) \<le> tt" "tt < 2 ^ 63"
    and "- (2 ^ 63) \<le> now" "now < 2 ^ 63" "tb_seq t + 1 < 2 ^ 63"
  shows "\<exists>p t'. add_post now author ts body tt t = (Inr p, t')"
  using assms by (simp add: add_post_def sql_int_def sql_text_def Let_def)

lemma add_post_Inl: "add_post now author ts body tt t = (Inl e, t') \<Longrightarrow> t' = t"
  by (auto simp: add_post_def Let_def split: if_splits sum.splits)

lemma wf_add_post: "wf_tables t \<Longrightarrow> wf_tables (snd (add_post now author ts body tt t))"
proof -
  assume wf: "wf_tables t"
  obtain r t' where a: "add_post now author ts body tt t = (r, t')" by (cases "add_post now author ts body tt t")
  show ?thesis
  proof (cases r)
    case (Inl e)
    then show ?thesis using a wf add_post_Inl [OF a [unfolded Inl]] by simp
  next
    case (Inr p)
    obtain q where q: "t' = t\<lparr>tb_posts := tb_posts t @ [q], tb_seq := tb_seq t + 1\<rparr>" "row_id q = tb_seq t + 1"
      using add_post_Inr [OF a [unfolded Inr]] by metis
    then show ?thesis using wf a by (auto simp: wf_tables_def sorted_wrt_append)
  qed
qed

lemma post_of_row_sel [simp]:
  "post_id (post_of_row r) = row_id r" "post_ts (post_of_row r) = row_ts r"
  "post_author_pubkey (post_of_row r) = row_author_pubkey r" "post_body (post_of_row r) = row_body r"
  by (simp_all add: post_of_row_def)

text \<open>The rows a reader asks for.\<close>

definition wanted :: "int \<Rightarrow> bytes option \<Rightarrow> post \<Rightarrow> bool" where
  "wanted since excl p \<longleftrightarrow> post_ts p > since \<and>
     (case excl of None \<Rightarrow> True | Some k \<Rightarrow> post_author_pubkey p \<noteq> bytes_hex k)"

lemma posts_since_Inr:
  assumes "posts_since since excl t = (Inr ps, t')"
  shows "t' = t" "mset ps = filter_mset (wanted since excl) (mset (map post_of_row (tb_posts t)))"
    "sorted (map (\<lambda>p. (post_ts p, post_id p)) ps)"
proof -
  let ?key = "\<lambda>r. (row_ts r, row_id r)"
  let ?sel = "filter (\<lambda>r. wanted since excl (post_of_row r)) (tb_posts t)"
  have e: "t' = t" "ps = map post_of_row (sort_key ?key ?sel)"
    using assms by (auto simp: posts_since_def wanted_def sql_int_def Let_def split: sum.splits if_splits
        cong: option.case_cong)
  show "t' = t" by (fact e(1))
  show "mset ps = filter_mset (wanted since excl) (mset (map post_of_row (tb_posts t)))"
    by (simp add: e(2) filter_mset_image_mset)
  have "map (\<lambda>p. (post_ts p, post_id p)) ps = map ?key (sort_key ?key ?sel)"
    by (simp add: e(2) comp_def)
  then show "sorted (map (\<lambda>p. (post_ts p, post_id p)) ps)" by (simp only: sorted_sort_key)
qed

lemma posts_since_total: "- (2 ^ 63) \<le> since \<Longrightarrow> since < 2 ^ 63 \<Longrightarrow> \<exists>ps. posts_since since excl t = (Inr ps, t)"
  by (simp add: posts_since_def sql_int_def Let_def)

text \<open>The statements as steps of a machine.\<close>

datatype store_op =
    AddPost int bytes int ustring int
  | UpsertClient int bytes ustring bool
  | SetCursor bytes int

definition store_step :: "tables \<Rightarrow> store_op \<Rightarrow> tables \<times> post list" where
  "store_step t x =
     (case x of
        AddPost now author ts body tt \<Rightarrow>
          (case add_post now author ts body tt t of (Inl e, t') \<Rightarrow> (t', []) | (Inr p, t') \<Rightarrow> (t', [p]))
      | UpsertClient now k name admin \<Rightarrow> (snd (upsert_client now k name admin t), [])
      | SetCursor k ts \<Rightarrow> (snd (set_client_cursor k ts t), []))"

text \<open>What any later state keeps of an earlier one.\<close>

definition extends :: "tables \<Rightarrow> tables \<Rightarrow> bool" where
  "extends t0 t \<longleftrightarrow>
     (\<exists>new. tb_posts t = tb_posts t0 @ new \<and> (\<forall>r \<in> set new. tb_seq t0 < row_id r)) \<and> tb_seq t0 \<le> tb_seq t \<and>
     (\<forall>k c. tb_clients t0 k = Some c \<longrightarrow>
        (\<exists>c'. tb_clients t k = Some c' \<and> crow_last_timestamp c \<le> crow_last_timestamp c'))"

lemma extends_refl [simp]: "extends t t"
  by (simp add: extends_def)

lemma extends_trans: "extends a b \<Longrightarrow> extends b c \<Longrightarrow> extends a c"
proof -
  assume a: "extends a b" and b: "extends b c"
  obtain new1 where 1: "tb_posts b = tb_posts a @ new1" "\<forall>r \<in> set new1. tb_seq a < row_id r" "tb_seq a \<le> tb_seq b"
    using a by (auto simp: extends_def)
  obtain new2 where 2: "tb_posts c = tb_posts b @ new2" "\<forall>r \<in> set new2. tb_seq b < row_id r" "tb_seq b \<le> tb_seq c"
    using b by (auto simp: extends_def)
  have "tb_posts c = tb_posts a @ (new1 @ new2)" "\<forall>r \<in> set (new1 @ new2). tb_seq a < row_id r" using 1 2 by auto
  moreover have "\<exists>c'. tb_clients c k = Some c' \<and> crow_last_timestamp x \<le> crow_last_timestamp c'"
    if "tb_clients a k = Some x" for k x
    using a b that unfolding extends_def by (meson order_trans)
  ultimately show "extends a c" unfolding extends_def using order_trans [OF 1(3) 2(3)] by blast
qed

lemma extends_add_post: "extends t (snd (add_post now author ts body tt t))"
proof -
  obtain r t' where a: "add_post now author ts body tt t = (r, t')" by (cases "add_post now author ts body tt t")
  show ?thesis
  proof (cases r)
    case (Inl e)
    then show ?thesis using a add_post_Inl [OF a [unfolded Inl]] by simp
  next
    case (Inr p)
    obtain q where q: "t' = t\<lparr>tb_posts := tb_posts t @ [q], tb_seq := tb_seq t + 1\<rparr>" "row_id q = tb_seq t + 1"
      using add_post_Inr [OF a [unfolded Inr]] by metis
    then have "tb_posts t' = tb_posts t @ [q]" "tb_seq t \<le> tb_seq t'" "tb_clients t' = tb_clients t" by simp_all
    then show ?thesis using q(2) a by (simp add: extends_def)
  qed
qed

lemma extends_upsert: "extends t (snd (upsert_client now k name admin t))"
  by (auto simp: extends_def upsert_client_def Let_def split: sum.splits option.splits)

lemma extends_cursor: "extends t (snd (set_client_cursor k ts t))"
  by (auto simp: extends_def set_client_cursor_def Let_def split: sum.splits option.splits)

lemma wf_clients:
  "wf_tables (snd (upsert_client now k name admin t)) = wf_tables t"
  "wf_tables (snd (set_client_cursor k ts t)) = wf_tables t"
  by (auto simp: wf_tables_def upsert_client_def set_client_cursor_def Let_def split: sum.splits option.splits)

lemma store_step_keeps:
  "wf_tables t \<Longrightarrow> wf_tables (fst (store_step t x)) \<and> extends t (fst (store_step t x))"
  using wf_add_post extends_add_post extends_upsert extends_cursor
  by (cases x) (auto simp: store_step_def wf_clients split: prod.splits sum.splits; metis snd_conv)+

interpretation store_run: machine store_step "\<lambda>t. wf_tables t \<and> extends t0 t" "\<lambda>p. tb_seq t0 < post_id p" for t0
proof
  fix t x p
  assume i: "wf_tables t \<and> extends t0 t"
  then show "wf_tables (fst (store_step t x)) \<and> extends t0 (fst (store_step t x))"
    using store_step_keeps extends_trans by blast
  assume "p \<in> set (snd (store_step t x))"
  then obtain now author ts body tt t' where "add_post now author ts body tt t = (Inr p, t')"
    by (auto simp: store_step_def split: store_op.splits prod.splits sum.splits)
  then have "post_id p = tb_seq t + 1" by (auto elim!: add_post_Inr simp: post_of_row_def)
  then show "tb_seq t0 < post_id p" using i by (simp add: extends_def)
qed

section \<open>Properties\<close>

text \<open>
  A stored post is read exactly once, by the right readers and in order. After a post
  is added, every reader gets what it got before, plus the new post if it is newer than the reader's
  cursor and not the reader's own; the list is in order of time, then of insertion.
\<close>

lemma posts_since_after_add:
  assumes "add_post now author ts body tt t = (Inr p, t')" "posts_since since excl t = (Inr ps, t)"
  shows "\<exists>ps'. posts_since since excl t' = (Inr ps', t') \<and>
    mset ps' = (if ts > since \<and> excl \<noteq> Some author then add_mset p (mset ps) else mset ps) \<and>
    sorted (map (\<lambda>q. (post_ts q, post_id q)) ps')"
proof -
  obtain r where r: "t' = t\<lparr>tb_posts := tb_posts t @ [r], tb_seq := tb_seq t + 1\<rparr>" "p = post_of_row r"
    "row_author_pubkey r = bytes_hex author" "row_ts r = ts"
    using add_post_Inr [OF assms(1)] by metis
  have "- (2 ^ 63) \<le> since \<and> since < 2 ^ 63"
    using assms(2) by (auto simp: posts_since_def sql_int_def split: if_splits)
  then obtain ps' where ps': "posts_since since excl t' = (Inr ps', t')" using posts_since_total by blast
  have w: "wanted since excl p \<longleftrightarrow> ts > since \<and> excl \<noteq> Some author"
    using r(2-4) by (auto simp: wanted_def post_of_row_def bytes_hex_inj split: option.splits)
  show ?thesis
    using ps' posts_since_Inr [OF ps'] posts_since_Inr(2) [OF assms(2)] w r(1,2) by auto
qed

lemma posts_since_after_add_witness:
  "\<exists>p t' ps'. add_post 9 [1, 2] 7 [104] 0 empty_tables = (Inr p, t') \<and>
    posts_since 0 (Some [2, 1]) t' = (Inr ps', t') \<and> mset ps' = {#p#}"
proof -
  have a: "posts_since 0 (Some [2, 1]) empty_tables = (Inr [], empty_tables)"
    by (simp add: posts_since_def sql_int_def empty_tables_def)
  obtain p t' where p: "add_post 9 [1, 2] 7 [104] 0 empty_tables = (Inr p, t')"
    by (simp add: add_post_def sql_int_def sql_text_def encodable_def surrogate_def empty_tables_def Let_def)
  show ?thesis using posts_since_after_add [OF p a] p by auto
qed

text \<open>
  Property (C37): the store never forgets. Over any sequence of statements the earlier posts stay as
  they are, new posts get ids above all earlier ones, ids stay distinct, no client disappears and no
  client's cursor falls, not even when the client logs in again or a late ACK sets an older time.
\<close>

theorem store_history:
  assumes "wf_tables t"
  shows "wf_tables (fst (run_machine store_step t ops)) \<and> extends t (fst (run_machine store_step t ops)) \<and>
    list_all (\<lambda>p. tb_seq t < post_id p) (snd (run_machine store_step t ops))"
  using store_run.run_inv [of t t ops] store_run.run_good [of t t _ ops] assms by (auto simp: list_all_iff)

lemma store_history_witness:
  "wf_tables (fst (run_machine store_step empty_tables [AddPost 9 [1] 7 [104] 0, SetCursor [1] 7])) \<and>
    extends empty_tables (fst (run_machine store_step empty_tables [AddPost 9 [1] 7 [104] 0, SetCursor [1] 7])) \<and>
    list_all (\<lambda>p. tb_seq empty_tables < post_id p)
      (snd (run_machine store_step empty_tables [AddPost 9 [1] 7 [104] 0, SetCursor [1] 7]))"
  by (rule store_history) simp

text \<open>
  Reopening loses nothing: opening a file that holds tables keeps them as they are, a
  new file gets empty tables, and then every statement finds its tables.
\<close>

lemma open_store_keeps_tables:
  assumes "dbf_user_version (rs_file s) < 1 \<or> dbf_tables (rs_file s) \<noteq> None"
  shows "\<exists>t. dbf_tables (rs_file (open_store (close_store s))) = Some t \<and>
    t = (case dbf_tables (rs_file s) of None \<Rightarrow> empty_tables | Some t \<Rightarrow> t) \<and>
    on_db m (open_store (close_store s)) = (fst (m t), (open_store s)\<lparr>rs_file := (migrate (rs_file s))\<lparr>dbf_tables := Some (snd (m t))\<rparr>\<rparr>)"
  using assms by (cases "dbf_tables (rs_file s)") (auto simp: open_store_def close_store_def migrate_def on_db_def Let_def)

lemma open_store_keeps_tables_witness:
  "\<exists>t. dbf_tables (rs_file (open_store (close_store \<lparr> rs_file = \<lparr> dbf_user_version = 0, dbf_tables = None \<rparr>, rs_open = False \<rparr>))) = Some t \<and>
    t = empty_tables"
  using open_store_keeps_tables [of "\<lparr> rs_file = \<lparr> dbf_user_version = 0, dbf_tables = None \<rparr>, rs_open = False \<rparr>" "returnIO ()"]
  by simp

end
