(* ===== verification/NodeCommon.thy ===== *)
theory NodeCommon
  imports RoomCodec Advert Identity "HOL-Library.AList"
begin

unbundle bit_operations_syntax

text \<open>
  What the room server and the echo server have in common: the guards of their handlers, the loop over
  candidate senders, the table of recent messages, the reply that confirms a message, and the contract
  of waiting for an acknowledgement. The code has each of these twice, word for word.
\<close>

section \<open>Tables in order of insertion\<close>

text \<open>A dict whose order matters is an association list with \<open>AList.update\<close>.\<close>

lemma set_update_subset: "set (AList.update k v al) \<subseteq> insert (k, v) (set al)"
  by (induction al) auto

section \<open>Guards and candidates\<close>

definition is_flood :: "packet \<Rightarrow> bool" where
  "is_flood p \<longleftrightarrow> pkt_route p \<in> {FLOOD, TRANSPORT_FLOOD}"

text \<open>Forgetting the keys seen before the cutoff.\<close>

definition expire :: "rat \<Rightarrow> ('k \<rightharpoonup> rat) \<Rightarrow> ('k \<rightharpoonup> rat)" where
  "expire cutoff m = (\<lambda>k. case m k of Some seen_at \<Rightarrow> if seen_at < cutoff then None else Some seen_at | None \<Rightarrow> None)"

text \<open>
  A payload addressed to us with a source hash: the guard the handlers share. \<open>None\<close> is an early
  return.
\<close>

definition addressed :: "identity \<Rightarrow> packet \<Rightarrow> int option res" where
  "addressed me p =
     (if pkt_payload p = [] then Inr None
      else
        bindR (address me) (\<lambda>our_hash.
        if uint (pkt_payload p ! 0) \<noteq> our_hash then Inr None
        else if length (pkt_payload p) > 1 then Inr (Some (uint (pkt_payload p ! 1)))
        else Inr None))"

text \<open>The loop over candidate senders: the shared secret and the message of the first that decrypts.\<close>

definition open_with ::
    "crypto_lib \<Rightarrow> identity \<Rightarrow> (crypto_lib \<Rightarrow> bytes \<Rightarrow> bytes \<Rightarrow> 'm option res) \<Rightarrow> bytes \<Rightarrow> bytes \<Rightarrow> (bytes \<times> 'm) option res" where
  "open_with C me decoder payload pub_key =
     bindR (id_shared_secret C me pub_key) (\<lambda>shared.
     bindR (decoder C payload shared) (\<lambda>m.
     Inr (case m of None \<Rightarrow> None | Some x \<Rightarrow> Some (shared, x))))"

lemma txt_ack_length: "crypto_laws C \<Longrightarrow> txt_ack_hash C m k = Inr ack \<Longrightarrow> length ack = 4"
  by (auto simp: txt_ack_hash_def ack_hash_for_def msg_consts crypto_laws_def sha256_def)

lemma open_with_Some:
  "open_with C me dec payload k = Inr (Some (shared, m)) \<Longrightarrow>
    id_shared_secret C me k = Inr shared \<and> dec C payload shared = Inr (Some m)"
  by (auto simp: open_with_def split: option.splits)

section \<open>Clocks\<close>

text \<open>
  What the calls of one handler to \<open>time.time\<close> (the server's and the store's), \<open>time.monotonic\<close> and
  \<open>os.urandom\<close> return. Times of \<open>time.monotonic\<close> are exact rationals.
\<close>

record clock =
  ck_time :: int
  ck_store_time :: int
  ck_monotonic :: rat
  ck_urandom4 :: bytes

section \<open>Packets the servers make\<close>

lemma made_enums:
  "r \<in> {DIRECT, FLOOD} \<Longrightarrow> as_route (route_val r) = r \<and> 0 \<le> route_val r \<and> route_val r < 4 \<and>
    \<not> has_transport_codes (route_val r)"
  "t \<in> {ACK, PATH, RESPONSE, TXT_MSG, ANON_REQ, ADVERT, REQ} \<Longrightarrow> as_payload (payload_val t) = t \<and> 0 \<le> payload_val t \<and> payload_val t < 16"
  "as_ver (ver_val V1) = V1"
  by (auto simp: as_route_def as_payload_def as_ver_def as_enum_def has_transport_codes_def)

lemma wf_made_packet:
  assumes "r \<in> {DIRECT, FLOOD}" "t \<in> {ACK, PATH, RESPONSE, TXT_MSG, ANON_REQ, ADVERT, REQ}"
    and "path_ok hs path" "length path \<le> 64"
  shows "wf_packet (make_packet r t path payload hs)"
  using made_enums(1) [OF assms(1)] made_enums(2) [OF assms(2)] made_enums(3) assms(3,4)
  by (simp add: wf_packet_def make_packet_def codes_ok_def)

text \<open>What a client that waits for an ACK sees of the reply to its packet \<open>p\<close>.\<close>

definition confirms :: "crypto_lib \<Rightarrow> bytes \<Rightarrow> packet \<Rightarrow> bytes \<Rightarrow> packet \<Rightarrow> bool" where
  "confirms C k p ack q \<longleftrightarrow>
     (if is_flood p
      then pkt_type q = PATH \<and>
        (\<exists>m. try_decrypt_path_msg C (pkt_payload q) k = Inr (Some m) \<and> pm_path m = pkt_path p \<and>
             pm_hash_size m = pkt_hash_size p \<and> pm_extra_type m = payload_val ACK \<and> pm_extra m = ack)
      else pkt_type q = ACK \<and> parse_ack_payload (pkt_payload q) = Some ack)"

text \<open>A packet whose payload starts with the byte of a key, as the receiver's filter wants it.\<close>

definition sent_to :: "bytes \<Rightarrow> packet \<Rightarrow> bool" where
  "sent_to k q \<longleftrightarrow> take 1 (pkt_payload q) = take 1 k"

lemma sent_to_header: "path_hash k = Inr h \<Longrightarrow> pkt_payload q = hash_header h src @ s \<Longrightarrow> sent_to k q"
  by (cases k) (auto simp: path_hash_def hash_header_def sent_to_def and_255)

lemma decode_made:
  assumes "r \<in> {DIRECT, FLOOD}" "t \<in> {ACK, PATH, RESPONSE, TXT_MSG, ANON_REQ, ADVERT, REQ}"
    and "path_ok hs path" "length path \<le> 64"
  obtains w where "encode_packet (make_packet r t path payload hs) = Inr w"
    "decode_packet w = Inr (make_packet r t path payload hs)"
  using pkt_codec.enc_total [OF wf_made_packet [OF assms]] pkt_codec.dec_enc [OF wf_made_packet [OF assms]] by blast

text \<open>A PATH packet that reports the path of a received packet opens to that path and the bundled extra.\<close>

lemma path_build_ok:
  assumes C: "crypto_laws C" "16 \<le> length k" and p: "wf_packet p" and pub: "pub \<noteq> []"
    and ex: "et mod 16 = payload_val ACK \<Longrightarrow> 4 \<le> length ex"
    and r: "r \<in> {DIRECT, FLOOD}" "path_ok rhs rp" "length rp \<le> 64"
  obtains w q m where
    "bindR (build_path_packet C rnd k d pub (pkt_path p) (pkt_hash_size p) et (Some ex) r rp rhs) encode_packet = Inr w"
    "decode_packet w = Inr q" "pkt_type q = PATH" "pkt_route q = r" "pkt_path q = rp"
    "try_decrypt_path_msg C (pkt_payload q) k = Inr (Some m)" "pm_path m = pkt_path p" "pm_hash_size m = pkt_hash_size p"
    "pm_extra_type m = et mod 16" "pm_extra m = (if et mod 16 = payload_val ACK then take 4 ex else rstrip0 ex)"
proof -
  obtain src where src: "path_hash pub = Inr src" using path_hash_total [OF pub] by blast
  have ok: "path_ok (pkt_hash_size p) (pkt_path p)" using p by (simp add: wf_packet_def)
  obtain b where b: "build_path_plaintext rnd (pkt_path p) (pkt_hash_size p) et (Some ex) = Inr b"
    using build_path_plaintext_total [OF ok] by blast
  obtain e where e: "encrypt_then_mac C k b = Inr e" using encrypt_then_mac_total [OF C(2)] by blast
  have built: "build_path_payload C rnd k d src (pkt_path p) (pkt_hash_size p) et (Some ex) = Inr (hash_header d src @ e)"
    using b e by (simp add: build_path_payload_def)
  let ?q = "make_packet r PATH rp (hash_header d src @ e) rhs"
  obtain w where w: "encode_packet ?q = Inr w" "decode_packet w = Inr ?q"
    by (rule decode_made [of r PATH rhs rp "hash_header d src @ e"]) (use r in simp_all)
  obtain m where m: "try_decrypt_path_msg C (hash_header d src @ e) k = Inr (Some m)" "pm_path m = pkt_path p"
    "pm_hash_size m = pkt_hash_size p" "pm_extra_type m = et mod 16"
    "pm_extra m = (if et mod 16 = payload_val ACK then take 4 ex else rstrip0 ex)"
    using try_decrypt_built_path_msg [OF C built ex] by simp
  have "bindR (build_path_packet C rnd k d pub (pkt_path p) (pkt_hash_size p) et (Some ex) r rp rhs) encode_packet = Inr w"
    using src built w(1) by (simp add: build_path_packet_def)
  then show thesis by (rule that [OF _ w(2) _ _ _ _ m(2-5)]) (simp_all add: make_packet_def m(1))
qed

lemma ack_build_ok:
  assumes C: "crypto_laws C" "16 \<le> length k" and ack: "length ack = 4" and p: "wf_packet p" and pub: "pub \<noteq> []"
  shows "\<exists>w q. (if is_flood p
      then bindR (build_path_packet C [] k d pub (pkt_path p) (pkt_hash_size p) (payload_val ACK) (Some ack) FLOOD [] 1) encode_packet
      else bindR (build_ack_packet ack FLOOD) encode_packet) = Inr w \<and>
    decode_packet w = Inr q \<and> confirms C k p ack q"
proof (cases "is_flood p")
  case True
  have a: "payload_val ACK mod 16 = payload_val ACK" by simp
  obtain w q m where w: "bindR (build_path_packet C [] k d pub (pkt_path p) (pkt_hash_size p) (payload_val ACK) (Some ack) FLOOD [] 1)
      encode_packet = Inr w" "decode_packet w = Inr q" "pkt_type q = PATH" "pkt_route q = FLOOD" "pkt_path q = []"
    "try_decrypt_path_msg C (pkt_payload q) k = Inr (Some m)" "pm_path m = pkt_path p" "pm_hash_size m = pkt_hash_size p"
    "pm_extra_type m = payload_val ACK mod 16"
    "pm_extra m = (if payload_val ACK mod 16 = payload_val ACK then take 4 ack else rstrip0 ack)"
    by (rule path_build_ok [OF C p pub, of "payload_val ACK" ack FLOOD 1 "[]"]) (use ack in simp_all)
  then show ?thesis using True ack unfolding a by (auto simp: confirms_def)
next
  case False
  obtain w where w: "encode_packet (make_packet FLOOD ACK [] ack 1) = Inr w"
    "decode_packet w = Inr (make_packet FLOOD ACK [] ack 1)"
    by (rule decode_made [of FLOOD ACK 1 "[]" ack]) simp_all
  have "confirms C k p ack (make_packet FLOOD ACK [] ack 1)"
    using False ack by (simp add: confirms_def make_packet_def parse_ack_payload_def msg_consts)
  then show ?thesis using False w ack by (simp add: build_ack_packet_def msg_consts)
qed

section \<open>Waiting for an acknowledgement\<close>

text \<open>
  \<open>wait_for_ack\<close> in two parts, between which other tasks run: registering the future, and what the
  end of the wait does (\<open>finally\<close> included). \<open>during\<close> is what the other tasks do until the future is
  done or the time is up.
\<close>

definition wait_during ::
    "(bytes \<Rightarrow> ('s, nat) io) \<Rightarrow> (bytes \<Rightarrow> nat \<Rightarrow> ('s, bool) io) \<Rightarrow> ('s \<Rightarrow> 's) \<Rightarrow> bytes \<Rightarrow> ('s, bool) io" where
  "wait_during register finish during ack_hash =
     bindIO (register ack_hash) (\<lambda>fut. bindIO (modifyIO during) (\<lambda>_. finish ack_hash fut))"

text \<open>
  The contract of a server's waiters: registering adds a new future, resolving a hash resolves all
  futures registered under it, finishing tells whether the future was resolved and unregisters it.
\<close>

locale ack_waits =
  fixes waiters :: "'s \<Rightarrow> bytes \<Rightarrow> nat list"
    and resolved :: "'s \<Rightarrow> nat list"
    and next_future :: "'s \<Rightarrow> nat"
    and register :: "bytes \<Rightarrow> ('s, nat) io"
    and finish :: "bytes \<Rightarrow> nat \<Rightarrow> ('s, bool) io"
    and resolve :: "bytes \<Rightarrow> ('s, 'r) io"
  assumes register_fst: "fst (register a s) = Inr (next_future s)"
    and register_waiters: "waiters (snd (register a s)) = (waiters s)(a := waiters s a @ [next_future s])"
    and register_resolved: "resolved (snd (register a s)) = resolved s"
    and finish_fst: "fst (finish a f s) = Inr (f \<in> set (resolved s))"
    and finish_waiters: "waiters (snd (finish a f s)) = (waiters s)(a := remove1 f (waiters s a))"
    and resolve_waiters: "waiters (snd (resolve a s)) = (waiters s)(a := [])"
    and resolve_resolved: "set (resolved (snd (resolve a s))) = set (resolved s) \<union> set (waiters s a)"
begin

lemma wait_eq:
  "wait_during register finish during a s = finish a (next_future s) (during (snd (register a s)))"
  using register_fst [of a s] by (cases "register a s") (simp add: wait_during_def io_defs)

lemma wait_result:
  "fst (wait_during register finish during a s) = Inr (next_future s \<in> set (resolved (during (snd (register a s)))))"
  by (simp add: wait_eq finish_fst)

lemma answered:
  assumes "waiters (during (snd (register a s))) = waiters (snd (resolve a u))"
    and "resolved (during (snd (register a s))) = resolved (snd (resolve a u))"
    and "waiters u = waiters (snd (register a s))"
  shows "fst (wait_during register finish during a s) = Inr True"
    and "waiters (snd (wait_during register finish during a s)) = (waiters s)(a := [])"
proof -
  show "fst (wait_during register finish during a s) = Inr True"
    unfolding wait_result using assms by (simp add: resolve_resolved register_waiters)
  show "waiters (snd (wait_during register finish during a s)) = (waiters s)(a := [])"
    using assms by (simp add: wait_eq finish_waiters resolve_waiters register_waiters)
qed

lemma unanswered:
  assumes "next_future s \<notin> set (resolved s)" "next_future s \<notin> set (waiters s a)"
    and "waiters (during (snd (register a s))) = waiters (snd (register a s))"
    and "resolved (during (snd (register a s))) = resolved (snd (register a s))"
  shows "fst (wait_during register finish during a s) = Inr False"
    and "waiters (snd (wait_during register finish during a s)) = waiters s"
proof -
  show "fst (wait_during register finish during a s) = Inr False"
    unfolding wait_result using assms by (simp add: register_resolved)
  show "waiters (snd (wait_during register finish during a s)) = waiters s"
    using assms by (simp add: wait_eq finish_waiters register_waiters remove1_append)
qed

end

end
