(* ===== verification/RoomModel.thy ===== *)
theory RoomModel
  imports NodeCommon RoomStore "HOL-Library.AList"
begin

unbundle bit_operations_syntax

text \<open>
  The room server (\<open>room_server/protocol.py\<close>): the sessions of logged-in clients, the handlers of
  the receive loop and the tasks they spawn. Every handler is a computation on the server's state that
  may raise; the receive loop catches what a handler raises and keeps its effects. Times of
  \<open>time.monotonic\<close> are exact rationals.
\<close>

section \<open>State\<close>

record room_config =
  rc_display_name :: ustring
  rc_admin_password :: ustring
  rc_guest_password :: ustring
  rc_advert_flood :: bool
  rc_recent_message_ttl_s :: rat
  rc_push_ack_timeout_s :: rat
  rc_push_direct_attempts :: int
  rc_push_flood_attempts :: int
  rc_max_sync_posts :: int

record session =
  ss_pub_key :: bytes
  ss_name :: ustring
  ss_is_admin :: bool
  ss_route_type :: route_type
  ss_path :: bytes
  ss_hash_size :: int

datatype room_task = SyncClient bytes int | FanOut post

text \<open>
  The fields of \<open>RoomServer\<close>: \<open>_sessions\<close> in order of insertion, \<open>_by_hash\<close> with its sets as lists,
  the futures of \<open>_ack_waiters\<close> by number with the set of those that were resolved, the tasks spawned,
  the tables of the (open) store, and what was published to the transmit topic. \<open>sv_publish_fails\<close>
  says which of the broker's publish calls raise.
\<close>

record server =
  sv_sessions :: "(bytes \<times> session) list"
  sv_by_hash :: "int \<Rightarrow> bytes list"
  sv_names :: "bytes \<rightharpoonup> ustring"
  sv_advert_ts :: "bytes \<rightharpoonup> int"
  sv_recent_messages :: "int \<times> bytes \<rightharpoonup> rat"
  sv_ack_waiters :: "bytes \<Rightarrow> nat list"
  sv_resolved :: "nat list"
  sv_next_future :: nat
  sv_tasks :: "room_task list"
  sv_store :: tables
  sv_sent :: "bytes list"
  sv_publishes :: nat
  sv_publish_fails :: "nat \<Rightarrow> bool"

text \<open>
  What does not change: the packages, the configuration, the identity, and the order in which Python
  iterates over a set of keys. A clock gives what the calls of one handler to \<open>time.time\<close> (the
  server's and the store's), \<open>time.monotonic\<close> and \<open>os.urandom\<close> return.
\<close>

record room =
  rm_lib :: crypto_lib
  rm_config :: room_config
  rm_identity :: identity
  rm_set_order :: "bytes list \<Rightarrow> bytes list"

type_synonym 'a handler = "(server, 'a) io"

section \<open>Helpers\<close>

definition publish :: "bytes \<Rightarrow> unit handler" where
  "publish wire s =
     (if sv_publish_fails s (sv_publishes s)
      then (Inl LibraryError, s\<lparr>sv_publishes := Suc (sv_publishes s)\<rparr>)
      else (Inr (), s\<lparr>sv_publishes := Suc (sv_publishes s), sv_sent := sv_sent s @ [wire]\<rparr>))"

definition spawn :: "room_task \<Rightarrow> unit handler" where
  "spawn t = modifyIO (\<lambda>s. s\<lparr>sv_tasks := sv_tasks s @ [t]\<rparr>)"

text \<open>A statement on the store.\<close>

definition on_store :: "(tables, 'a) io \<Rightarrow> 'a handler" where
  "on_store m s = (fst (m (sv_store s)), s\<lparr>sv_store := snd (m (sv_store s))\<rparr>)"

text \<open>\<open>_return_route\<close>: the forward route back to the sender of a packet.\<close>

definition return_route :: "packet \<Rightarrow> (route_type \<times> bytes \<times> int) res" where
  "return_route p =
     bindR (hash_count p) (\<lambda>n.
     if n \<noteq> 0 \<and> pkt_path p \<noteq> []
     then bindR (reverse_path (pkt_path p) (pkt_hash_size p)) (\<lambda>q. Inr (DIRECT, q, pkt_hash_size p))
     else Inr (FLOOD, [], 1))"

datatype role = Admin | Guest

definition classify :: "room_config \<Rightarrow> ustring \<Rightarrow> role option" where
  "classify cfg password =
     (if rc_admin_password cfg \<noteq> [] \<and> password = rc_admin_password cfg then Some Admin
      else if rc_guest_password cfg \<noteq> [] \<and> password = rc_guest_password cfg then Some Guest
      else None)"

definition remember_message :: "room_config \<Rightarrow> rat \<Rightarrow> int \<Rightarrow> bytes \<Rightarrow> bool handler" where
  "remember_message cfg now src_hash ack_hash s =
     (let recent = expire (now - rc_recent_message_ttl_s cfg) (sv_recent_messages s);
          key = (src_hash, ack_hash) in
      if recent key \<noteq> None then (Inr False, s\<lparr>sv_recent_messages := recent\<rparr>)
      else (Inr True, s\<lparr>sv_recent_messages := recent(key \<mapsto> now)\<rparr>))"

definition put_session :: "bytes \<Rightarrow> session \<Rightarrow> server \<Rightarrow> server" where
  "put_session pub_key ses s = s\<lparr>sv_sessions := AList.update pub_key ses (sv_sessions s)\<rparr>"

definition add_by_hash :: "int \<Rightarrow> bytes \<Rightarrow> server \<Rightarrow> server" where
  "add_by_hash h pub_key s =
     s\<lparr>sv_by_hash := (sv_by_hash s)(h := List.insert pub_key (sv_by_hash s h))\<rparr>"

text \<open>\<open>f"client-{pub_key[:2].hex()}"\<close>.\<close>

definition default_name :: "bytes \<Rightarrow> ustring" where
  "default_name pub_key = ustr ''client-'' @ bytes_hex (take 2 pub_key)"

lemma encodable_default_name: "encodable (default_name k)"
proof -
  have d: "hex_digit d < 128" if "d < 16" for d using that by (simp add: hex_digit_def)
  have "unat b div 16 < 16" for b :: byte using unsigned_less [of b, where 'a = nat] by simp
  then have "\<forall>c \<in> set (bytes_hex (take 2 k)). c < 128" by (auto simp: bytes_hex_def d)
  then have "\<forall>c \<in> set (bytes_hex (take 2 k)). c < 0x110000 \<and> \<not> surrogate c" by (auto simp: surrogate_def)
  then show ?thesis by (auto simp: default_name_def encodable_def surrogate_def ustr_def list_all_iff)
qed

definition track_session :: "bytes \<Rightarrow> bool \<Rightarrow> packet \<Rightarrow> session handler" where
  "track_session pub_key is_admin p =
     bindIO (liftR (return_route p)) (\<lambda>(route_type, path, hash_size).
     bindIO getIO (\<lambda>s.
     let name = (case sv_names s pub_key of Some n \<Rightarrow> n | None \<Rightarrow> default_name pub_key) in
     bindIO (case map_of (sv_sessions s) pub_key of
               Some ses \<Rightarrow> returnIO ses
             | None \<Rightarrow>
                 let ses = \<lparr> ss_pub_key = pub_key, ss_name = name, ss_is_admin = is_admin,
                             ss_route_type = FLOOD, ss_path = [], ss_hash_size = 1 \<rparr> in
                 bindIO (modifyIO (put_session pub_key ses)) (\<lambda>_.
                 bindIO (liftR (path_hash pub_key)) (\<lambda>h.
                 bindIO (modifyIO (add_by_hash h pub_key)) (\<lambda>_. returnIO ses)))) (\<lambda>ses.
     let ses1 = ses\<lparr>ss_name := name, ss_is_admin := is_admin\<rparr>;
         ses2 = (if route_type = DIRECT
                 then ses1\<lparr>ss_route_type := route_type, ss_path := path, ss_hash_size := hash_size\<rparr>
                 else ses1) in
     bindIO (modifyIO (put_session pub_key ses2)) (\<lambda>_. returnIO ses2))))"

definition sessions_at :: "room \<Rightarrow> int \<Rightarrow> server \<Rightarrow> session list" where
  "sessions_at R src_hash s = List.map_filter (map_of (sv_sessions s)) (rm_set_order R (sv_by_hash s src_hash))"

section \<open>Acknowledgements\<close>

text \<open>
  \<open>wait_for_ack\<close> in two parts, between which other tasks run: registering the future, and what the
  end of the wait does (\<open>finally\<close> included). The future is done exactly if it was resolved.
\<close>

definition wait_begin :: "bytes \<Rightarrow> nat handler" where
  "wait_begin ack_hash s =
     (Inr (sv_next_future s),
      s\<lparr>sv_next_future := Suc (sv_next_future s),
        sv_ack_waiters := (sv_ack_waiters s)(ack_hash := sv_ack_waiters s ack_hash @ [sv_next_future s])\<rparr>)"

definition wait_end :: "bytes \<Rightarrow> nat \<Rightarrow> bool handler" where
  "wait_end ack_hash fut s =
     (Inr (fut \<in> set (sv_resolved s)),
      s\<lparr>sv_ack_waiters := (sv_ack_waiters s)(ack_hash := remove1 fut (sv_ack_waiters s ack_hash))\<rparr>)"

text \<open>\<open>during\<close> is what the other tasks do until the future is done or the time is up.\<close>

definition wait_for_ack :: "(server \<Rightarrow> server) \<Rightarrow> bytes \<Rightarrow> rat \<Rightarrow> bool handler" where
  "wait_for_ack during ack_hash timeout_s =
     bindIO (wait_begin ack_hash) (\<lambda>fut.
     bindIO (modifyIO during) (\<lambda>_. wait_end ack_hash fut))"

definition resolve_ack :: "bytes \<Rightarrow> bool handler" where
  "resolve_ack ack_hash s =
     (let waiters = sv_ack_waiters s ack_hash in
      (Inr (waiters \<noteq> []),
       s\<lparr>sv_ack_waiters := (sv_ack_waiters s)(ack_hash := []),
         sv_resolved := sv_resolved s @ filter (\<lambda>f. f \<notin> set (sv_resolved s)) waiters\<rparr>))"

definition handle_ack :: "packet \<Rightarrow> unit handler" where
  "handle_ack p =
     (case parse_ack_payload (pkt_payload p) of
        None \<Rightarrow> returnIO ()
      | Some ack_hash \<Rightarrow> bindIO (resolve_ack ack_hash) (\<lambda>_. returnIO ()))"

definition handle_path :: "room \<Rightarrow> packet \<Rightarrow> unit handler" where
  "handle_path R p =
     bindIO (liftR (addressed (rm_identity R) p)) (\<lambda>src.
     case src of
       None \<Rightarrow> returnIO ()
     | Some src_hash \<Rightarrow>
         bindIO getIO (\<lambda>s.
         bindIO (liftR (first_match (open_with (rm_lib R) (rm_identity R) try_decrypt_path_msg (pkt_payload p) \<circ> ss_pub_key)
                          (sessions_at R src_hash s))) (\<lambda>found.
         case found of
           None \<Rightarrow> returnIO ()
         | Some (ses, _, path_msg) \<Rightarrow>
             bindIO (if pm_path path_msg \<noteq> []
                     then modifyIO (put_session (ss_pub_key ses)
                            (ses\<lparr>ss_route_type := DIRECT, ss_path := pm_path path_msg,
                                 ss_hash_size := pm_hash_size path_msg\<rparr>))
                     else returnIO ()) (\<lambda>_.
             if pm_extra_type path_msg = payload_val ACK \<and> 4 \<le> length (pm_extra path_msg)
             then bindIO (resolve_ack (take 4 (pm_extra path_msg))) (\<lambda>_. returnIO ())
             else returnIO ()))))"

section \<open>Adverts\<close>

definition build_self_advert :: "room \<Rightarrow> clock \<Rightarrow> bytes res" where
  "build_self_advert R ck =
     (let app = \<lparr> ad_type = advert_type_val ROOM, ad_name = rc_display_name (rm_config R), ad_lat = None,
                  ad_lon = None, ad_feat1 = None, ad_feat2 = None \<rparr> in
      bindR (encode_advert (rm_lib R) (id_seed (rm_identity R)) (id_pub_key (rm_identity R)) (ck_time ck) app) (\<lambda>payload.
      encode_packet (make_packet (if rc_advert_flood (rm_config R) then FLOOD else DIRECT) ADVERT [] payload 1)))"

definition handle_advert :: "room \<Rightarrow> packet \<Rightarrow> unit handler" where
  "handle_advert R p =
     (case decode_advert (pkt_payload p) of
        Inl e \<Rightarrow> if caught_by_ValueError e then returnIO () else liftR (Inl e)
      | Inr advert \<Rightarrow>
          if av_pub_key advert = id_pub_key (rm_identity R) then returnIO ()
          else
            bindIO (liftR (signature_valid (rm_lib R) advert)) (\<lambda>valid.
            if \<not> valid then returnIO ()
            else
              bindIO getIO (\<lambda>s.
              if (case sv_advert_ts s (av_pub_key advert) of None \<Rightarrow> False | Some last_ts \<Rightarrow> av_timestamp advert < last_ts)
              then returnIO ()
              else
                bindIO (modifyIO (\<lambda>s. s\<lparr>sv_advert_ts := (sv_advert_ts s)(av_pub_key advert \<mapsto> av_timestamp advert)\<rparr>)) (\<lambda>_.
                let name = ad_name (av_app_data advert) in
                if name = [] then returnIO ()
                else
                  bindIO (modifyIO (\<lambda>s. s\<lparr>sv_names := (sv_names s)(av_pub_key advert \<mapsto> name)\<rparr>)) (\<lambda>_.
                  case map_of (sv_sessions s) (av_pub_key advert) of
                    None \<Rightarrow> returnIO ()
                  | Some ses \<Rightarrow> modifyIO (put_session (av_pub_key advert) (ses\<lparr>ss_name := name\<rparr>)))))))"

section \<open>Login\<close>

definition role_permissions :: "role \<Rightarrow> int" where
  "role_permissions r = (if r = Admin then PERM_ACL_ADMIN else PERM_ACL_READ_WRITE)"

definition send_login_response :: "room \<Rightarrow> clock \<Rightarrow> bytes \<Rightarrow> role \<Rightarrow> packet \<Rightarrow> unit handler" where
  "send_login_response R ck client_pub role p =
     bindIO (liftR (id_shared_secret (rm_lib R) (rm_identity R) client_pub)) (\<lambda>shared.
     bindIO (liftR (return_route p)) (\<lambda>(route_type, path, hash_size).
     bindIO (liftR (bindR (path_hash client_pub) (\<lambda>dest_hash. bindR (address (rm_identity R)) (\<lambda>src_hash.
       bindR (build_login_response_packet (rm_lib R) (ck_urandom4 ck) shared dest_hash src_hash (ck_time ck)
                (role = Admin) (role_permissions role) None route_type path hash_size) encode_packet)))) (\<lambda>wire.
     publish wire)))"

definition handle_login :: "room \<Rightarrow> clock \<Rightarrow> packet \<Rightarrow> unit handler" where
  "handle_login R ck p =
     (if pkt_payload p = [] then returnIO ()
      else
        bindIO (liftR (address (rm_identity R))) (\<lambda>me.
        if uint (pkt_payload p ! 0) \<noteq> me then returnIO ()
        else
          bindIO (liftR (try_decrypt_login (rm_lib R) (pkt_payload p) (id_seed (rm_identity R)))) (\<lambda>r.
          case r of
            None \<Rightarrow> returnIO ()
          | Some req \<Rightarrow>
              (case classify (rm_config R) (lg_password req) of
                 None \<Rightarrow> returnIO ()
               | Some role \<Rightarrow>
                   bindIO (track_session (lg_client_pub_key req) (role = Admin) p) (\<lambda>ses.
                   bindIO (on_store (upsert_client (ck_store_time ck) (lg_client_pub_key req) (ss_name ses) (role = Admin))) (\<lambda>_.
                   bindIO (send_login_response R ck (lg_client_pub_key req) role p) (\<lambda>_.
                   spawn (SyncClient (ss_pub_key ses) (lg_sync_since req)))))))))"

section \<open>Posts\<close>

definition send_post_ack :: "room \<Rightarrow> bytes \<Rightarrow> int \<Rightarrow> bytes \<Rightarrow> packet \<Rightarrow> unit handler" where
  "send_post_ack R shared dest_hash ack p =
     (if is_flood p
      then
        bindIO (liftR (bindR (build_path_packet (rm_lib R) [] shared dest_hash (id_pub_key (rm_identity R))
                  (pkt_path p) (pkt_hash_size p) (payload_val ACK) (Some ack) FLOOD [] 1) encode_packet)) publish
      else bindIO (liftR (bindR (build_ack_packet ack FLOOD) encode_packet)) publish)"

text \<open>
  The body of the loop of \<open>handle_post\<close> for the session whose key decrypts the message, and its part
  after the ACK was sent.
\<close>

definition store_new_post :: "room \<Rightarrow> clock \<Rightarrow> bytes \<Rightarrow> txt_msg \<Rightarrow> bool \<Rightarrow> unit handler" where
  "store_new_post R ck author msg new =
     (if \<not> new then returnIO ()
      else if tm_txt_type msg \<noteq> TXT_TYPE_PLAIN then returnIO ()
      else
        bindIO (on_store (add_post (ck_store_time ck) author (tm_timestamp msg) (tm_text msg) 0)) (\<lambda>post.
        spawn (FanOut post)))"

definition accept_post :: "room \<Rightarrow> clock \<Rightarrow> packet \<Rightarrow> session \<Rightarrow> bytes \<Rightarrow> txt_msg \<Rightarrow> unit handler" where
  "accept_post R ck p ses shared msg =
     bindIO (track_session (ss_pub_key ses) (ss_is_admin ses) p) (\<lambda>_.
     bindIO (liftR (txt_ack_hash (rm_lib R) msg (ss_pub_key ses))) (\<lambda>ack.
     bindIO (remember_message (rm_config R) (ck_monotonic ck) (tm_src_hash msg) ack) (\<lambda>new.
     bindIO (send_post_ack R shared (tm_src_hash msg) ack p) (\<lambda>_.
     store_new_post R ck (ss_pub_key ses) msg new))))"

definition handle_post :: "room \<Rightarrow> clock \<Rightarrow> packet \<Rightarrow> unit handler" where
  "handle_post R ck p =
     bindIO (liftR (addressed (rm_identity R) p)) (\<lambda>src.
     case src of
       None \<Rightarrow> returnIO ()
     | Some src_hash \<Rightarrow>
         bindIO getIO (\<lambda>s.
         bindIO (liftR (first_match (open_with (rm_lib R) (rm_identity R) try_decrypt_txt_msg (pkt_payload p) \<circ> ss_pub_key)
                          (sessions_at R src_hash s))) (\<lambda>found.
         case found of
           None \<Rightarrow> returnIO ()
         | Some (ses, shared, msg) \<Rightarrow> accept_post R ck p ses shared msg)))"

section \<open>Pushing posts\<close>

text \<open>
  \<open>push_post\<close> to the session of a key: its return route is read when the push starts. Sessions are
  never removed, so the session a task holds is the one of its key.
\<close>

definition push_post :: "room \<Rightarrow> (server \<Rightarrow> server) \<Rightarrow> bytes \<Rightarrow> post \<Rightarrow> unit handler" where
  "push_post R during pub_key post =
     bindIO getIO (\<lambda>s.
     case map_of (sv_sessions s) pub_key of
       None \<Rightarrow> returnIO ()
     | Some ses \<Rightarrow>
         bindIO (liftR (id_shared_secret (rm_lib R) (rm_identity R) (ss_pub_key ses))) (\<lambda>shared.
         bindIO (liftR (bytes_fromhex (post_author_pubkey post))) (\<lambda>author.
         bindIO (deliver_room_push_with_ack (rm_lib R) publish (wait_for_ack during) shared (ss_pub_key ses)
                   (id_pub_key (rm_identity R)) (post_ts post) author (post_body post) (ss_path ses) (ss_hash_size ses)
                   (rc_push_direct_attempts (rm_config R)) (rc_push_flood_attempts (rm_config R))
                   (rc_push_ack_timeout_s (rm_config R))) (\<lambda>result.
         if dr_acked result then on_store (set_client_cursor (ss_pub_key ses) (post_ts post)) else returnIO ()))))"

text \<open>\<open>xs[:n]\<close>.\<close>

definition py_prefix :: "int \<Rightarrow> 'a list \<Rightarrow> 'a list" where
  "py_prefix n xs = (if 0 \<le> n then take (nat n) xs else take (length xs - nat (- n)) xs)"

definition sync_client :: "room \<Rightarrow> (server \<Rightarrow> server) \<Rightarrow> bytes \<Rightarrow> int \<Rightarrow> unit handler" where
  "sync_client R during pub_key sync_since =
     bindIO (on_store (posts_since sync_since (Some pub_key))) (\<lambda>posts.
     forIO (py_prefix (rc_max_sync_posts (rm_config R)) posts) (push_post R during pub_key))"

definition fan_out_targets :: "server \<Rightarrow> bytes \<Rightarrow> session list" where
  "fan_out_targets s author = filter (\<lambda>ses. ss_pub_key ses \<noteq> author) (map snd (sv_sessions s))"

text \<open>
  \<open>fan_out\<close>: one push per target, each with its own exceptions caught. The pushes run concurrently
  in the code; here one after the other, where \<open>during\<close> may do what the others would.
\<close>

definition caught :: "unit handler \<Rightarrow> unit handler" where
  "caught m s = (Inr (), snd (m s))"

definition fan_out :: "room \<Rightarrow> (server \<Rightarrow> server) \<Rightarrow> post \<Rightarrow> unit handler" where
  "fan_out R during post =
     bindIO (liftR (bytes_fromhex (post_author_pubkey post))) (\<lambda>author.
     bindIO getIO (\<lambda>s.
     forIO (fan_out_targets s author) (\<lambda>ses. caught (push_post R during (ss_pub_key ses) post))))"

section \<open>The receive loop\<close>

definition dispatch :: "room \<Rightarrow> clock \<Rightarrow> packet \<Rightarrow> unit handler" where
  "dispatch R ck p =
     (case pkt_type p of
        ADVERT \<Rightarrow> handle_advert R p
      | ACK \<Rightarrow> handle_ack p
      | PATH \<Rightarrow> handle_path R p
      | ANON_REQ \<Rightarrow> handle_login R ck p
      | TXT_MSG \<Rightarrow> handle_post R ck p
      | _ \<Rightarrow> returnIO ())"

text \<open>One message of the receive topic: what a handler raises is logged, its effects stay.\<close>

definition receive :: "room \<Rightarrow> clock \<times> bytes \<Rightarrow> unit handler" where
  "receive R x =
     (case x of (ck, payload) \<Rightarrow>
       if payload = [] then returnIO ()
       else
         (case decode_packet payload of
            Inl e \<Rightarrow> if caught_by_ValueError e then returnIO () else liftR (Inl e)
          | Inr p \<Rightarrow> caught (dispatch R ck p)))"

definition receive_step :: "room \<Rightarrow> server \<Rightarrow> clock \<times> bytes \<Rightarrow> server \<times> bytes list" where
  "receive_step R s x =
     (let s1 = snd (receive R x s) in (s1, drop (length (sv_sent s)) (sv_sent s1)))"

definition initial_server :: "tables \<Rightarrow> (nat \<Rightarrow> bool) \<Rightarrow> server" where
  "initial_server db fails =
     \<lparr> sv_sessions = [], sv_by_hash = (\<lambda>_. []), sv_names = (\<lambda>_. None), sv_advert_ts = (\<lambda>_. None),
       sv_recent_messages = (\<lambda>_. None), sv_ack_waiters = (\<lambda>_. []), sv_resolved = [], sv_next_future = 0,
       sv_tasks = [], sv_store = db, sv_sent = [], sv_publishes = 0, sv_publish_fails = fails \<rparr>"

end
