(* ===== verification/RoomInvariant.thy ===== *)
theory RoomInvariant
  imports RoomModel
begin

unbundle bit_operations_syntax

text \<open>
  The invariant of the room server and that every handler and the receive loop keep it, whatever
  arrives.
\<close>

section \<open>The invariant\<close>

text \<open>
  Sessions have distinct keys of 32 bytes, each its own; a session's route is a flood or a path that
  encodes; \<open>_by_hash\<close> is the index of the sessions by path hash; the store is well formed.
\<close>

definition route_ok :: "session \<Rightarrow> bool" where
  "route_ok ses \<longleftrightarrow>
     (if ss_path ses = [] then ss_route_type ses = FLOOD
      else ss_route_type ses = DIRECT \<and> path_ok (ss_hash_size ses) (ss_path ses))"

definition wf_server :: "server \<Rightarrow> bool" where
  "wf_server s \<longleftrightarrow>
     distinct (map fst (sv_sessions s)) \<and>
     (\<forall>(k, ses) \<in> set (sv_sessions s). ss_pub_key ses = k \<and> length k = 32 \<and> route_ok ses) \<and>
     (\<forall>h. distinct (sv_by_hash s h) \<and>
          set (sv_by_hash s h) = {k \<in> fst ` set (sv_sessions s). path_hash k = Inr h}) \<and>
     wf_tables (sv_store s)"

text \<open>
  The invariant of the handlers: the server is well formed, every session's key and admin flag are in
  \<open>A\<close>, and what was sent after \<open>pre\<close> are packets that decode.
\<close>

definition decodes :: "bytes \<Rightarrow> bool" where
  "decodes wire \<longleftrightarrow> (\<exists>q. decode_packet wire = Inr q \<and> pkt_type q \<in> {ACK, PATH, RESPONSE})"

definition room_inv :: "(bytes \<times> bool) set \<Rightarrow> bytes list \<Rightarrow> server \<Rightarrow> bool" where
  "room_inv A pre s \<longleftrightarrow>
     wf_server s \<and> (\<forall>(k, ses) \<in> set (sv_sessions s). (k, ss_is_admin ses) \<in> A) \<and>
     (\<exists>new. sv_sent s = pre @ new \<and> list_all decodes new)"

lemma room_inv_cong:
  assumes "sv_sessions t = sv_sessions s" "sv_by_hash t = sv_by_hash s" "sv_store t = sv_store s" "sv_sent t = sv_sent s"
  shows "room_inv A pre t = room_inv A pre s"
  using assms by (simp add: room_inv_def wf_server_def)

lemma room_inv_update [simp]:
  "room_inv A pre (s\<lparr>sv_tasks := x\<rparr>) = room_inv A pre s"
  "room_inv A pre (s\<lparr>sv_names := n\<rparr>) = room_inv A pre s"
  "room_inv A pre (s\<lparr>sv_advert_ts := ts\<rparr>) = room_inv A pre s"
  "room_inv A pre (s\<lparr>sv_recent_messages := r\<rparr>) = room_inv A pre s"
  "room_inv A pre (s\<lparr>sv_ack_waiters := v, sv_resolved := u\<rparr>) = room_inv A pre s"
  "room_inv A pre (s\<lparr>sv_publishes := m\<rparr>) = room_inv A pre s"
  by (rule room_inv_cong; simp)+

lemma fst_set_update: "fst ` set (AList.update k v al) = insert k (fst ` set al)"
  using dom_update [of k v al] by (simp add: dom_map_of_conv_image_fst)

lemma in_set_update:
  "distinct (map fst al) \<Longrightarrow> (j, x) \<in> set (AList.update k v al) \<Longrightarrow> j = k \<and> x = v \<or> j \<noteq> k \<and> (j, x) \<in> set al"
  using set_update_subset [of k v al] distinct_update [of al k v] map_of_is_SomeI [of "AList.update k v al" j x]
  by (auto simp: update_conv split: if_splits)

text \<open>Replacing a session by one of the same key.\<close>

lemma room_inv_put_session:
  assumes inv: "room_inv A pre s" and old: "k \<in> fst ` set (sv_sessions s)"
    and ses: "ss_pub_key ses = k" "route_ok ses" "(k, ss_is_admin ses) \<in> A"
  shows "room_inv A pre (put_session k ses s)"
proof -
  have d: "distinct (map fst (sv_sessions s))" and len: "length k = 32"
    using inv old by (auto simp: room_inv_def wf_server_def)
  have keys: "fst ` set (AList.update k ses (sv_sessions s)) = fst ` set (sv_sessions s)"
    using old by (auto simp: fst_set_update)
  have all: "ss_pub_key x = j \<and> length j = 32 \<and> route_ok x \<and> (j, ss_is_admin x) \<in> A"
    if "(j, x) \<in> set (AList.update k ses (sv_sessions s))" for j x
    using in_set_update [OF d that] inv ses len by (auto simp: room_inv_def wf_server_def)
  show ?thesis using inv all distinct_update [OF d, of k ses]
    unfolding room_inv_def wf_server_def put_session_def by (auto simp: keys)
qed

text \<open>A new session, entered in both tables.\<close>

lemma room_inv_new_session:
  assumes inv: "room_inv A pre s" and new: "k \<notin> fst ` set (sv_sessions s)"
    and ses: "ss_pub_key ses = k" "length k = 32" "route_ok ses" "(k, ss_is_admin ses) \<in> A"
    and h: "path_hash k = Inr h"
  shows "room_inv A pre (put_session k ses (add_by_hash h k s))"
proof -
  have d: "distinct (map fst (sv_sessions s))" using inv by (auto simp: room_inv_def wf_server_def)
  have all: "ss_pub_key x = j \<and> length j = 32 \<and> route_ok x \<and> (j, ss_is_admin x) \<in> A"
    if "(j, x) \<in> set (AList.update k ses (sv_sessions s))" for j x
    using in_set_update [OF d that] inv ses by (auto simp: room_inv_def wf_server_def)
  show ?thesis using inv all distinct_update [OF d, of k ses] h
    unfolding room_inv_def wf_server_def put_session_def add_by_hash_def by (auto simp: fst_set_update)
qed

lemma room_inv_publish:
  assumes "room_inv A pre s" "decodes wire"
  shows "wp (publish wire) (\<lambda>_. room_inv A pre) (room_inv A pre) s"
proof -
  obtain new where "sv_sent s = pre @ new" "list_all decodes new" using assms(1) by (auto simp: room_inv_def)
  then have "sv_sent s @ [wire] = pre @ (new @ [wire])" "list_all decodes (new @ [wire])" using assms(2) by simp_all
  then show ?thesis using assms(1) unfolding wp_def publish_def
    by (auto simp: room_inv_def wf_server_def)
qed

lemma room_inv_store:
  "room_inv A pre s \<Longrightarrow> wf_tables (snd (m (sv_store s))) \<Longrightarrow>
    wp (on_store m) (\<lambda>_. room_inv A pre) (room_inv A pre) s"
  by (simp add: wp_snd on_store_def room_inv_def wf_server_def)

section \<open>The handlers keep the invariant\<close>

lemma room_inv_mono: "room_inv A pre s \<Longrightarrow> A \<subseteq> B \<Longrightarrow> room_inv B pre s"
  by (fastforce simp: room_inv_def)

lemma return_route_ok:
  assumes "wf_packet p"
  obtains "pkt_path p = []" "return_route p = Inr (FLOOD, [], 1)"
  | q where "pkt_path p \<noteq> []" "return_route p = Inr (DIRECT, q, pkt_hash_size p)"
      "reverse_path (pkt_path p) (pkt_hash_size p) = Inr q"
      "path_ok (pkt_hash_size p) q" "q \<noteq> []" "length q \<le> 64"
proof (cases "pkt_path p = []")
  case True
  have "1 \<le> pkt_hash_size p" using assms by (simp add: wf_packet_def path_ok_def)
  then show ?thesis using True that(1) by (simp add: return_route_def hash_count_def)
next
  case False
  have ok: "path_ok (pkt_hash_size p) (pkt_path p)" "length (pkt_path p) \<le> 64"
    using assms by (simp_all add: wf_packet_def)
  obtain q where q: "reverse_path (pkt_path p) (pkt_hash_size p) = Inr q" "path_ok (pkt_hash_size p) q"
    "q \<noteq> []" "length q = length (pkt_path p)" by (rule reverse_path_ok [OF ok(1) False])
  have "int (length (pkt_path p)) div pkt_hash_size p \<noteq> 0"
    using ok(1) False by (auto simp: path_ok_def dvd_div_eq_0_iff mod_eq_0_iff_dvd)
  moreover have "pkt_hash_size p \<noteq> 0" using ok(1) by (simp add: path_ok_def)
  ultimately show ?thesis using that(2) False q ok(2) by (simp add: return_route_def hash_count_def)
qed

lemma track_session_inv:
  assumes inv: "room_inv A pre s" and p: "wf_packet p" and k: "length k = 32" "(k, adm) \<in> A"
  shows "wp (track_session k adm p) (\<lambda>ses t. room_inv A pre t \<and> ss_pub_key ses = k) (room_inv A pre) s"
proof -
  obtain r q hs where r: "return_route p = Inr (r, q, hs)" "r = DIRECT \<longrightarrow> q \<noteq> [] \<and> path_ok hs q"
    using return_route_ok [OF p] by (metis route_type.distinct(9))
  have "k \<noteq> []" using k(1) by auto
  then obtain h where h: "path_hash k = Inr h" using path_hash_total by blast
  have put: "room_inv A pre (put_session k ses t)"
    if "room_inv A pre t" "map_of (sv_sessions t) k \<noteq> None" "ss_pub_key ses = k" "route_ok ses" "ss_is_admin ses = adm"
    for ses t
    using that k(2) by (intro room_inv_put_session) (auto simp: map_of_eq_None_iff)
  show ?thesis
  proof (cases "map_of (sv_sessions s) k")
    case None
    have new: "room_inv A pre (put_session k ses (add_by_hash h k s))"
      if "ss_pub_key ses = k" "route_ok ses" "ss_is_admin ses = adm" for ses
      using that k h inv None by (intro room_inv_new_session) (auto simp: map_of_eq_None_iff)
    have swap: "add_by_hash h k (put_session k ses s) = put_session k ses (add_by_hash h k s)" for ses
      by (simp add: add_by_hash_def put_session_def)
    have dom: "map_of (sv_sessions (put_session k ses t)) k \<noteq> None" for ses t
      by (simp add: put_session_def update_conv)
    show ?thesis using r(2)
      by (auto simp: track_session_def wp r(1) None h swap Let_def route_ok_def intro!: put new dom)
  next
    case (Some ses)
    then have "(k, ses) \<in> set (sv_sessions s)" by (rule map_of_SomeD)
    then have ses: "ss_pub_key ses = k" "route_ok ses" using inv by (auto simp: room_inv_def wf_server_def)
    have 1: "room_inv A pre (put_session k (ses\<lparr>ss_name := n, ss_is_admin := adm\<rparr>) s)" for n
      using ses Some by (intro put inv) (simp_all add: route_ok_def)
    have 2: "room_inv A pre (put_session k (ses\<lparr>ss_name := n, ss_is_admin := adm, ss_route_type := DIRECT,
        ss_path := q, ss_hash_size := hs\<rparr>) s)" if "r = DIRECT" for n
      using ses Some that r(2) by (intro put inv) (simp_all add: route_ok_def)
    show ?thesis using 1 2 ses(1) by (simp add: track_session_def wp r(1) Some Let_def)
  qed
qed

lemma session_in:
  "room_inv A pre s \<Longrightarrow> (k, ses) \<in> set (sv_sessions s) \<Longrightarrow>
    ss_pub_key ses = k \<and> length k = 32 \<and> route_ok ses \<and> (k, ss_is_admin ses) \<in> A \<and> k \<in> fst ` set (sv_sessions s)"
proof -
  assume inv: "room_inv A pre s" and x: "(k, ses) \<in> set (sv_sessions s)"
  have "\<forall>(k, ses) \<in> set (sv_sessions s). ss_pub_key ses = k \<and> length k = 32 \<and> route_ok ses"
    "\<forall>(k, ses) \<in> set (sv_sessions s). (k, ss_is_admin ses) \<in> A"
    using inv unfolding room_inv_def wf_server_def by blast+
  from bspec [OF this(1) x] bspec [OF this(2) x] image_eqI [OF _ x, of k fst] show ?thesis by simp
qed

lemma session_at_in:
  "ses \<in> set (sessions_at R h s) \<Longrightarrow> room_inv A pre s \<Longrightarrow>
    (ss_pub_key ses, ses) \<in> set (sv_sessions s) \<and> length (ss_pub_key ses) = 32 \<and> (ss_pub_key ses, ss_is_admin ses) \<in> A"
proof -
  assume "ses \<in> set (sessions_at R h s)" and inv: "room_inv A pre s"
  then obtain k where "map_of (sv_sessions s) k = Some ses" by (auto simp: sessions_at_def List.map_filter_def)
  then have x: "(k, ses) \<in> set (sv_sessions s)" by (rule map_of_SomeD)
  with session_in [OF inv x] show ?thesis by simp
qed

lemma resolve_ack_inv: "room_inv A pre s \<Longrightarrow> wp (resolve_ack a) (\<lambda>_. room_inv A pre) (room_inv A pre) s"
  by (simp add: wp_def resolve_ack_def Let_def)

lemma handle_ack_inv: "room_inv A pre s \<Longrightarrow> wp (handle_ack p) (\<lambda>_. room_inv A pre) (room_inv A pre) s"
  by (cases "parse_ack_payload (pkt_payload p)") (simp_all add: handle_ack_def wp resolve_ack_inv)

lemma handle_path_inv:
  assumes inv: "room_inv A pre s"
  shows "wp (handle_path R p) (\<lambda>_. room_inv A pre) (room_inv A pre) s"
proof -
  have put: "room_inv A pre (put_session (ss_pub_key ses) (ses\<lparr>ss_route_type := DIRECT, ss_path := pm_path m,
        ss_hash_size := pm_hash_size m\<rparr>) s)"
    if f: "first_match (open_with (rm_lib R) (rm_identity R) try_decrypt_path_msg (pkt_payload p) \<circ> ss_pub_key) (sessions_at R h s)
        = Inr (Some (ses, k, m))" and ne: "pm_path m \<noteq> []" for h ses k m
  proof -
    have "ses \<in> set (sessions_at R h s)" "try_decrypt_path_msg (rm_lib R) (pkt_payload p) k = Inr (Some m)"
      using first_match_Some [OF f] by (auto simp: open_with_def split: option.splits)
    then show ?thesis using session_at_in [OF _ inv] try_decrypt_path_msg_ok ne
      by (intro room_inv_put_session [OF inv]) (force simp: route_ok_def)+
  qed
  show ?thesis using inv put
    by (auto simp: handle_path_def wp resolve_ack_inv split: sum.splits option.splits)
qed

lemma handle_advert_inv:
  assumes inv: "room_inv A pre s"
  shows "wp (handle_advert R p) (\<lambda>_. room_inv A pre) (room_inv A pre) s"
proof -
  have put: "room_inv A pre (put_session k (ses\<lparr>ss_name := n\<rparr>) t)"
    if "map_of (sv_sessions t) k = Some ses" "room_inv A pre t" for k ses n t
    using session_in [OF that(2) map_of_SomeD [OF that(1)]] that(2)
    by (intro room_inv_put_session) (simp_all add: route_ok_def)
  show ?thesis
  proof (cases "decode_advert (pkt_payload p)")
    case (Inl e)
    then show ?thesis using inv by (simp add: handle_advert_def wp)
  next
    case (Inr a)
    show ?thesis
    proof (cases "signature_valid (rm_lib R) a")
      case (Inl e)
      then show ?thesis using inv Inr by (simp add: handle_advert_def wp)
    next
      case valid: (Inr v)
      let ?k = "av_pub_key a" and ?n = "ad_name (av_app_data a)"
      let ?t = "s\<lparr>sv_advert_ts := (sv_advert_ts s)(?k \<mapsto> av_timestamp a)\<rparr>"
      let ?u = "?t\<lparr>sv_names := (sv_names s)(?k \<mapsto> ?n)\<rparr>"
      have u: "room_inv A pre ?u" "room_inv A pre ?t" using inv by simp_all
      have "room_inv A pre (put_session ?k (ses\<lparr>ss_name := ?n\<rparr>) ?u)" if "map_of (sv_sessions s) ?k = Some ses" for ses
        by (rule put) (use that u(1) in simp_all)
      then show ?thesis unfolding handle_advert_def Inr sum.case wp valid Let_def
        using inv u by (auto split: option.splits)
    qed
  qed
qed

lemma decodes_made:
  assumes "encode_packet (make_packet r t path payload hs) = Inr w"
    and "r \<in> {DIRECT, FLOOD}" "t \<in> {ACK, PATH, RESPONSE}" "path_ok hs path" "length path \<le> 64"
  shows "decodes w"
  using pkt_codec.dec_enc [OF wf_made_packet [OF assms(2) _ assms(4,5)] assms(1)] assms(3)
  by (auto simp: decodes_def make_packet_def)

lemma wp_publish_lift:
  assumes "room_inv A pre s" "\<And>w. r = Inr w \<Longrightarrow> decodes w"
  shows "wp (bindIO (liftR r) publish) (\<lambda>_. room_inv A pre) (room_inv A pre) s"
  using assms room_inv_publish [OF assms(1)] by (cases r) (simp_all add: wp)

lemma send_post_ack_inv:
  "room_inv A pre s \<Longrightarrow> wp (send_post_ack R shared d ack p) (\<lambda>_. room_inv A pre) (room_inv A pre) s"
proof -
  assume inv: "room_inv A pre s"
  have "decodes w" if "encode_packet (make_packet FLOOD PATH [] b 1) = Inr w" for w b
    by (rule decodes_made [OF that]) simp_all
  moreover have "decodes w" if "encode_packet (make_packet FLOOD ACK [] b 1) = Inr w" for w b
    by (rule decodes_made [OF that]) simp_all
  ultimately show ?thesis unfolding send_post_ack_def wp_if using inv
    by (auto intro!: wp_publish_lift simp: build_path_packet_def build_ack_packet_def split: if_splits)
qed

lemma send_login_response_inv:
  assumes "room_inv A pre s" "wf_packet p"
  shows "wp (send_login_response R ck k role p) (\<lambda>_. room_inv A pre) (room_inv A pre) s"
proof -
  obtain r q hs where r: "return_route p = Inr (r, q, hs)" "r \<in> {DIRECT, FLOOD}" "path_ok hs q" "length q \<le> 64"
    by (rule return_route_ok [OF assms(2)]) auto
  have "wp (bindIO (liftR (bindR (path_hash k) (\<lambda>dest_hash. bindR (address (rm_identity R)) (\<lambda>src_hash.
       bindR (build_login_response_packet (rm_lib R) (ck_urandom4 ck) shared dest_hash src_hash (ck_time ck)
                (role = Admin) (role_permissions role) None r q hs) encode_packet)))) publish)
      (\<lambda>_. room_inv A pre) (room_inv A pre) s" for shared
    by (rule wp_publish_lift [OF assms(1)]) (use r(2-4) in \<open>auto simp: build_login_response_packet_def dest: decodes_made\<close>)
  then show ?thesis using assms(1) r(1) unfolding send_login_response_def wp(5)
    by (cases "id_shared_secret (rm_lib R) (rm_identity R) k") (simp_all add: wp)
qed

lemma upsert_client_inv:
  "room_inv A pre s \<Longrightarrow> wp (on_store (upsert_client now k n adm)) (\<lambda>_. room_inv A pre) (room_inv A pre) s"
  by (rule room_inv_store) (simp_all add: wf_clients room_inv_def wf_server_def)

lemma add_post_inv:
  "room_inv A pre s \<Longrightarrow> wp (on_store (add_post now k ts body tt)) (\<lambda>_. room_inv A pre) (room_inv A pre) s"
  by (rule room_inv_store) (simp_all add: wf_add_post room_inv_def wf_server_def)

lemma remember_message_inv:
  "room_inv A pre s \<Longrightarrow> wp (remember_message cfg now src ack) (\<lambda>_. room_inv A pre) (room_inv A pre) s"
  by (simp add: wp_def remember_message_def Let_def)

lemma handle_login_inv:
  assumes inv: "room_inv A pre s" and p: "wf_packet p"
    and adm: "\<And>req role. pkt_payload p \<noteq> [] \<Longrightarrow> address (rm_identity R) = Inr (uint (pkt_payload p ! 0)) \<Longrightarrow>
      try_decrypt_login (rm_lib R) (pkt_payload p) (id_seed (rm_identity R)) = Inr (Some req) \<Longrightarrow>
      classify (rm_config R) (lg_password req) = Some role \<Longrightarrow> (lg_client_pub_key req, role = Admin) \<in> A"
  shows "wp (handle_login R ck p) (\<lambda>_. room_inv A pre) (room_inv A pre) s"
proof -
  have rest: "wp (bindIO (on_store (upsert_client now k n b)) (\<lambda>_.
      bindIO (send_login_response R ck k role p) (\<lambda>_. spawn t))) (\<lambda>_. room_inv A pre) (room_inv A pre) u"
    if "room_inv A pre u" for now k n b role t u
    unfolding wp(5)
    by (rule wp_mono [OF upsert_client_inv [OF that]], rule wp_mono [OF send_login_response_inv [OF _ p]])
      (simp_all add: spawn_def wp)
  have body: "wp (bindIO (track_session (lg_client_pub_key req) (role = Admin) p) (\<lambda>ses.
      bindIO (on_store (upsert_client (ck_store_time ck) (lg_client_pub_key req) (ss_name ses) (role = Admin))) (\<lambda>_.
      bindIO (send_login_response R ck (lg_client_pub_key req) role p) (\<lambda>_.
      spawn (SyncClient (ss_pub_key ses) (lg_sync_since req)))))) (\<lambda>_. room_inv A pre) (room_inv A pre) s"
    if "(lg_client_pub_key req, role = Admin) \<in> A" "length (lg_client_pub_key req) = 32" for req role
    unfolding wp(5) [of "track_session _ _ _"]
    by (rule wp_mono [OF track_session_inv [OF inv p that(2,1)]]) (auto intro: rest)
  show ?thesis
  proof (cases "pkt_payload p = [] \<or> address (rm_identity R) \<noteq> Inr (uint (pkt_payload p ! 0))")
    case True
    then show ?thesis using inv
      by (cases "address (rm_identity R)") (auto simp: handle_login_def wp)
  next
    case False
    show ?thesis
    proof (cases "try_decrypt_login (rm_lib R) (pkt_payload p) (id_seed (rm_identity R))")
      case (Inl e)
      then show ?thesis using inv False by (simp add: handle_login_def wp)
    next
      case (Inr r)
      show ?thesis
      proof (cases r)
        case None
        then show ?thesis using inv False Inr by (simp add: handle_login_def wp)
      next
        case (Some req)
        note l = login_key_length [OF Inr [unfolded Some]]
        show ?thesis
        proof (cases "classify (rm_config R) (lg_password req)")
          case None
          then show ?thesis using inv False Inr Some by (simp add: handle_login_def wp)
        next
          case (Some role)
          have "(lg_client_pub_key req, role = Admin) \<in> A" using adm False Inr \<open>r = Some req\<close> Some by blast
          from body [OF this l] show ?thesis using False Inr \<open>r = Some req\<close> Some
            by (simp add: handle_login_def wp(2,5) wp_if)
        qed
      qed
    qed
  qed
qed

lemma store_new_post_inv:
  "room_inv A pre s \<Longrightarrow> wp (store_new_post R ck k msg new) (\<lambda>_. room_inv A pre) (room_inv A pre) s"
  using wp_mono [OF add_post_inv [of A pre s]] by (simp add: store_new_post_def spawn_def wp)

lemma accept_post_inv:
  assumes inv: "room_inv A pre s" and p: "wf_packet p" and ses: "ses \<in> set (sessions_at R h s)"
  shows "wp (accept_post R ck p ses shared msg) (\<lambda>_. room_inv A pre) (room_inv A pre) s"
proof -
  have k: "length (ss_pub_key ses) = 32" "(ss_pub_key ses, ss_is_admin ses) \<in> A"
    using session_at_in [OF ses inv] by simp_all
  have send: "wp (send_post_ack R shared src ack p) (\<lambda>_. wp (store_new_post R ck k msg new) (\<lambda>_. room_inv A pre) (room_inv A pre))
      (room_inv A pre) u" if "room_inv A pre u" for src ack k new u
    by (rule wp_mono [OF send_post_ack_inv [OF that]]) (auto intro: store_new_post_inv)
  have remember: "wp (remember_message (rm_config R) now src ack) (\<lambda>new.
      wp (send_post_ack R shared src ack p) (\<lambda>_. wp (store_new_post R ck k msg new) (\<lambda>_. room_inv A pre) (room_inv A pre))
      (room_inv A pre)) (room_inv A pre) u" if "room_inv A pre u" for now src ack k u
    by (rule wp_mono [OF remember_message_inv [OF that]]) (auto intro: send)
  show ?thesis unfolding accept_post_def wp
    by (rule wp_mono [OF track_session_inv [OF inv p k]]) (auto intro: remember split: sum.splits)
qed

lemma handle_post_inv:
  assumes inv: "room_inv A pre s" and p: "wf_packet p"
  shows "wp (handle_post R ck p) (\<lambda>_. room_inv A pre) (room_inv A pre) s"
proof -
  have "wp (accept_post R ck p ses shared msg) (\<lambda>_. room_inv A pre) (room_inv A pre) s"
    if "first_match (open_with (rm_lib R) (rm_identity R) try_decrypt_txt_msg (pkt_payload p) \<circ> ss_pub_key) (sessions_at R h s)
      = Inr (Some (ses, shared, msg))" for h ses shared msg
    using first_match_Some [OF that] by (intro accept_post_inv [OF inv p, where h = h]) simp
  then show ?thesis using inv
    by (auto simp: handle_post_def wp split: sum.splits option.splits)
qed

text \<open>The keys and flags a batch of frames logs in.\<close>

definition admits :: "room \<Rightarrow> bytes \<Rightarrow> bytes \<Rightarrow> bool \<Rightarrow> bool" where
  "admits R frame k adm \<longleftrightarrow>
     (\<exists>p req. decode_packet frame = Inr p \<and> pkt_type p = ANON_REQ \<and> pkt_payload p \<noteq> [] \<and>
        address (rm_identity R) = Inr (uint (pkt_payload p ! 0)) \<and>
        try_decrypt_login (rm_lib R) (pkt_payload p) (id_seed (rm_identity R)) = Inr (Some req) \<and>
        lg_password req \<noteq> [] \<and>
        lg_password req = (if adm then rc_admin_password else rc_guest_password) (rm_config R) \<and>
        k = lg_client_pub_key req)"

definition admissions :: "room \<Rightarrow> (clock \<times> bytes) list \<Rightarrow> (bytes \<times> bool) set" where
  "admissions R frames = {(k, adm). \<exists>x \<in> set frames. admits R (snd x) k adm}"

lemma dispatch_inv:
  assumes inv: "room_inv A pre s" and p: "decode_packet frame = Inr p"
    and A: "\<And>k adm. admits R frame k adm \<Longrightarrow> (k, adm) \<in> A"
  shows "wp (dispatch R ck p) (\<lambda>_. room_inv A pre) (room_inv A pre) s"
proof -
  have wf: "wf_packet p" using decode_packet_Inr(1) [OF p] .
  have l: "wp (handle_login R ck p) (\<lambda>_. room_inv A pre) (room_inv A pre) s" if "pkt_type p = ANON_REQ"
  proof (rule handle_login_inv [OF inv wf], rule A)
    fix req role
    assume "pkt_payload p \<noteq> []" "address (rm_identity R) = Inr (uint (pkt_payload p ! 0))"
      "try_decrypt_login (rm_lib R) (pkt_payload p) (id_seed (rm_identity R)) = Inr (Some req)"
      "classify (rm_config R) (lg_password req) = Some role"
    then show "admits R frame (lg_client_pub_key req) (role = Admin)"
      using p that by (auto simp: admits_def classify_def split: if_splits)
  qed
  show ?thesis
    using inv l handle_advert_inv [OF inv] handle_ack_inv [OF inv] handle_path_inv [OF inv] handle_post_inv [OF inv wf]
    by (cases "pkt_type p") (simp_all add: dispatch_def wp)
qed

text \<open>\<open>receive\<close> never raises, and its state is that of the handler.\<close>

lemma receive_total: "fst (receive R x s) = Inr ()"
  using decode_packet_Inl
  by (auto simp: receive_def caught_def returnIO_def caught_by_ValueError_def split: prod.splits sum.splits)

lemma receive_inv:
  assumes inv: "room_inv A pre s" and A: "\<And>k adm. admits R (snd x) k adm \<Longrightarrow> (k, adm) \<in> A"
  shows "room_inv A pre (snd (receive R x s))"
proof -
  obtain ck frame where x: "x = (ck, frame)" by (cases x)
  show ?thesis
  proof (cases "decode_packet frame")
    case (Inl e)
    then show ?thesis using inv x by (simp add: receive_def returnIO_def liftR_def)
  next
    case (Inr p)
    have "room_inv A pre (snd (dispatch R ck p s))"
      using dispatch_inv [OF inv Inr, of R ck] A x unfolding wp_snd by simp
    then show ?thesis using inv x Inr by (simp add: receive_def returnIO_def caught_def)
  qed
qed

text \<open>The receive loop as a machine that emits the wires it publishes.\<close>

definition serving :: "server \<Rightarrow> bool" where
  "serving s \<longleftrightarrow> room_inv UNIV (sv_sent s) s"

lemma servingI: "room_inv A pre s \<Longrightarrow> serving s"
  using room_inv_mono [of A pre s UNIV] by (auto simp: serving_def room_inv_def)

interpretation room_loop: machine "receive_step R" serving decodes for R
proof
  fix s x w
  assume s: "serving s"
  have inv: "room_inv UNIV (sv_sent s) (snd (receive R x s))"
    by (rule receive_inv) (use s in \<open>simp_all add: serving_def\<close>)
  then show "serving (fst (receive_step R s x))" by (simp add: receive_step_def Let_def servingI)
  assume "w \<in> set (snd (receive_step R s x))"
  then show "decodes w" using inv by (auto simp: receive_step_def Let_def room_inv_def list_all_iff)
qed

end
