(* ===== verification/RoomServer.thy ===== *)
theory RoomServer
  imports RoomInvariant
begin

unbundle bit_operations_syntax

text \<open>
  What the room server does with a post, a login and an acknowledgement, and its properties.
\<close>

section \<open>What one post does\<close>

text \<open>The session, secret and message a TXT_MSG packet is matched to.\<close>

definition match_post :: "room \<Rightarrow> server \<Rightarrow> packet \<Rightarrow> session \<Rightarrow> bytes \<Rightarrow> txt_msg \<Rightarrow> bool" where
  "match_post R s p ses shared msg \<longleftrightarrow>
     (\<exists>h. addressed (rm_identity R) p = Inr (Some h) \<and>
        first_match (open_with (rm_lib R) (rm_identity R) try_decrypt_txt_msg (pkt_payload p) \<circ> ss_pub_key) (sessions_at R h s)
          = Inr (Some (ses, shared, msg)))"

lemma handle_post_match:
  "match_post R s p ses shared msg \<Longrightarrow> handle_post R ck p s = accept_post R ck p ses shared msg s"
  by (auto simp: match_post_def handle_post_def io_defs)

lemma handle_post_no_match:
  "(\<nexists>ses shared msg. match_post R s p ses shared msg) \<Longrightarrow> snd (handle_post R ck p s) = s"
  by (auto simp: match_post_def handle_post_def io_defs split: sum.splits option.splits)

lemma match_post_session:
  assumes "room_inv A pre s" "match_post R s p ses shared msg"
  shows "map_of (sv_sessions s) (ss_pub_key ses) = Some ses" "length (ss_pub_key ses) = 32"
proof -
  obtain h where "ses \<in> set (sessions_at R h s)" using assms(2) first_match_Some by (fastforce simp: match_post_def)
  note k = session_at_in [OF this assms(1)]
  have "distinct (map fst (sv_sessions s))" using assms(1) by (simp add: room_inv_def wf_server_def)
  then show "map_of (sv_sessions s) (ss_pub_key ses) = Some ses" "length (ss_pub_key ses) = 32"
    using k by simp_all
qed

lemma track_existing:
  assumes "wf_packet p" "map_of (sv_sessions s) k = Some ses"
  shows "\<exists>ses'. track_session k adm p s = (Inr ses', put_session k ses' s) \<and> ss_pub_key ses' = ss_pub_key ses"
proof -
  obtain r q hs where "return_route p = Inr (r, q, hs)" using return_route_ok [OF assms(1)] by metis
  then show ?thesis using assms(2) by (simp add: track_session_def io_defs Let_def)
qed

text \<open>The packets found at a hash have the same keys after a session was replaced.\<close>

lemma sessions_at_put:
  assumes inv: "room_inv A pre s" and k: "map_of (sv_sessions s) k \<noteq> None" "ss_pub_key ses = k"
  shows "map ss_pub_key (sessions_at R h (put_session k ses s)) = map ss_pub_key (sessions_at R h s)"
proof -
  have "ss_pub_key x = j" if "map_of (sv_sessions s) j = Some x" for j x
    using session_in [OF inv map_of_SomeD [OF that]] by simp
  then show ?thesis using k
    by (auto simp: sessions_at_def List.map_filter_def put_session_def update_conv filter_map comp_def intro!: map_cong filter_cong)
qed

text \<open>A server whose next publish call succeeds sends the ACK.\<close>

definition sent_one :: "bytes \<Rightarrow> server \<Rightarrow> server" where
  "sent_one w s = s\<lparr>sv_publishes := Suc (sv_publishes s), sv_sent := sv_sent s @ [w]\<rparr>"

lemma publish_outcome:
  "\<not> sv_publish_fails s (sv_publishes s) \<Longrightarrow> publish w s = (Inr (), sent_one w s)"
  "sv_publish_fails s (sv_publishes s) \<Longrightarrow>
    publish w s = (Inl LibraryError, s\<lparr>sv_publishes := Suc (sv_publishes s)\<rparr>)"
  by (simp_all add: publish_def sent_one_def)

lemma send_post_ack_ok:
  assumes C: "crypto_laws (rm_lib R)" "16 \<le> length k" and ack: "length ack = 4" and p: "wf_packet p"
    and pub: "id_pub_key (rm_identity R) \<noteq> []"
  shows "\<exists>w q. decode_packet w = Inr q \<and> confirms (rm_lib R) k p ack q \<and>
    (\<forall>s. send_post_ack R k d ack p s = publish w s)"
proof -
  obtain w q where w: "(if is_flood p
      then bindR (build_path_packet (rm_lib R) [] k d (id_pub_key (rm_identity R)) (pkt_path p) (pkt_hash_size p)
                    (payload_val ACK) (Some ack) FLOOD [] 1) encode_packet
      else bindR (build_ack_packet ack FLOOD) encode_packet) = Inr w"
    and q: "decode_packet w = Inr q" "confirms (rm_lib R) k p ack q"
    using ack_build_ok [OF C ack p pub] by blast
  have "send_post_ack R k d ack p = bindIO (liftR (Inr w)) publish"
    using w by (auto simp: send_post_ack_def split: if_splits)
  then have "send_post_ack R k d ack p s = publish w s" for s by (simp add: io_defs)
  then show ?thesis using q by blast
qed

lemma match_post_open:
  "match_post R s p ses shared msg \<Longrightarrow>
    id_shared_secret (rm_lib R) (rm_identity R) (ss_pub_key ses) = Inr shared \<and>
    try_decrypt_txt_msg (rm_lib R) (pkt_payload p) shared = Inr (Some msg)"
  by (auto simp: match_post_def dest!: first_match_Some open_with_Some)

lemma accept_post_steps:
  assumes "wf_packet p" "map_of (sv_sessions s) (ss_pub_key ses) = Some ses"
    and "txt_ack_hash (rm_lib R) msg (ss_pub_key ses) = Inr ack"
  obtains ses' where "ss_pub_key ses' = ss_pub_key ses"
    "accept_post R ck p ses shared msg s =
       bindIO (remember_message (rm_config R) (ck_monotonic ck) (tm_src_hash msg) ack) (\<lambda>new.
       bindIO (send_post_ack R shared (tm_src_hash msg) ack p) (\<lambda>_.
       store_new_post R ck (ss_pub_key ses) msg new)) (put_session (ss_pub_key ses) ses' s)"
proof -
  obtain ses' where t: "track_session (ss_pub_key ses) (ss_is_admin ses) p s = (Inr ses', put_session (ss_pub_key ses) ses' s)"
    "ss_pub_key ses' = ss_pub_key ses" using track_existing [OF assms(1,2)] by blast
  show thesis by (rule that [OF t(2)]) (simp add: accept_post_def assms(3) io_defs t(1))
qed

lemma put_session_sel [simp]:
  "sv_recent_messages (put_session k x s) = sv_recent_messages s" "sv_publishes (put_session k x s) = sv_publishes s"
  "sv_publish_fails (put_session k x s) = sv_publish_fails s" "sv_sent (put_session k x s) = sv_sent s"
  "sv_store (put_session k x s) = sv_store s" "sv_tasks (put_session k x s) = sv_tasks s"
  "sv_by_hash (put_session k x s) = sv_by_hash s" "sv_ack_waiters (put_session k x s) = sv_ack_waiters s"
  "sv_resolved (put_session k x s) = sv_resolved s"
  by (simp_all add: put_session_def)

lemma sent_one_sel [simp]:
  "sv_sent (sent_one w s) = sv_sent s @ [w]" "sv_store (sent_one w s) = sv_store s"
  "sv_tasks (sent_one w s) = sv_tasks s"
  by (simp_all add: sent_one_def)

lemma receive_post:
  "decode_packet frame = Inr p \<Longrightarrow> pkt_type p = TXT_MSG \<Longrightarrow>
    snd (receive R (ck, frame) s) = snd (handle_post R ck p s)"
  by (auto simp: receive_def dispatch_def caught_def decode_packet_def)

text \<open>What sending the ACK and storing a post change, and what a stored post leaves behind.\<close>

lemma send_post_ack_frame: "\<exists>n l. snd (send_post_ack R sh d a q u) = u\<lparr>sv_publishes := n, sv_sent := l\<rparr>"
proof -
  have *: "\<exists>n l. snd (bindIO (liftR r) publish u) = u\<lparr>sv_publishes := n, sv_sent := l\<rparr>" for r
  proof (cases r)
    case (Inl e)
    then show ?thesis by (intro exI [of _ "sv_publishes u"] exI [of _ "sv_sent u"]) (simp add: io_defs)
  next
    case (Inr w)
    then have "snd (bindIO (liftR r) publish u) =
        u\<lparr>sv_publishes := Suc (sv_publishes u),
          sv_sent := (if sv_publish_fails u (sv_publishes u) then sv_sent u else sv_sent u @ [w])\<rparr>"
      by (simp add: io_defs publish_def)
    then show ?thesis by blast
  qed
  show ?thesis
  proof (cases "is_flood q")
    case True
    show ?thesis unfolding send_post_ack_def if_P [OF True] by (rule *)
  next
    case False
    show ?thesis unfolding send_post_ack_def if_not_P [OF False] by (rule *)
  qed
qed

lemma store_new_post_frame:
  "\<exists>t l. snd (store_new_post R ck k m new u) = u\<lparr>sv_store := t, sv_tasks := l\<rparr> \<and>
    (\<not> new \<longrightarrow> t = sv_store u \<and> l = sv_tasks u)"
proof (cases "new \<and> tm_txt_type m = TXT_TYPE_PLAIN")
  case False
  then show ?thesis by (intro exI [of _ "sv_store u"] exI [of _ "sv_tasks u"]) (auto simp: store_new_post_def io_defs)
next
  case True
  obtain r t where "add_post (ck_store_time ck) k (tm_timestamp m) (tm_text m) 0 (sv_store u) = (r, t)" by fastforce
  then have "snd (store_new_post R ck k m new u) =
      u\<lparr>sv_store := t, sv_tasks := (case r of Inl e \<Rightarrow> sv_tasks u | Inr p \<Rightarrow> sv_tasks u @ [FanOut p])\<rparr>"
    using True by (cases r) (simp_all add: store_new_post_def io_defs on_store_def spawn_def)
  then show ?thesis using True by blast
qed

lemma accept_tail_frame:
  "\<exists>n l t k. snd (bindIO (send_post_ack R sh d a q) (\<lambda>_. store_new_post R ck j m new) u) =
      u\<lparr>sv_publishes := n, sv_sent := l, sv_store := t, sv_tasks := k\<rparr> \<and>
    (\<not> new \<longrightarrow> t = sv_store u \<and> k = sv_tasks u)"
proof -
  obtain n l where v: "snd (send_post_ack R sh d a q u) = u\<lparr>sv_publishes := n, sv_sent := l\<rparr>" (is "_ = ?v")
    using send_post_ack_frame by blast
  obtain t k where t: "snd (store_new_post R ck j m new ?v) = ?v\<lparr>sv_store := t, sv_tasks := k\<rparr>"
    "\<not> new \<longrightarrow> t = sv_store ?v \<and> k = sv_tasks ?v" using store_new_post_frame by blast
  show ?thesis
  proof (cases "fst (send_post_ack R sh d a q u)")
    case (Inl e)
    then have "send_post_ack R sh d a q u = (Inl e, ?v)" using v by (simp add: prod_eq_iff)
    then have "snd (bindIO (send_post_ack R sh d a q) (\<lambda>_. store_new_post R ck j m new) u) = ?v"
      by (simp add: bindIO_def)
    then show ?thesis
      by (intro exI [of _ n] exI [of _ l] exI [of _ "sv_store u"] exI [of _ "sv_tasks u"]) simp
  next
    case (Inr y)
    then have "send_post_ack R sh d a q u = (Inr y, ?v)" using v by (simp add: prod_eq_iff)
    then have "snd (bindIO (send_post_ack R sh d a q) (\<lambda>_. store_new_post R ck j m new) u) = ?v\<lparr>sv_store := t, sv_tasks := k\<rparr>"
      using t(1) by (simp add: bindIO_def)
    then show ?thesis using t(2) by (intro exI [of _ n] exI [of _ l] exI [of _ t] exI [of _ k]) simp
  qed
qed

text \<open>The effect of accepting a post, whether it is new or not.\<close>

lemma accept_post_effect:
  fixes ck :: clock
  assumes wf: "wf_packet p" and k: "map_of (sv_sessions s) (ss_pub_key ses) = Some ses"
    and ack: "txt_ack_hash (rm_lib R) msg (ss_pub_key ses) = Inr ack"
  defines "recent \<equiv> expire (ck_monotonic ck - rc_recent_message_ttl_s (rm_config R)) (sv_recent_messages s)"
  obtains ses' n l t tasks where "ss_pub_key ses' = ss_pub_key ses"
    "snd (accept_post R ck p ses shared msg s) = (put_session (ss_pub_key ses) ses' s)
       \<lparr>sv_recent_messages := (if recent (tm_src_hash msg, ack) \<noteq> None then recent
          else recent((tm_src_hash msg, ack) \<mapsto> ck_monotonic ck)),
        sv_publishes := n, sv_sent := l, sv_store := t, sv_tasks := tasks\<rparr>"
    "recent (tm_src_hash msg, ack) \<noteq> None \<longrightarrow> t = sv_store s \<and> tasks = sv_tasks s"
proof -
  let ?key = "(tm_src_hash msg, ack)"
  obtain y where y: "ss_pub_key y = ss_pub_key ses" and a: "accept_post R ck p ses shared msg s =
       bindIO (remember_message (rm_config R) (ck_monotonic ck) (tm_src_hash msg) ack) (\<lambda>new.
       bindIO (send_post_ack R shared (tm_src_hash msg) ack p) (\<lambda>_.
       store_new_post R ck (ss_pub_key ses) msg new)) (put_session (ss_pub_key ses) y s)"
    by (rule accept_post_steps [OF wf k ack])
  let ?u = "(put_session (ss_pub_key ses) y s)\<lparr>sv_recent_messages :=
      (if recent ?key \<noteq> None then recent else recent(?key \<mapsto> ck_monotonic ck))\<rparr>"
  obtain n l t tasks where e: "snd (bindIO (send_post_ack R shared (tm_src_hash msg) ack p)
        (\<lambda>_. store_new_post R ck (ss_pub_key ses) msg (recent ?key = None)) ?u) =
      ?u\<lparr>sv_publishes := n, sv_sent := l, sv_store := t, sv_tasks := tasks\<rparr>"
    "\<not> recent ?key = None \<longrightarrow> t = sv_store ?u \<and> tasks = sv_tasks ?u"
    using accept_tail_frame by blast
  have r: "remember_message (rm_config R) (ck_monotonic ck) (tm_src_hash msg) ack (put_session (ss_pub_key ses) y s)
      = (Inr (recent ?key = None), ?u)" by (simp add: remember_message_def recent_def Let_def)
  have "snd (accept_post R ck p ses shared msg s) = ?u\<lparr>sv_publishes := n, sv_sent := l, sv_store := t, sv_tasks := tasks\<rparr>"
    unfolding a bindIO_def [of "remember_message _ _ _ _"] r prod.case sum.case e(1) ..
  then show thesis using that [OF y] e(2) by simp
qed

lemma post_effect:
  assumes "crypto_laws (rm_lib R)" "x25519_law (rm_lib R)" "id_pub_key (rm_identity R) \<noteq> []"
    and "serving s" "decode_packet frame = Inr p" "pkt_type p = TXT_MSG"
    and "match_post R s p ses shared msg" "tm_txt_type msg = TXT_TYPE_PLAIN"
    and "txt_ack_hash (rm_lib R) msg (ss_pub_key ses) = Inr ack"
    and "expire (ck_monotonic ck - rc_recent_message_ttl_s (rm_config R)) (sv_recent_messages s) (tm_src_hash msg, ack) = None"
    and "\<not> sv_publish_fails s (sv_publishes s)" "tb_seq (sv_store s) + 1 < 2 ^ 63"
    and "- (2 ^ 63) \<le> ck_store_time ck" "ck_store_time ck < 2 ^ 63"
  shows "\<exists>w q row. decode_packet w = Inr q \<and> confirms (rm_lib R) shared p ack q \<and>
    sv_sent (snd (receive R (ck, frame) s)) = sv_sent s @ [w] \<and>
    tb_posts (sv_store (snd (receive R (ck, frame) s))) = tb_posts (sv_store s) @ [row] \<and>
    row_author_pubkey row = bytes_hex (ss_pub_key ses) \<and> row_ts row = tm_timestamp msg \<and> row_body row = tm_text msg \<and>
    sv_tasks (snd (receive R (ck, frame) s)) = sv_tasks s @ [FanOut (post_of_row row)]"
proof -
  have inv: "room_inv UNIV (sv_sent s) s" using assms(4) by (simp add: serving_def)
  have wf: "wf_packet p" using decode_packet_Inr(1) [OF assms(5)] .
  note m = match_post_session [OF inv assms(7)] match_post_open [OF assms(7)]
  have k16: "16 \<le> length shared" using shared_secret_length [OF assms(2)] m(3) by (fastforce simp: id_shared_secret_def)
  obtain w q where w: "decode_packet w = Inr q" "confirms (rm_lib R) shared p ack q"
    and send: "\<And>u. send_post_ack R shared (tm_src_hash msg) ack p u = publish w u"
    using send_post_ack_ok [OF assms(1) k16 txt_ack_length [OF assms(1,9)] wf assms(3)] by blast
  obtain ses' where a: "accept_post R ck p ses shared msg s =
       bindIO (remember_message (rm_config R) (ck_monotonic ck) (tm_src_hash msg) ack) (\<lambda>new.
       bindIO (send_post_ack R shared (tm_src_hash msg) ack p) (\<lambda>_.
       store_new_post R ck (ss_pub_key ses) msg new)) (put_session (ss_pub_key ses) ses' s)"
    by (rule accept_post_steps [OF wf m(1) assms(9)])
  have ok: "0 \<le> tm_timestamp msg" "tm_timestamp msg < 2 ^ 32" "encodable (tm_text msg)"
    using try_decrypt_txt_msg_ok m(3) by blast+
  have "ss_pub_key ses \<noteq> []" using m(2) by auto
  then obtain post t' where p: "add_post (ck_store_time ck) (ss_pub_key ses) (tm_timestamp msg) (tm_text msg) 0 (sv_store s) = (Inr post, t')"
    using add_post_total [of "ss_pub_key ses" "tm_timestamp msg" "tm_text msg" 0 "ck_store_time ck" "sv_store s"]
      ok assms(12-14) by auto
  obtain row where r: "t' = (sv_store s)\<lparr>tb_posts := tb_posts (sv_store s) @ [row], tb_seq := tb_seq (sv_store s) + 1\<rparr>"
    "post = post_of_row row" "row_author_pubkey row = bytes_hex (ss_pub_key ses)" "row_ts row = tm_timestamp msg"
    "row_body row = tm_text msg"
    by (rule add_post_Inr [OF p])
  have "snd (receive R (ck, frame) s) = snd (accept_post R ck p ses shared msg s)"
    unfolding receive_post [OF assms(5,6)] handle_post_match [OF assms(7)] ..
  then show ?thesis using w r assms(8,10,11) p
    by (simp add: a io_defs remember_message_def Let_def send publish_outcome store_new_post_def on_store_def spawn_def)
qed

text \<open>A frame whose message is matched leaves the next frame with the same payload matched too.\<close>

lemma handled_post:
  fixes ck :: clock
  assumes inv: "room_inv A pre s" and p: "decode_packet frame = Inr p" "pkt_type p = TXT_MSG"
    and m: "match_post R s p ses shared msg" and ack: "txt_ack_hash (rm_lib R) msg (ss_pub_key ses) = Inr ack"
  defines "recent \<equiv> expire (ck_monotonic ck - rc_recent_message_ttl_s (rm_config R)) (sv_recent_messages s)"
  defines "s1 \<equiv> snd (receive R (ck, frame) s)"
  shows "recent (tm_src_hash msg, ack) = None \<Longrightarrow>
      sv_recent_messages s1 (tm_src_hash msg, ack) = Some (ck_monotonic ck)"
    and "recent (tm_src_hash msg, ack) \<noteq> None \<Longrightarrow> sv_store s1 = sv_store s \<and> sv_tasks s1 = sv_tasks s"
    and "pkt_payload p2 = pkt_payload p \<Longrightarrow>
      \<exists>ses2. ss_pub_key ses2 = ss_pub_key ses \<and> match_post R s1 p2 ses2 shared msg"
proof -
  have s1: "s1 = snd (accept_post R ck p ses shared msg s)"
    unfolding s1_def receive_post [OF p] handle_post_match [OF m] ..
  note k = match_post_session(1) [OF inv m]
  obtain ses' n l t tasks where ses': "ss_pub_key ses' = ss_pub_key ses"
    and e: "s1 = (put_session (ss_pub_key ses) ses' s)
       \<lparr>sv_recent_messages := (if recent (tm_src_hash msg, ack) \<noteq> None then recent
          else recent((tm_src_hash msg, ack) \<mapsto> ck_monotonic ck)),
        sv_publishes := n, sv_sent := l, sv_store := t, sv_tasks := tasks\<rparr>"
    and old: "recent (tm_src_hash msg, ack) \<noteq> None \<longrightarrow> t = sv_store s \<and> tasks = sv_tasks s"
    using accept_post_effect [OF decode_packet_Inr(1) [OF p(1)] k ack, of ck shared] unfolding s1 recent_def by metis
  show "recent (tm_src_hash msg, ack) = None \<Longrightarrow>
      sv_recent_messages s1 (tm_src_hash msg, ack) = Some (ck_monotonic ck)" by (simp add: e)
  show "recent (tm_src_hash msg, ack) \<noteq> None \<Longrightarrow> sv_store s1 = sv_store s \<and> sv_tasks s1 = sv_tasks s"
    using old by (simp add: e)
  assume p2: "pkt_payload p2 = pkt_payload p"
  obtain h where h: "addressed (rm_identity R) p = Inr (Some h)"
    and f: "first_match (open_with (rm_lib R) (rm_identity R) try_decrypt_txt_msg (pkt_payload p) \<circ> ss_pub_key) (sessions_at R h s)
      = Inr (Some (ses, shared, msg))" using m by (auto simp: match_post_def)
  have "map ss_pub_key (sessions_at R h s1) = map ss_pub_key (sessions_at R h (put_session (ss_pub_key ses) ses' s))"
    by (simp add: e sessions_at_def)
  also have "\<dots> = map ss_pub_key (sessions_at R h s)" by (rule sessions_at_put [OF inv _ ses']) (simp add: k)
  finally obtain ses2 where f2: "first_match (open_with (rm_lib R) (rm_identity R) try_decrypt_txt_msg (pkt_payload p) \<circ> ss_pub_key)
      (sessions_at R h s1) = Inr (Some (ses2, shared, msg))" and k2: "ss_pub_key ses2 = ss_pub_key ses"
    using first_match_comp [OF f] by metis
  have "addressed (rm_identity R) p2 = Inr (Some h)" using h by (simp only: addressed_def p2)
  then show "\<exists>ses2. ss_pub_key ses2 = ss_pub_key ses \<and> match_post R s1 p2 ses2 shared msg"
    using f2 p2 k2 by (auto simp: match_post_def)
qed

text \<open>A post whose ACK hash cannot be computed changes nothing but the session.\<close>

lemma post_without_ack:
  assumes inv: "room_inv A pre s" and p: "decode_packet frame = Inr p" "pkt_type p = TXT_MSG"
    and m: "match_post R s p ses shared msg" and e: "txt_ack_hash (rm_lib R) msg (ss_pub_key ses) = Inl e"
  shows "sv_store (snd (receive R (ck, frame) s)) = sv_store s"
proof -
  obtain x where "track_session (ss_pub_key ses) (ss_is_admin ses) p s = (Inr x, put_session (ss_pub_key ses) x s)"
    using track_existing [OF decode_packet_Inr(1) [OF p(1)] match_post_session(1) [OF inv m]] by blast
  then show ?thesis unfolding receive_post [OF p] handle_post_match [OF m] using e
    by (simp add: accept_post_def io_defs)
qed

text \<open>How a matched frame is answered: always with the same wire, or not at all.\<close>

lemma post_reply:
  assumes C: "crypto_laws (rm_lib R)" "x25519_law (rm_lib R)" and pub: "id_pub_key (rm_identity R) \<noteq> []"
    and inv: "room_inv A pre s" and p: "decode_packet frame = Inr p"
    and m: "match_post R s p ses shared msg" and ack: "txt_ack_hash (rm_lib R) msg (ss_pub_key ses) = Inr ack"
  obtains w q where "decode_packet w = Inr q" "confirms (rm_lib R) shared p ack q"
    "\<And>u. send_post_ack R shared (tm_src_hash msg) ack p u = publish w u"
proof -
  have k16: "16 \<le> length shared" using shared_secret_length [OF C(2)] match_post_open [OF m]
    by (fastforce simp: id_shared_secret_def)
  show thesis
    using send_post_ack_ok [OF C(1) k16 txt_ack_length [OF C(1) ack] decode_packet_Inr(1) [OF p] pub] that by blast
qed

text \<open>The two frames of a lost acknowledgement: a new post whose reply fails, and a remembered one.\<close>

lemma failed_reply_effect:
  fixes ck :: clock
  assumes C: "crypto_laws (rm_lib R)" "x25519_law (rm_lib R)" and pub: "id_pub_key (rm_identity R) \<noteq> []"
    and inv: "room_inv A pre s" and p: "decode_packet frame = Inr p" "pkt_type p = TXT_MSG"
    and m: "match_post R s p ses shared msg" and ack: "txt_ack_hash (rm_lib R) msg (ss_pub_key ses) = Inr ack"
    and fails: "sv_publish_fails s (sv_publishes s)"
  defines "s1 \<equiv> snd (receive R (ck, frame) s)"
  shows "sv_store s1 = sv_store s" "sv_tasks s1 = sv_tasks s" "sv_sent s1 = sv_sent s"
    and "sv_publishes s1 = Suc (sv_publishes s)" "sv_publish_fails s1 = sv_publish_fails s"
proof -
  obtain w q where w: "\<And>u. send_post_ack R shared (tm_src_hash msg) ack p u = publish w u"
    using post_reply [OF C pub inv p(1) m ack] by metis
  obtain x where x: "accept_post R ck p ses shared msg s =
       bindIO (remember_message (rm_config R) (ck_monotonic ck) (tm_src_hash msg) ack) (\<lambda>new.
       bindIO (send_post_ack R shared (tm_src_hash msg) ack p) (\<lambda>_.
       store_new_post R ck (ss_pub_key ses) msg new)) (put_session (ss_pub_key ses) x s)"
    using accept_post_steps [OF decode_packet_Inr(1) [OF p(1)] match_post_session(1) [OF inv m] ack] by metis
  have "s1 = snd (accept_post R ck p ses shared msg s)"
    unfolding s1_def receive_post [OF p] handle_post_match [OF m] ..
  then show "sv_store s1 = sv_store s" "sv_tasks s1 = sv_tasks s" "sv_sent s1 = sv_sent s"
    "sv_publishes s1 = Suc (sv_publishes s)" "sv_publish_fails s1 = sv_publish_fails s"
    using fails by (simp_all add: x io_defs remember_message_def Let_def w publish_outcome)
qed

lemma remembered_reply_effect:
  fixes ck :: clock
  assumes C: "crypto_laws (rm_lib R)" "x25519_law (rm_lib R)" and pub: "id_pub_key (rm_identity R) \<noteq> []"
    and inv: "room_inv A pre s" and p: "decode_packet frame = Inr p" "pkt_type p = TXT_MSG"
    and m: "match_post R s p ses shared msg" and ack: "txt_ack_hash (rm_lib R) msg (ss_pub_key ses) = Inr ack"
    and old: "expire (ck_monotonic ck - rc_recent_message_ttl_s (rm_config R)) (sv_recent_messages s) (tm_src_hash msg, ack) \<noteq> None"
    and works: "\<not> sv_publish_fails s (sv_publishes s)"
  shows "\<exists>w q. decode_packet w = Inr q \<and> confirms (rm_lib R) shared p ack q \<and>
    sv_sent (snd (receive R (ck, frame) s)) = sv_sent s @ [w]"
proof -
  obtain w q where q: "decode_packet w = Inr q" "confirms (rm_lib R) shared p ack q"
    and w: "\<And>u. send_post_ack R shared (tm_src_hash msg) ack p u = publish w u"
    using post_reply [OF C pub inv p(1) m ack] by metis
  obtain x where x: "accept_post R ck p ses shared msg s =
       bindIO (remember_message (rm_config R) (ck_monotonic ck) (tm_src_hash msg) ack) (\<lambda>new.
       bindIO (send_post_ack R shared (tm_src_hash msg) ack p) (\<lambda>_.
       store_new_post R ck (ss_pub_key ses) msg new)) (put_session (ss_pub_key ses) x s)"
    using accept_post_steps [OF decode_packet_Inr(1) [OF p(1)] match_post_session(1) [OF inv m] ack] by metis
  have "snd (receive R (ck, frame) s) = snd (accept_post R ck p ses shared msg s)"
    unfolding receive_post [OF p] handle_post_match [OF m] ..
  then have "sv_sent (snd (receive R (ck, frame) s)) = sv_sent s @ [w]"
    using old works by (auto simp: x io_defs remember_message_def Let_def w publish_outcome store_new_post_def)
  then show ?thesis using q by blast
qed

section \<open>What one login does\<close>

text \<open>The session a key gets when it logs in, and the state after the session was entered.\<close>

lemma track_login:
  assumes inv: "room_inv A pre s" and wf: "wf_packet p" and k: "length k = 32"
  obtains ses t where "track_session k adm p s = (Inr ses, t)" "ss_pub_key ses = k" "ss_is_admin ses = adm"
    "map_of (sv_sessions t) k = Some ses" "sv_store t = sv_store s" "sv_sent t = sv_sent s" "sv_tasks t = sv_tasks s"
    "sv_publishes t = sv_publishes s" "sv_publish_fails t = sv_publish_fails s"
    "ss_name ses = (case sv_names s k of Some n \<Rightarrow> n | None \<Rightarrow> default_name k)"
proof -
  obtain r q hs where r: "return_route p = Inr (r, q, hs)" using return_route_ok [OF wf] by metis
  have "k \<noteq> []" using k by auto
  then obtain h where h: "path_hash k = Inr h" using path_hash_total by blast
  have sel: "map_of (sv_sessions (put_session k x u)) k = Some x" for x u by (simp add: put_session_def update_conv)
  show thesis
  proof (cases "map_of (sv_sessions s) k")
    case None
    let ?new = "\<lparr> ss_pub_key = k, ss_name = (case sv_names s k of Some n \<Rightarrow> n | None \<Rightarrow> default_name k),
      ss_is_admin = adm, ss_route_type = FLOOD, ss_path = [], ss_hash_size = 1 \<rparr>"
    show thesis
    proof (cases "r = DIRECT")
      case True
      show thesis by (rule that [of "?new\<lparr>ss_route_type := DIRECT, ss_path := q, ss_hash_size := hs\<rparr>"
            "put_session k (?new\<lparr>ss_route_type := DIRECT, ss_path := q, ss_hash_size := hs\<rparr>)
              (add_by_hash h k (put_session k ?new s))"])
          (simp_all add: track_session_def io_defs r None h sel Let_def True add_by_hash_def)
    next
      case False
      show thesis by (rule that [of ?new "put_session k ?new (add_by_hash h k (put_session k ?new s))"])
          (simp_all add: track_session_def io_defs r None h sel Let_def False add_by_hash_def)
    qed
  next
    case (Some old)
    have old: "ss_pub_key old = k" using session_in [OF inv map_of_SomeD [OF Some]] by simp
    let ?upd = "old\<lparr>ss_name := (case sv_names s k of Some n \<Rightarrow> n | None \<Rightarrow> default_name k), ss_is_admin := adm\<rparr>"
    show thesis
    proof (cases "r = DIRECT")
      case True
      show thesis by (rule that [of "?upd\<lparr>ss_route_type := DIRECT, ss_path := q, ss_hash_size := hs\<rparr>"
            "put_session k (?upd\<lparr>ss_route_type := DIRECT, ss_path := q, ss_hash_size := hs\<rparr>) s"])
          (simp_all add: track_session_def io_defs r Some sel Let_def True old)
    next
      case False
      show thesis by (rule that [of ?upd "put_session k ?upd s"])
          (simp_all add: track_session_def io_defs r Some sel Let_def False old)
    qed
  qed
qed

lemma login_response_sent:
  assumes C: "crypto_laws (rm_lib R)" "16 \<le> length shared"
    and secret: "id_shared_secret (rm_lib R) (rm_identity R) k = Inr shared"
    and wf: "wf_packet p" and keys: "k \<noteq> []" "address (rm_identity R) = Inr me"
    and time: "0 \<le> ck_time ck" "ck_time ck < 2 ^ 32"
  obtains w q where "decode_packet w = Inr q" "pkt_type q = RESPONSE" "sent_to k q"
    "try_decrypt_login_response (rm_lib R) (pkt_payload q) shared = Inr (Some \<lparr> lr_server_ts = ck_time ck,
       lr_status = RESP_SERVER_LOGIN_OK, lr_is_admin = (role = Admin), lr_permissions = role_permissions role \<rparr>)"
    "\<And>s. \<not> sv_publish_fails s (sv_publishes s) \<Longrightarrow> send_login_response R ck k role p s = (Inr (), sent_one w s)"
proof -
  obtain r q hs where r: "return_route p = Inr (r, q, hs)" "r \<in> {DIRECT, FLOOD}" "path_ok hs q" "length q \<le> 64"
    by (rule return_route_ok [OF wf]) auto
  obtain dest where dest: "path_hash k = Inr dest" using path_hash_total [OF keys(1)] by blast
  obtain payload where b: "build_login_response_payload (rm_lib R) (ck_urandom4 ck) shared dest me (ck_time ck) (role = Admin)
      (role_permissions role) None = Inr payload"
    and o: "try_decrypt_login_response (rm_lib R) payload shared = Inr (Some \<lparr> lr_server_ts = ck_time ck,
       lr_status = RESP_SERVER_LOGIN_OK, lr_is_admin = (role = Admin), lr_permissions = role_permissions role mod 256 \<rparr>)"
    using login_response_opens [OF C time] by blast
  obtain w where w: "encode_packet (make_packet r RESPONSE q payload hs) = Inr w"
    "decode_packet w = Inr (make_packet r RESPONSE q payload hs)"
    by (rule decode_made [OF r(2) _ r(3,4), of RESPONSE payload]) simp
  have perm: "role_permissions role mod 256 = role_permissions role"
    by (simp add: role_permissions_def room_consts)
  have to: "sent_to k (make_packet r RESPONSE q payload hs)"
  proof -
    obtain sealed where "payload = hash_header dest me @ sealed" using b by (auto simp: build_login_response_payload_def)
    then show ?thesis by (intro sent_to_header [OF dest]) (simp add: make_packet_def)
  qed
  show thesis
  proof (rule that [OF w(2) _ to])
    fix s :: server
    assume "\<not> sv_publish_fails s (sv_publishes s)"
    then show "send_login_response R ck k role p s = (Inr (), sent_one w s)"
      using secret r(1) dest keys(2) b w(1)
      by (simp add: send_login_response_def build_login_response_packet_def io_defs publish_def sent_one_def)
  qed (use o perm in \<open>simp_all add: make_packet_def\<close>)
qed

text \<open>The state a login leaves, over that of its session.\<close>

lemma login_state:
  assumes C: "crypto_laws (rm_lib R)" "x25519_law (rm_lib R)" and s: "serving s"
    and p: "decode_packet frame = Inr p" "pkt_type p = ANON_REQ" "pkt_payload p \<noteq> []"
    and me: "address (rm_identity R) = Inr (uint (pkt_payload p ! 0))"
    and req: "try_decrypt_login (rm_lib R) (pkt_payload p) (id_seed (rm_identity R)) = Inr (Some req)"
    and role: "classify (rm_config R) (lg_password req) = Some role"
    and name: "pred_option encodable (sv_names s (lg_client_pub_key req))"
    and net: "\<not> sv_publish_fails s (sv_publishes s)"
    and time: "0 \<le> ck_time ck" "ck_time ck < 2 ^ 32" "- (2 ^ 63) \<le> ck_store_time ck" "ck_store_time ck < 2 ^ 63"
  obtains shared w q ses t db where "id_shared_secret (rm_lib R) (rm_identity R) (lg_client_pub_key req) = Inr shared"
    "decode_packet w = Inr q" "pkt_type q = RESPONSE" "sent_to (lg_client_pub_key req) q"
    "try_decrypt_login_response (rm_lib R) (pkt_payload q) shared = Inr (Some \<lparr> lr_server_ts = ck_time ck,
      lr_status = RESP_SERVER_LOGIN_OK, lr_is_admin = (role = Admin), lr_permissions = role_permissions role \<rparr>)"
    "track_session (lg_client_pub_key req) (role = Admin) p s = (Inr ses, t)"
    "upsert_client (ck_store_time ck) (lg_client_pub_key req) (ss_name ses) (role = Admin) (sv_store s) = (Inr (), db)"
    "snd (receive R (ck, frame) s) =
      (sent_one w (t\<lparr>sv_store := db\<rparr>))\<lparr>sv_tasks := sv_tasks s @ [SyncClient (lg_client_pub_key req) (lg_sync_since req)]\<rparr>"
proof -
  let ?k = "lg_client_pub_key req"
  have inv: "room_inv UNIV (sv_sent s) s" using s by (simp add: serving_def)
  have wf: "wf_packet p" using decode_packet_Inr(1) [OF p(1)] .
  note k32 = login_key_length [OF req]
  then have kne: "?k \<noteq> []" by auto
  obtain shared where secret: "id_shared_secret (rm_lib R) (rm_identity R) ?k = Inr shared"
    using login_secret [OF req] by (auto simp: id_shared_secret_def)
  then have k16: "16 \<le> length shared" using shared_secret_length [OF C(2)] by (fastforce simp: id_shared_secret_def)
  obtain ses t where t: "track_session ?k (role = Admin) p s = (Inr ses, t)" "ss_pub_key ses = ?k"
    "sv_store t = sv_store s" "sv_sent t = sv_sent s"
    "sv_tasks t = sv_tasks s" "sv_publishes t = sv_publishes s" "sv_publish_fails t = sv_publish_fails s"
    "ss_name ses = (case sv_names s ?k of Some n \<Rightarrow> n | None \<Rightarrow> default_name ?k)"
    by (rule track_login [OF inv wf k32, of "role = Admin"])
  have enc: "encodable (ss_name ses)" using name encodable_default_name by (auto simp: t(8) split: option.splits)
  obtain db where u: "upsert_client (ck_store_time ck) ?k (ss_name ses) (role = Admin) (sv_store s) = (Inr (), db)"
    using enc time(3,4) by (auto simp: upsert_client_def sql_text_def sql_int_def Let_def)
  obtain w q where w: "decode_packet w = Inr q" "pkt_type q = RESPONSE" "sent_to ?k q"
    "try_decrypt_login_response (rm_lib R) (pkt_payload q) shared = Inr (Some \<lparr> lr_server_ts = ck_time ck,
       lr_status = RESP_SERVER_LOGIN_OK, lr_is_admin = (role = Admin), lr_permissions = role_permissions role \<rparr>)"
    and send: "\<And>s. \<not> sv_publish_fails s (sv_publishes s) \<Longrightarrow> send_login_response R ck ?k role p s = (Inr (), sent_one w s)"
    by (rule login_response_sent [OF C(1) k16 secret wf kne me time(1,2), of role]) blast
  have "snd (receive R (ck, frame) s) = snd (handle_login R ck p s)"
    using p by (auto simp: receive_def dispatch_def caught_def decode_packet_def)
  also have "\<dots> = (sent_one w (t\<lparr>sv_store := db\<rparr>))\<lparr>sv_tasks := sv_tasks s @ [SyncClient ?k (lg_sync_since req)]\<rparr>"
    using p(3) me req role net t u
    by (simp add: handle_login_def io_defs on_store_def send spawn_def)
  finally show thesis using that [OF secret w t(1) u] by blast
qed

lemma login_effect:
  assumes C: "crypto_laws (rm_lib R)" "x25519_law (rm_lib R)" and s: "serving s"
    and p: "decode_packet frame = Inr p" "pkt_type p = ANON_REQ" "pkt_payload p \<noteq> []"
    and me: "address (rm_identity R) = Inr (uint (pkt_payload p ! 0))"
    and req: "try_decrypt_login (rm_lib R) (pkt_payload p) (id_seed (rm_identity R)) = Inr (Some req)"
    and role: "classify (rm_config R) (lg_password req) = Some role"
    and name: "pred_option encodable (sv_names s (lg_client_pub_key req))"
    and net: "\<not> sv_publish_fails s (sv_publishes s)"
    and time: "0 \<le> ck_time ck" "ck_time ck < 2 ^ 32" "- (2 ^ 63) \<le> ck_store_time ck" "ck_store_time ck < 2 ^ 63"
  shows "\<exists>shared w q ses c. id_shared_secret (rm_lib R) (rm_identity R) (lg_client_pub_key req) = Inr shared \<and>
    decode_packet w = Inr q \<and> pkt_type q = RESPONSE \<and> sent_to (lg_client_pub_key req) q \<and>
    try_decrypt_login_response (rm_lib R) (pkt_payload q) shared = Inr (Some \<lparr> lr_server_ts = ck_time ck,
      lr_status = RESP_SERVER_LOGIN_OK, lr_is_admin = (role = Admin), lr_permissions = role_permissions role \<rparr>) \<and>
    sv_sent (snd (receive R (ck, frame) s)) = sv_sent s @ [w] \<and>
    map_of (sv_sessions (snd (receive R (ck, frame) s))) (lg_client_pub_key req) = Some ses \<and>
    ss_is_admin ses = (role = Admin) \<and>
    get_client (lg_client_pub_key req) (sv_store (snd (receive R (ck, frame) s))) = Some c \<and>
    cl_is_admin c = (role = Admin) \<and>
    sv_tasks (snd (receive R (ck, frame) s)) = sv_tasks s @ [SyncClient (lg_client_pub_key req) (lg_sync_since req)]"
proof -
  let ?k = "lg_client_pub_key req"
  obtain shared w q ses t db where l: "id_shared_secret (rm_lib R) (rm_identity R) ?k = Inr shared"
    "decode_packet w = Inr q" "pkt_type q = RESPONSE" "sent_to ?k q"
    "try_decrypt_login_response (rm_lib R) (pkt_payload q) shared = Inr (Some \<lparr> lr_server_ts = ck_time ck,
      lr_status = RESP_SERVER_LOGIN_OK, lr_is_admin = (role = Admin), lr_permissions = role_permissions role \<rparr>)"
    "track_session ?k (role = Admin) p s = (Inr ses, t)"
    "upsert_client (ck_store_time ck) ?k (ss_name ses) (role = Admin) (sv_store s) = (Inr (), db)"
    and r: "snd (receive R (ck, frame) s) =
      (sent_one w (t\<lparr>sv_store := db\<rparr>))\<lparr>sv_tasks := sv_tasks s @ [SyncClient ?k (lg_sync_since req)]\<rparr>"
    by (rule login_state [OF assms])
  have inv: "room_inv UNIV (sv_sent s) s" using s by (simp add: serving_def)
  obtain ses' t' where t: "track_session ?k (role = Admin) p s = (Inr ses', t')"
    "ss_is_admin ses' = (role = Admin)" "map_of (sv_sessions t') ?k = Some ses'" "sv_sent t' = sv_sent s"
    by (rule track_login [OF inv decode_packet_Inr(1) [OF p(1)] login_key_length [OF req], of "role = Admin"])
  have "\<exists>c. get_client ?k db = Some c \<and> cl_is_admin c = (role = Admin)"
    using l(7) by (auto simp: upsert_client_def get_client_def Let_def split: sum.splits)
  then show ?thesis unfolding r using l t by (auto simp: sent_one_def)
qed

section \<open>Waiting for an acknowledgement\<close>

text \<open>Futures that were registered or resolved so far have numbers below the next one.\<close>

definition fresh_future :: "server \<Rightarrow> bool" where
  "fresh_future s \<longleftrightarrow> sv_next_future s \<notin> set (sv_resolved s) \<and> (\<forall>a. sv_next_future s \<notin> set (sv_ack_waiters s a))"

lemma receive_ack:
  assumes "decode_packet frame = Inr p" "pkt_type p = ACK" "parse_ack_payload (pkt_payload p) = Some ack"
  shows "snd (receive R (ck, frame) s) = snd (resolve_ack ack s)"
  using assms by (auto simp: receive_def dispatch_def caught_def handle_ack_def io_defs resolve_ack_def decode_packet_def Let_def)

text \<open>The session and message a PATH packet is matched to.\<close>

definition match_path :: "room \<Rightarrow> server \<Rightarrow> packet \<Rightarrow> session \<Rightarrow> path_msg \<Rightarrow> bool" where
  "match_path R s p ses m \<longleftrightarrow>
     (\<exists>h shared. addressed (rm_identity R) p = Inr (Some h) \<and>
        first_match (open_with (rm_lib R) (rm_identity R) try_decrypt_path_msg (pkt_payload p) \<circ> ss_pub_key) (sessions_at R h s)
          = Inr (Some (ses, shared, m)))"

lemma receive_path_ack:
  assumes p: "decode_packet frame = Inr p" "pkt_type p = PATH" and m: "match_path R s p ses m"
    and ack: "pm_extra_type m = payload_val ACK" "4 \<le> length (pm_extra m)" and path: "pm_path m \<noteq> []"
  shows "snd (receive R (ck, frame) s) = snd (resolve_ack (take 4 (pm_extra m)) (put_session (ss_pub_key ses)
    (ses\<lparr>ss_route_type := DIRECT, ss_path := pm_path m, ss_hash_size := pm_hash_size m\<rparr>) s))"
  using assms
  by (auto simp: match_path_def receive_def dispatch_def caught_def handle_path_def io_defs resolve_ack_def
      decode_packet_def Let_def)

lemma wait_begin_sel:
  "fst (wait_begin ack s) = Inr (sv_next_future s)"
  "sv_resolved (snd (wait_begin ack s)) = sv_resolved s"
  "sv_ack_waiters (snd (wait_begin ack s)) = (sv_ack_waiters s)(ack := sv_ack_waiters s ack @ [sv_next_future s])"
  "sv_sessions (snd (wait_begin ack s)) = sv_sessions s" "sv_by_hash (snd (wait_begin ack s)) = sv_by_hash s"
  by (simp_all add: wait_begin_def)

interpretation room_waits: ack_waits sv_ack_waiters sv_resolved sv_next_future wait_begin wait_end resolve_ack
  by unfold_locales (auto simp: wait_begin_def wait_end_def resolve_ack_def Let_def)

lemma wait_for_ack_eq: "wait_for_ack during ack timeout = wait_during wait_begin wait_end during ack"
  by (simp add: wait_for_ack_def wait_during_def)

section \<open>A small room\<close>

text \<open>A room and a logged-in client on the concrete packages, on which the properties are evaluated.\<close>

definition demo_room :: room where
  "demo_room = \<lparr> rm_lib = demo_lib,
     rm_config = \<lparr> rc_display_name = [], rc_admin_password = [97], rc_guest_password = [103], rc_advert_flood = False,
       rc_recent_message_ttl_s = 300, rc_push_ack_timeout_s = 6, rc_push_direct_attempts = 2,
       rc_push_flood_attempts = 2, rc_max_sync_posts = 20 \<rparr>,
     rm_identity = \<lparr> id_seed = replicate 32 2, id_pub_key = 2 # replicate 31 2, id_name = [] \<rparr>,
     rm_set_order = (\<lambda>ks. ks) \<rparr>"

definition demo_key :: bytes where "demo_key = 5 # replicate 31 5"

definition demo_session :: session where
  "demo_session = \<lparr> ss_pub_key = demo_key, ss_name = [], ss_is_admin = False, ss_route_type = FLOOD,
     ss_path = [], ss_hash_size = 1 \<rparr>"

definition demo_server :: server where
  "demo_server = (initial_server empty_tables (\<lambda>_. False))
     \<lparr>sv_sessions := [(demo_key, demo_session)], sv_by_hash := (\<lambda>h. if h = 5 then [demo_key] else [])\<rparr>"

definition demo_clock :: "rat \<Rightarrow> clock" where
  "demo_clock t = \<lparr> ck_time = 1700000000, ck_store_time = 1700000000, ck_monotonic = t, ck_urandom4 = [1, 2, 3, 4] \<rparr>"

lemma demo_clock_sel [simp]:
  "ck_time (demo_clock t) = 1700000000" "ck_store_time (demo_clock t) = 1700000000" "ck_monotonic (demo_clock t) = t"
  by (simp_all add: demo_clock_def)

lemma demo_serving: "serving demo_server"
  by (auto simp: serving_def room_inv_def wf_server_def demo_server_def initial_server_def demo_session_def
      demo_key_def path_hash_def route_ok_def)

lemma demo_facts [simp]:
  "rm_lib demo_room = demo_lib" "id_pub_key (rm_identity demo_room) \<noteq> []"
  "address (rm_identity demo_room) = Inr 2"
  by (simp_all add: demo_room_def address_def path_hash_def)

abbreviation demo_secret :: bytes where
  "demo_secret \<equiv> map2 (+) (replicate 32 2) demo_key"

lemma demo_secrets:
  "length demo_secret = 32" "length demo_key = 32" "path_hash demo_key = Inr 5" "demo_key \<noteq> []"
  "id_shared_secret demo_lib (rm_identity demo_room) demo_key = Inr demo_secret"
  "id_seed (rm_identity demo_room) = replicate 32 2" "lib_ed25519_pub demo_lib demo_key = demo_key"
proof -
  have l: "length demo_key = 32" by (simp add: demo_key_def)
  then show "length demo_secret = 32" "length demo_key = 32" by simp_all
  show "path_hash demo_key = Inr 5" "demo_key \<noteq> []" by (simp_all add: demo_key_def path_hash_def)
  show "id_seed (rm_identity demo_room) = replicate 32 2" by (simp add: demo_room_def)
  show p: "lib_ed25519_pub demo_lib demo_key = demo_key" by (simp add: demo_lib_def)
  have "calc_shared_secret demo_lib (replicate 32 2) demo_key = Inr demo_secret"
    using shared_secrets_agree(1) [OF demo_lib_laws demo_lib_dh [of "replicate 32 2" demo_key]] l p by simp
  then show "id_shared_secret demo_lib (rm_identity demo_room) demo_key = Inr demo_secret"
    by (simp add: id_shared_secret_def demo_room_def)
qed

lemma demo_addressed:
  assumes "pkt_payload p = hash_header 2 5 @ body"
  shows "addressed (rm_identity demo_room) p = Inr (Some 5)"
  using assms by (simp add: addressed_def hash_header_def and_255 uint_of_int_byte)

lemma demo_sessions: "sessions_at demo_room 5 demo_server = [demo_session]"
  by (simp add: sessions_at_def List.map_filter_def demo_room_def demo_server_def)

lemma demo_login_frame:
  obtains frame p req where "decode_packet frame = Inr p" "pkt_type p = ANON_REQ" "pkt_payload p \<noteq> []"
    "address (rm_identity demo_room) = Inr (uint (pkt_payload p ! 0))"
    "try_decrypt_login demo_lib (pkt_payload p) (id_seed (rm_identity demo_room)) = Inr (Some req)"
    "classify (rm_config demo_room) (lg_password req) = Some Guest" "lg_client_pub_key req = demo_key"
proof -
  let ?req = "\<lparr> lg_client_pub_key = demo_key, lg_timestamp = 1700000000, lg_sync_since = 0, lg_password = [103] \<rparr>"
  obtain payload where l: "try_decrypt_login demo_lib payload (replicate 32 2) = Inr (Some ?req)"
    "payload \<noteq> []" "uint (payload ! 0) = 2"
    using login_request_opens [OF demo_lib_laws demo_lib_dh [of "replicate 32 2" demo_key], of 1700000000 0 "[103]" 2]
      demo_secrets(2,7) by (auto simp: encodable_def surrogate_def)
  obtain w where "decode_packet w = Inr (make_packet FLOOD ANON_REQ [] payload 1)"
    by (rule decode_made [of FLOOD ANON_REQ 1 "[]" payload]) simp_all
  then show thesis
    by (rule that [of _ _ ?req]) (use l demo_secrets(6) in \<open>simp_all add: make_packet_def demo_room_def classify_def address_def path_hash_def\<close>)
qed

lemma demo_post_frame:
  obtains frame p msg ack where "decode_packet frame = Inr p" "pkt_type p = TXT_MSG"
    "match_post demo_room demo_server p demo_session demo_secret msg" "tm_txt_type msg = TXT_TYPE_PLAIN"
    "txt_ack_hash demo_lib msg (ss_pub_key demo_session) = Inr ack"
proof -
  have k: "16 \<le> length demo_secret" using demo_secrets(1) by simp
  have enc: "encodable [104]" by (simp add: encodable_def surrogate_def)
  obtain payload where b: "build_txt_msg_payload demo_lib demo_secret 2 5 1700000000 0 [104] = Inr payload"
    using build_txt_msg_payload_total [OF k _ _ enc] by fastforce
  obtain tx where tx: "utf8_encode [104] = Inr tx" using utf8_encode_Inr [OF enc] by blast
  obtain msg where m: "try_decrypt_txt_msg demo_lib payload demo_secret = Inr (Some msg)" "tm_txt_type msg = TXT_TYPE_PLAIN"
    using try_decrypt_built_txt_msg [OF demo_lib_laws k b tx] by (metis txt_msg.select_convs(6))
  obtain body where h: "payload = hash_header 2 5 @ body" using hash_header_of(1) [OF b] by blast
  obtain w where w: "decode_packet w = Inr (make_packet FLOOD TXT_MSG [] payload 1)"
    by (rule decode_made [of FLOOD TXT_MSG 1 "[]" payload]) simp_all
  let ?p = "make_packet FLOOD TXT_MSG [] payload 1"
  have p: "pkt_payload ?p = payload" "pkt_type ?p = TXT_MSG" by (simp_all add: make_packet_def)
  have key: "ss_pub_key demo_session = demo_key" by (simp add: demo_session_def)
  have "open_with (rm_lib demo_room) (rm_identity demo_room) try_decrypt_txt_msg payload demo_key = Inr (Some (demo_secret, msg))"
    using demo_secrets(5) m(1) by (simp add: open_with_def)
  then have "match_post demo_room demo_server ?p demo_session demo_secret msg"
    using demo_addressed [OF trans [OF p(1) h]] demo_sessions key unfolding match_post_def p
    by (intro exI [of _ 5]) simp
  moreover have "\<exists>ack. txt_ack_hash demo_lib msg (ss_pub_key demo_session) = Inr ack"
    using try_decrypt_txt_msg_ok [OF m(1)] m(2) by (auto simp: txt_ack_hash_def TXT_TYPE_PLAIN_def intro!: ack_hash_for_total)
  ultimately show thesis using that [OF w p(2)] m(2) by blast
qed

lemma demo_path_frame:
  obtains frame p m where "decode_packet frame = Inr p" "pkt_type p = PATH" "match_path demo_room demo_server p demo_session m"
    "pm_extra_type m = payload_val ACK" "4 \<le> length (pm_extra m)" "pm_path m \<noteq> []"
proof -
  have k: "16 \<le> length demo_secret" using demo_secrets(1) by simp
  have ok: "path_ok 1 [7, 8]" by (simp add: path_ok_def)
  obtain b where b: "build_path_plaintext [] [7, 8] 1 3 (Some [1, 2, 3, 4]) = Inr b"
    using build_path_plaintext_total [OF ok] by blast
  obtain e where e: "encrypt_then_mac demo_lib demo_secret b = Inr e" using encrypt_then_mac_total [OF k] by blast
  have built: "build_path_payload demo_lib [] demo_secret 2 5 [7, 8] 1 3 (Some [1, 2, 3, 4]) = Inr (hash_header 2 5 @ e)"
    using b e by (simp add: build_path_payload_def)
  obtain m where m: "try_decrypt_path_msg demo_lib (hash_header 2 5 @ e) demo_secret = Inr (Some m)"
    "pm_extra_type m = payload_val ACK" "pm_extra m = [1, 2, 3, 4]" "pm_path m = [7, 8]"
    using try_decrypt_built_path_msg [OF demo_lib_laws k built] by auto
  let ?p = "make_packet FLOOD PATH [] (hash_header 2 5 @ e) 1"
  obtain w where w: "decode_packet w = Inr ?p"
    by (rule decode_made [of FLOOD PATH 1 "[]" "hash_header 2 5 @ e"]) simp_all
  have p: "pkt_payload ?p = hash_header 2 5 @ e" "pkt_type ?p = PATH" by (simp_all add: make_packet_def)
  have key: "ss_pub_key demo_session = demo_key" by (simp add: demo_session_def)
  have "open_with (rm_lib demo_room) (rm_identity demo_room) try_decrypt_path_msg (hash_header 2 5 @ e) demo_key = Inr (Some (demo_secret, m))"
    using demo_secrets(5) m(1) by (simp add: open_with_def)
  then have "match_path demo_room demo_server ?p demo_session m"
    using demo_addressed [OF p(1)] demo_sessions key by (simp add: match_path_def p)
  then show thesis using that [OF w p(2)] m(2-4) by simp
qed

lemma demo_server_sel [simp]:
  "sv_publish_fails demo_server = (\<lambda>_. False)" "sv_store demo_server = empty_tables"
  "sv_recent_messages demo_server = (\<lambda>_. None)" "sv_names demo_server = (\<lambda>_. None)" "sv_sent demo_server = []"
  "sv_tasks demo_server = []" "fresh_future demo_server" "sv_publishes demo_server = 0"
  by (simp_all add: demo_server_def initial_server_def fresh_future_def)

section \<open>Properties\<close>

text \<open>
  No frame stops the room server. Whatever sequence of frames the radio delivers, each
  is handled without an exception leaving the loop, the server stays well formed (its index of
  sessions by hash agrees with its sessions, every session has its own 32-byte key and a route that
  encodes, the store's ids stay distinct), and everything it publishes decodes.
\<close>

lemma room_server_survives:
  assumes "serving s"
  shows "fst (receive R x (fst (run_machine (receive_step R) s frames))) = Inr () \<and>
    wf_server (fst (run_machine (receive_step R) s frames)) \<and>
    list_all decodes (snd (run_machine (receive_step R) s frames))"
  using room_loop.run_inv [OF assms, of R frames] room_loop.run_good [OF assms, of _ R frames] receive_total
  by (auto simp: serving_def room_inv_def list_all_iff)

lemma room_server_survives_witness:
  "fst (receive demo_room (demo_clock 2, [9]) (fst (run_machine (receive_step demo_room) demo_server [(demo_clock 0, [1, 2]), (demo_clock 1, [])]))) = Inr () \<and>
    wf_server (fst (run_machine (receive_step demo_room) demo_server [(demo_clock 0, [1, 2]), (demo_clock 1, [])])) \<and>
    list_all decodes (snd (run_machine (receive_step demo_room) demo_server [(demo_clock 0, [1, 2]), (demo_clock 1, [])]))"
  by (rule room_server_survives) (rule demo_serving)

lemma serving_initial: "wf_tables db \<Longrightarrow> room_inv {} [] (initial_server db fails)"
  by (simp add: room_inv_def wf_server_def initial_server_def)

lemma run_admissions:
  "room_inv A pre s \<Longrightarrow> room_inv (A \<union> admissions R frames) pre (fst (run_machine (receive_step R) s frames))"
proof (induction frames arbitrary: s A)
  case Nil
  then show ?case by (simp add: admissions_def)
next
  case (Cons x frames)
  let ?A = "A \<union> admissions R [x]"
  have "room_inv ?A pre (snd (receive R x s))"
    by (rule receive_inv [OF room_inv_mono [OF Cons.prems]]) (auto simp: admissions_def)
  from Cons.IH [OF this] have "room_inv (?A \<union> admissions R frames) pre
      (fst (run_machine (receive_step R) (snd (receive R x s)) frames))" .
  moreover have "?A \<union> admissions R frames = A \<union> admissions R (x # frames)" by (auto simp: admissions_def)
  moreover have "fst (receive_step R s x) = snd (receive R x s)" by (simp add: receive_step_def Let_def)
  ultimately show ?case by (simp only: fst_run_machine_Cons)
qed

text \<open>
  Property (C8): only a password opens a session. Starting without sessions, every session the server
  ever holds belongs to a key for which a received login request, sealed with that key's secret,
  carried a configured password that is not empty; it is an admin session exactly if a login with the
  admin password made it one.
\<close>

theorem sessions_need_a_password:
  assumes "wf_tables db"
    and "(k, ses) \<in> set (sv_sessions (fst (run_machine (receive_step R) (initial_server db fails) frames)))"
  shows "\<exists>x \<in> set frames. admits R (snd x) k (ss_is_admin ses)"
proof -
  have "room_inv ({} \<union> admissions R frames) [] (fst (run_machine (receive_step R) (initial_server db fails) frames))"
    by (rule run_admissions [OF serving_initial [OF assms(1)]])
  from session_in [OF this assms(2)] show ?thesis by (simp add: admissions_def)
qed

lemma sessions_need_a_password_witness:
  "\<exists>frame adm. admits demo_room frame demo_key adm"
proof -
  obtain frame p req where f: "decode_packet frame = Inr p" "pkt_type p = ANON_REQ" "pkt_payload p \<noteq> []"
    "address (rm_identity demo_room) = Inr (uint (pkt_payload p ! 0))"
    "try_decrypt_login demo_lib (pkt_payload p) (id_seed (rm_identity demo_room)) = Inr (Some req)"
    "classify (rm_config demo_room) (lg_password req) = Some Guest" "lg_client_pub_key req = demo_key"
    by (rule demo_login_frame)
  let ?s = "initial_server empty_tables (\<lambda>_. False)"
  have s: "serving ?s" by (rule servingI [OF serving_initial]) simp
  obtain ses where "map_of (sv_sessions (snd (receive demo_room (demo_clock 0, frame) ?s))) demo_key = Some ses"
    using login_effect [of demo_room ?s frame p req Guest "demo_clock 0"] f s
    by (auto simp: demo_lib_laws demo_lib_x25519 initial_server_def)
  then have "(demo_key, ses) \<in> set (sv_sessions (fst (run_machine (receive_step demo_room) ?s [(demo_clock 0, frame)])))"
    by (simp add: receive_step_def Let_def map_of_SomeD)
  then show ?thesis using sessions_need_a_password [of empty_tables demo_key ses demo_room "\<lambda>_. False" "[(demo_clock 0, frame)]"]
    by (intro exI [of _ frame] exI [of _ "ss_is_admin ses"]) simp
qed





text \<open>
  Property (C10): a post can be acknowledged and lost. The server remembers a message before it
  publishes the reply and stores the post only afterwards. When that publish raises (the broker's
  connection fails), nothing is stored, but the sender's retransmission of the same packet within the
  time to live counts as a duplicate: it is acknowledged, so the sender is satisfied, and the post is
  in no table and on its way to nobody.
\<close>

theorem failed_reply_loses_post:
  assumes C: "crypto_laws (rm_lib R)" "x25519_law (rm_lib R)" and pub: "id_pub_key (rm_identity R) \<noteq> []"
    and s: "serving s" and p1: "decode_packet frame1 = Inr p1" "pkt_type p1 = TXT_MSG"
    and p2: "decode_packet frame2 = Inr p2" "pkt_type p2 = TXT_MSG" "pkt_payload p2 = pkt_payload p1"
    and m: "match_post R s p1 ses shared msg" and ack: "txt_ack_hash (rm_lib R) msg (ss_pub_key ses) = Inr ack"
    and new: "expire (ck_monotonic ck1 - rc_recent_message_ttl_s (rm_config R)) (sv_recent_messages s) (tm_src_hash msg, ack) = None"
    and ttl: "ck_monotonic ck2 - rc_recent_message_ttl_s (rm_config R) \<le> ck_monotonic ck1"
    and net: "sv_publish_fails s (sv_publishes s)" "\<not> sv_publish_fails s (Suc (sv_publishes s))"
  shows "\<exists>w q. decode_packet w = Inr q \<and> confirms (rm_lib R) shared p2 ack q \<and>
    sv_sent (snd (receive R (ck2, frame2) (snd (receive R (ck1, frame1) s)))) = sv_sent s @ [w] \<and>
    sv_store (snd (receive R (ck2, frame2) (snd (receive R (ck1, frame1) s)))) = sv_store s \<and>
    sv_tasks (snd (receive R (ck2, frame2) (snd (receive R (ck1, frame1) s)))) = sv_tasks s"
proof -
  have inv: "room_inv UNIV (sv_sent s) s" using s by (simp add: serving_def)
  let ?s1 = "snd (receive R (ck1, frame1) s)"
  have inv1: "room_inv UNIV (sv_sent s) ?s1" by (rule receive_inv [OF inv]) simp
  obtain ses2 where k2: "ss_pub_key ses2 = ss_pub_key ses" and m2: "match_post R ?s1 p2 ses2 shared msg"
    using handled_post(3) [OF inv p1 m ack p2(3)] by blast
  have ack2: "txt_ack_hash (rm_lib R) msg (ss_pub_key ses2) = Inr ack" using ack k2 by simp
  have old: "expire (ck_monotonic ck2 - rc_recent_message_ttl_s (rm_config R)) (sv_recent_messages ?s1) (tm_src_hash msg, ack) \<noteq> None"
    using handled_post(1) [OF inv p1 m ack new] ttl by (simp add: expire_def)
  note f = failed_reply_effect [OF C pub inv p1 m ack net(1), of ck1]
  have works: "\<not> sv_publish_fails ?s1 (sv_publishes ?s1)" using net(2) f(4,5) by simp
  show ?thesis
    using remembered_reply_effect [OF C pub inv1 p2(1,2) m2 ack2 old works] handled_post(2) [OF inv1 p2(1,2) m2 ack2 old] f
    by simp
qed

lemma failed_reply_loses_post_witness:
  "\<exists>frame p ack w q. decode_packet frame = Inr p \<and> decode_packet w = Inr q \<and> confirms demo_lib demo_secret p ack q \<and>
    sv_sent (snd (receive demo_room (demo_clock 10, frame) (snd (receive demo_room (demo_clock 0, frame)
      (demo_server\<lparr>sv_publish_fails := (\<lambda>n. n = 0)\<rparr>))))) = [w] \<and>
    tb_posts (sv_store (snd (receive demo_room (demo_clock 10, frame) (snd (receive demo_room (demo_clock 0, frame)
      (demo_server\<lparr>sv_publish_fails := (\<lambda>n. n = 0)\<rparr>)))))) = []"
proof -
  obtain frame p msg ack where f: "decode_packet frame = Inr p" "pkt_type p = TXT_MSG"
    "match_post demo_room demo_server p demo_session demo_secret msg" "tm_txt_type msg = TXT_TYPE_PLAIN"
    "txt_ack_hash demo_lib msg (ss_pub_key demo_session) = Inr ack" by (rule demo_post_frame)
  let ?s = "demo_server\<lparr>sv_publish_fails := (\<lambda>n. n = 0)\<rparr>"
  have s: "serving ?s" using demo_serving by (simp add: serving_def room_inv_def wf_server_def)
  have m: "match_post demo_room ?s p demo_session demo_secret msg"
    using f(3) by (simp add: match_post_def sessions_at_def)
  have ttl: "10 - rc_recent_message_ttl_s (rm_config demo_room) \<le> 0" by (simp add: demo_room_def)
  let ?s2 = "snd (receive demo_room (demo_clock 10, frame) (snd (receive demo_room (demo_clock 0, frame) ?s)))"
  have "\<exists>w q. decode_packet w = Inr q \<and> confirms (rm_lib demo_room) demo_secret p ack q \<and>
    sv_sent ?s2 = sv_sent ?s @ [w] \<and> sv_store ?s2 = sv_store ?s \<and> sv_tasks ?s2 = sv_tasks ?s"
    by (rule failed_reply_loses_post [OF _ _ _ s f(1,2) f(1,2) refl m])
      (use f(5) ttl in \<open>simp_all add: demo_lib_laws demo_lib_x25519 expire_def\<close>)
  then obtain w q where w: "decode_packet w = Inr q" "confirms demo_lib demo_secret p ack q" "sv_sent ?s2 = [w]"
    and db: "sv_store ?s2 = empty_tables" by auto
  have "tb_posts (sv_store ?s2) = []" unfolding db by (simp add: empty_tables_def)
  with w f(1) show ?thesis by blast
qed

text \<open>
  A login is answered. When a login request opens and carries a configured password,
  the server has a session of the client's key with the role of the password, the store records the
  client, exactly one reply is published, which the client's secret opens to login-OK with the role's
  permissions, and a sync of the posts newer than the client's sync point is started.
\<close>

lemma login_is_answered:
  assumes "crypto_laws (rm_lib R)" "x25519_law (rm_lib R)" "serving s"
    and "decode_packet frame = Inr p" "pkt_type p = ANON_REQ" "pkt_payload p \<noteq> []"
    and "address (rm_identity R) = Inr (uint (pkt_payload p ! 0))"
    and "try_decrypt_login (rm_lib R) (pkt_payload p) (id_seed (rm_identity R)) = Inr (Some req)"
    and "classify (rm_config R) (lg_password req) = Some role"
    and "pred_option encodable (sv_names s (lg_client_pub_key req))"
    and "\<not> sv_publish_fails s (sv_publishes s)"
    and "0 \<le> ck_time ck" "ck_time ck < 2 ^ 32" "- (2 ^ 63) \<le> ck_store_time ck" "ck_store_time ck < 2 ^ 63"
  shows "\<exists>shared w q ses c. id_shared_secret (rm_lib R) (rm_identity R) (lg_client_pub_key req) = Inr shared \<and>
    decode_packet w = Inr q \<and> pkt_type q = RESPONSE \<and> sent_to (lg_client_pub_key req) q \<and>
    try_decrypt_login_response (rm_lib R) (pkt_payload q) shared = Inr (Some \<lparr> lr_server_ts = ck_time ck,
      lr_status = RESP_SERVER_LOGIN_OK, lr_is_admin = (role = Admin), lr_permissions = role_permissions role \<rparr>) \<and>
    sv_sent (snd (receive R (ck, frame) s)) = sv_sent s @ [w] \<and>
    map_of (sv_sessions (snd (receive R (ck, frame) s))) (lg_client_pub_key req) = Some ses \<and>
    ss_is_admin ses = (role = Admin) \<and>
    get_client (lg_client_pub_key req) (sv_store (snd (receive R (ck, frame) s))) = Some c \<and>
    cl_is_admin c = (role = Admin) \<and>
    sv_tasks (snd (receive R (ck, frame) s)) = sv_tasks s @ [SyncClient (lg_client_pub_key req) (lg_sync_since req)]"
  by (rule login_effect [OF assms])

lemma login_is_answered_witness:
  "\<exists>frame w ses. sv_sent (snd (receive demo_room (demo_clock 0, frame) demo_server)) = [w] \<and>
    map_of (sv_sessions (snd (receive demo_room (demo_clock 0, frame) demo_server))) demo_key = Some ses \<and> \<not> ss_is_admin ses"
proof -
  obtain frame p req where f: "decode_packet frame = Inr p" "pkt_type p = ANON_REQ" "pkt_payload p \<noteq> []"
    "address (rm_identity demo_room) = Inr (uint (pkt_payload p ! 0))"
    "try_decrypt_login demo_lib (pkt_payload p) (id_seed (rm_identity demo_room)) = Inr (Some req)"
    "classify (rm_config demo_room) (lg_password req) = Some Guest" "lg_client_pub_key req = demo_key"
    by (rule demo_login_frame)
  show ?thesis
    using login_is_answered [of demo_room demo_server frame p req Guest "demo_clock 0"] f demo_serving
    by (auto simp: demo_lib_laws demo_lib_x25519)
qed

text \<open>
  A wait for an ACK ends as it should. An ACK packet with the awaited hash that arrives
  during the wait makes it return true and leaves no waiter for that hash; when nothing arrives, it
  returns false and the waiters are as before.
\<close>

lemma ack_ends_wait:
  assumes "fresh_future s"
    and "decode_packet frame = Inr p" "pkt_type p = ACK" "parse_ack_payload (pkt_payload p) = Some ack"
  shows "fst (wait_for_ack (\<lambda>u. snd (receive R (ck, frame) u)) ack timeout s) = Inr True \<and>
    sv_ack_waiters (snd (wait_for_ack (\<lambda>u. snd (receive R (ck, frame) u)) ack timeout s)) = (sv_ack_waiters s)(ack := []) \<and>
    fst (wait_for_ack id ack timeout s) = Inr False \<and>
    sv_ack_waiters (snd (wait_for_ack id ack timeout s)) = sv_ack_waiters s"
  using assms(1) room_waits.answered [of "\<lambda>u. snd (receive R (ck, frame) u)" ack s "snd (wait_begin ack s)"]
    room_waits.unanswered [of s ack id] receive_ack [OF assms(2-4)]
  by (simp add: wait_for_ack_eq fresh_future_def)

lemma ack_ends_wait_witness:
  "\<exists>frame. fst (wait_for_ack (\<lambda>u. snd (receive demo_room (demo_clock 0, frame) u)) [1, 2, 3, 4] 6 demo_server) = Inr True"
proof -
  obtain w where "decode_packet w = Inr (make_packet FLOOD ACK [] [1, 2, 3, 4] 1)"
    by (rule decode_made [of FLOOD ACK 1 "[]" "[1, 2, 3, 4]"]) simp_all
  then show ?thesis
    using ack_ends_wait [of demo_server w "make_packet FLOOD ACK [] [1, 2, 3, 4] 1" "[1, 2, 3, 4]" demo_room "demo_clock 0" 6]
    by (intro exI [of _ w]) (simp add: make_packet_def parse_ack_payload_def msg_consts)
qed

text \<open>
  Property (C31): a PATH packet with a bundled ACK ends the wait too, and the server learns the route.
  When a returned path from a client arrives during the wait for the ACK it carries, the wait returns
  true and the client's session is from then on reached directly over the path in the message.
\<close>

theorem path_ack_ends_wait:
  assumes "fresh_future s" "decode_packet frame = Inr p" "pkt_type p = PATH"
    and "match_path R s p ses m" "pm_extra_type m = payload_val ACK" "4 \<le> length (pm_extra m)" "pm_path m \<noteq> []"
  shows "fst (wait_for_ack (\<lambda>u. snd (receive R (ck, frame) u)) (take 4 (pm_extra m)) timeout s) = Inr True \<and>
    map_of (sv_sessions (snd (wait_for_ack (\<lambda>u. snd (receive R (ck, frame) u)) (take 4 (pm_extra m)) timeout s))) (ss_pub_key ses)
      = Some (ses\<lparr>ss_route_type := DIRECT, ss_path := pm_path m, ss_hash_size := pm_hash_size m\<rparr>)"
proof -
  let ?u = "snd (wait_begin (take 4 (pm_extra m)) s)"
  have "match_path R ?u p ses m" using assms(4) by (simp add: match_path_def sessions_at_def wait_begin_sel)
  note e = receive_path_ack [OF assms(2,3) this assms(5-7)]
  let ?v = "put_session (ss_pub_key ses) (ses\<lparr>ss_route_type := DIRECT, ss_path := pm_path m, ss_hash_size := pm_hash_size m\<rparr>) ?u"
  have "map_of (sv_sessions ?v) (ss_pub_key ses) =
      Some (ses\<lparr>ss_route_type := DIRECT, ss_path := pm_path m, ss_hash_size := pm_hash_size m\<rparr>)"
    by (simp add: put_session_def update_conv)
  moreover have "sv_sessions (snd (wait_end a f u)) = sv_sessions u" "sv_sessions (snd (resolve_ack a u)) = sv_sessions u" for a f u
    by (simp_all add: wait_end_def resolve_ack_def Let_def)
  ultimately show ?thesis
    using room_waits.answered [of "\<lambda>u. snd (receive R (ck, frame) u)" "take 4 (pm_extra m)" s ?v]
    by (simp add: e wait_for_ack_eq room_waits.wait_eq)
qed

lemma path_ack_ends_wait_witness:
  "\<exists>frame ack ses. fst (wait_for_ack (\<lambda>u. snd (receive demo_room (demo_clock 0, frame) u)) ack 6 demo_server) = Inr True \<and>
    map_of (sv_sessions (snd (wait_for_ack (\<lambda>u. snd (receive demo_room (demo_clock 0, frame) u)) ack 6 demo_server))) demo_key = Some ses \<and>
    ss_route_type ses = DIRECT"
proof -
  obtain frame p m where f: "decode_packet frame = Inr p" "pkt_type p = PATH" "match_path demo_room demo_server p demo_session m"
    "pm_extra_type m = payload_val ACK" "4 \<le> length (pm_extra m)" "pm_path m \<noteq> []" by (rule demo_path_frame)
  have "ss_pub_key demo_session = demo_key" by (simp add: demo_session_def)
  then show ?thesis using path_ack_ends_wait [OF demo_server_sel(7) f, of "demo_clock 0" 6] by fastforce
qed

end
