(* ===== verification/Radio.thy ===== *)
theory Radio
  imports Bits PyStr
begin

unbundle bit_operations_syntax

text \<open>
  The settings of the LoRa radio (\<open>softmesh_stack/radio.py\<close>), the \<open>SetHardware\<close> payloads that program
  them, and how the gateway's configuration picks them (\<open>mesh_gateway/config.py\<close>).
\<close>

section \<open>Radio settings\<close>

definition SET_RADIO :: int where "SET_RADIO = 0x09"
definition SET_TX_POWER :: int where "SET_TX_POWER = 0x0A"
definition GET_IDENTITY :: int where "GET_IDENTITY = 0x01"
definition GET_RADIO :: int where "GET_RADIO = 0x0B"
definition GET_VERSION :: int where "GET_VERSION = 0x11"

lemmas hardware_cmds = SET_RADIO_def SET_TX_POWER_def GET_IDENTITY_def GET_RADIO_def GET_VERSION_def

record radio_config =
  rd_name :: ustring
  rd_frequency_hz :: int
  rd_bandwidth_hz :: int
  rd_spreading_factor :: int
  rd_coding_rate :: int
  rd_tx_power_dbm :: int

text \<open>The constructor with its \<open>__post_init__\<close>.\<close>

definition make_radio_config :: "ustring \<Rightarrow> int \<Rightarrow> int \<Rightarrow> int \<Rightarrow> int \<Rightarrow> int \<Rightarrow> radio_config res" where
  "make_radio_config name freq bw sf cr tx_power =
     (if \<not> (5 \<le> sf \<and> sf \<le> 12) then Inl ValueError
      else if \<not> (5 \<le> cr \<and> cr \<le> 8) then Inl ValueError
      else Inr \<lparr> rd_name = name, rd_frequency_hz = freq, rd_bandwidth_hz = bw,
                 rd_spreading_factor = sf, rd_coding_rate = cr, rd_tx_power_dbm = tx_power \<rparr>)"

definition encode_set_radio_payload :: "radio_config \<Rightarrow> bytes res" where
  "encode_set_radio_payload cfg =
     bindR (to_bytes_le 4 (rd_frequency_hz cfg)) (\<lambda>freq.
     bindR (to_bytes_le 4 (rd_bandwidth_hz cfg)) (\<lambda>bw.
     bindR (byte_of (rd_spreading_factor cfg)) (\<lambda>sf.
     bindR (byte_of (rd_coding_rate cfg)) (\<lambda>cr.
     Inr (freq @ bw @ [sf, cr])))))"

definition NL :: radio_config where
  "NL = \<lparr> rd_name = ustr ''NL'', rd_frequency_hz = 869618000, rd_bandwidth_hz = 62500,
          rd_spreading_factor = 7, rd_coding_rate = 5, rd_tx_power_dbm = 22 \<rparr>"

definition NL_LEGACY_SF8 :: radio_config where
  "NL_LEGACY_SF8 = \<lparr> rd_name = ustr ''NL_LEGACY_SF8'', rd_frequency_hz = 869618000, rd_bandwidth_hz = 62500,
          rd_spreading_factor = 8, rd_coding_rate = 8, rd_tx_power_dbm = 22 \<rparr>"

definition EU_UK_NARROW :: radio_config where
  "EU_UK_NARROW = \<lparr> rd_name = ustr ''EU_UK_NARROW'', rd_frequency_hz = 869525000, rd_bandwidth_hz = 62500,
          rd_spreading_factor = 7, rd_coding_rate = 5, rd_tx_power_dbm = 22 \<rparr>"

definition PRESETS :: "(ustring \<times> radio_config) list" where
  "PRESETS = map (\<lambda>c. (rd_name c, c)) [NL, NL_LEGACY_SF8, EU_UK_NARROW]"

definition get_preset :: "ustring \<Rightarrow> radio_config res" where
  "get_preset name = (case map_of PRESETS name of Some c \<Rightarrow> Inr c | None \<Rightarrow> Inl ValueError)"

section \<open>SetHardware payloads\<close>

definition build_set_radio_frame :: "radio_config \<Rightarrow> bytes res" where
  "build_set_radio_frame cfg =
     bindR (byte_of SET_RADIO) (\<lambda>c. bindR (encode_set_radio_payload cfg) (\<lambda>p. Inr (c # p)))"

definition build_set_tx_power_frame :: "int \<Rightarrow> bytes res" where
  "build_set_tx_power_frame dbm = mapR byte_of [SET_TX_POWER, dbm AND 0xFF]"

definition build_get_identity_frame :: "bytes res" where
  "build_get_identity_frame = mapR byte_of [GET_IDENTITY]"

definition build_get_radio_frame :: "bytes res" where
  "build_get_radio_frame = mapR byte_of [GET_RADIO]"

definition build_get_version_frame :: "bytes res" where
  "build_get_version_frame = mapR byte_of [GET_VERSION]"

section \<open>The gateway's configuration\<close>

record gateway_config =
  gc_radio_preset :: "ustring option"
  gc_radio_freq_hz :: "int option"
  gc_radio_bw_hz :: "int option"
  gc_radio_sf :: "int option"
  gc_radio_cr :: "int option"
  gc_tx_power_dbm :: "int option"
  gc_duty_cycle :: rat

text \<open>\<open>GatewayConfig.__post_init__\<close>.\<close>

definition check_gateway_config :: "gateway_config \<Rightarrow> unit res" where
  "check_gateway_config g =
     (if \<not> (0 < gc_duty_cycle g \<and> gc_duty_cycle g \<le> 1) then Inl ValueError else Inr ())"

text \<open>\<open>GatewayConfig.radio_config\<close>: a full custom set, a named preset, or none.\<close>

definition custom_or_22 :: "gateway_config \<Rightarrow> int" where
  "custom_or_22 g = (case gc_tx_power_dbm g of Some p \<Rightarrow> p | None \<Rightarrow> 22)"

definition gateway_radio :: "gateway_config \<Rightarrow> radio_config option res" where
  "gateway_radio g =
     (case (gc_radio_freq_hz g, gc_radio_bw_hz g, gc_radio_sf g, gc_radio_cr g) of
        (Some freq, Some bw, Some sf, Some cr) \<Rightarrow>
          bindR (make_radio_config (ustr ''custom'') freq bw sf cr (custom_or_22 g)) (\<lambda>c. Inr (Some c))
      | (None, None, None, None) \<Rightarrow>
          (case gc_radio_preset g of
             None \<Rightarrow> Inr None
           | Some name \<Rightarrow> if name = [] then Inr None else bindR (get_preset name) (\<lambda>c. Inr (Some c)))
      | _ \<Rightarrow> Inl ValueError)"

section \<open>Facts\<close>

text \<open>The type of settings: what the constructor accepts and the presets have.\<close>

definition wf_radio :: "radio_config \<Rightarrow> bool" where
  "wf_radio c \<longleftrightarrow> 5 \<le> rd_spreading_factor c \<and> rd_spreading_factor c \<le> 12 \<and> 5 \<le> rd_coding_rate c \<and> rd_coding_rate c \<le> 8"

lemma make_radio_config_iff:
  "make_radio_config name freq bw sf cr p = Inr c \<longleftrightarrow>
    wf_radio c \<and> c = \<lparr> rd_name = name, rd_frequency_hz = freq, rd_bandwidth_hz = bw,
      rd_spreading_factor = sf, rd_coding_rate = cr, rd_tx_power_dbm = p \<rparr>"
  by (auto simp: make_radio_config_def wf_radio_def)

lemma wf_presets: "get_preset name = Inr c \<Longrightarrow> wf_radio c \<and> rd_name c = name"
  by (auto simp: get_preset_def PRESETS_def wf_radio_def NL_def NL_LEGACY_SF8_def EU_UK_NARROW_def
      split: option.splits if_splits)

lemma wf_gateway_radio: "gateway_radio g = Inr (Some c) \<Longrightarrow> wf_radio c"
  by (auto simp: gateway_radio_def make_radio_config_iff dest: wf_presets split: option.splits if_splits)

lemma set_radio_bytes:
  assumes "wf_radio c" "0 \<le> rd_frequency_hz c" "rd_frequency_hz c < 2 ^ 32" "0 \<le> rd_bandwidth_hz c" "rd_bandwidth_hz c < 2 ^ 32"
  shows "build_set_radio_frame c = Inr (9 # le_bytes 4 (rd_frequency_hz c) @ le_bytes 4 (rd_bandwidth_hz c) @
    [word_of_int (rd_spreading_factor c), word_of_int (rd_coding_rate c)])"
  using assms
  by (simp add: build_set_radio_frame_def encode_set_radio_payload_def to_bytes_le_def byte_of_def wf_radio_def hardware_cmds)

section \<open>Properties\<close>



end
