(* ===== verification/Gateway.thy ===== *)
theory Gateway
  imports Radio Kiss Crypto PyFloat "HOL-Library.AList"
begin

text \<open>
  The gateway between the serial KISS modem and the MQTT bus (\<open>mesh_gateway/gateway.py\<close>): the airtime
  of a payload, the transmit loop with its duty-cycle accounting, the receive loop, and the loop that
  connects. Times and airtimes are Python floats (theory PyFloat); every read of the monotonic clock is
  an input.
\<close>

section \<open>Airtime\<close>

text \<open>
  \<open>_airtime_seconds\<close>. The divisor \<open>den\<close> is positive for every spreading factor a \<open>RadioConfig\<close> can
  have; the bandwidth may be 0.
\<close>

definition airtime_seconds :: "int \<Rightarrow> radio_config option \<Rightarrow> rat res" where
  "airtime_seconds payload_len cfg =
     (case cfg of
        None \<Rightarrow> Inr 1
      | Some c \<Rightarrow>
          let sf = rd_spreading_factor c; bw = rd_bandwidth_hz c; cr = rd_coding_rate c;
              de = (if sf \<ge> 11 then 1 else 0) in
          if bw = 0 then Inl ZeroDivisionError
          else
            let t_sym = fl (2 ^ nat sf / of_int bw);
                t_preamble = fl (fl (8 + 17/4) * t_sym);
                num = 8 * payload_len - 4 * sf + 28 + 16 * 1 - 20 * 0;
                den = 4 * (sf - 2 * de);
                payload_symb_nb = 8 + max ((num + den - 1) div den * (cr + 4)) 0;
                t_payload = fl (fl (of_int payload_symb_nb) * t_sym) in
            Inr (max (fl (t_preamble + t_payload)) (fl (1/1000))))"

section \<open>Transmitting within the duty cycle\<close>

definition window_s :: rat where "window_s = 60"

definition budget_of :: "gateway_config \<Rightarrow> rat" where
  "budget_of g = fl (window_s * gc_duty_cycle g)"

text \<open>
  The local variables of \<open>mqtt_to_serial\<close> and \<open>flush\<close>: the airtime used in the window, its entries,
  a queue per topic, the order of the topics; and the messages of the transmit topic that were received
  but not taken yet. An exception ends the task (\<open>tx_crash\<close>).
\<close>

record tx_state =
  tx_used :: rat
  tx_usage :: "(rat \<times> rat) list"
  tx_queues :: "(ustring \<times> bytes list) list"
  tx_order :: "ustring list"
  tx_incoming :: "(ustring \<times> bytes) list"
  tx_crash :: "exn option"

definition initial_tx :: tx_state where
  "initial_tx = \<lparr> tx_used = 0, tx_usage = [], tx_queues = [], tx_order = [], tx_incoming = [], tx_crash = None \<rparr>"

text \<open>
  What the task is seen to do: write a frame for a payload (checked at one clock reading, recorded at
  another, with its airtime), or sleep.
\<close>

datatype tx_output = Wrote bytes bytes rat rat rat | Slept rat

text \<open>\<open>while usage and now - usage[0][0] >= window_s\<close>.\<close>

fun expire_usage :: "rat \<Rightarrow> (rat \<times> rat) list \<Rightarrow> rat \<Rightarrow> (rat \<times> rat) list \<times> rat" where
  "expire_usage now [] used = ([], used)"
| "expire_usage now ((t, a) # rest) used =
     (if fl (now - t) \<ge> window_s then expire_usage now rest (max 0 (fl (used - a))) else ((t, a) # rest, used))"

text \<open>
  One iteration of the loop of \<open>flush\<close>: \<open>now\<close> and \<open>ts\<close> are its two clock readings. The first topic
  of the order has its turn; it goes to the end, and leaves when its queue is empty.
\<close>

definition wait_time :: "rat \<Rightarrow> (rat \<times> rat) list \<Rightarrow> rat" where
  "wait_time now usage =
     max (case usage of [] \<Rightarrow> window_s | (t, a) # _ \<Rightarrow> fl (window_s - fl (now - t))) (fl (1/100))"

definition flush_iter :: "rat \<Rightarrow> radio_config option \<Rightarrow> rat \<Rightarrow> rat \<Rightarrow> tx_state \<Rightarrow> (tx_state \<times> tx_output list) res" where
  "flush_iter budget radio now ts s =
     (case tx_order s of
        [] \<Rightarrow> Inr (s, [])
      | sid # others \<Rightarrow>
          let (usage, used) = expire_usage now (tx_usage s) (tx_used s);
              s1 = s\<lparr>tx_usage := usage, tx_used := used\<rparr> in
          case map_of (tx_queues s) sid of
            None \<Rightarrow> Inr (s1\<lparr>tx_order := others\<rparr>, [])
          | Some [] \<Rightarrow> Inr (s1\<lparr>tx_order := others, tx_queues := AList.delete sid (tx_queues s)\<rparr>, [])
          | Some (payload # q) \<Rightarrow>
              bindR (airtime_seconds (int (length payload)) radio) (\<lambda>a.
              if fl (used + a) > budget then Inr (s1, [Slept (wait_time now usage)])
              else
                bindR (data_frame payload) (\<lambda>wire.
                Inr (s1\<lparr>tx_queues := (if q = [] then AList.delete sid (tx_queues s) else AList.update sid q (tx_queues s)),
                        tx_order := (if q = [] then remove1 sid (others @ [sid]) else others @ [sid]),
                        tx_usage := usage @ [(ts, a)], tx_used := fl (used + a)\<rparr>,
                     [Wrote payload wire now ts a]))))"

text \<open>\<open>hashlib.sha256(topic.encode()).hexdigest()[:12]\<close>.\<close>

definition topic_sid :: "crypto_lib \<Rightarrow> ustring \<Rightarrow> ustring res" where
  "topic_sid C topic = bindR (utf8_encode topic) (\<lambda>b. Inr (take 12 (bytes_hex (sha256 C b))))"

definition enqueue :: "ustring \<Rightarrow> bytes \<Rightarrow> tx_state \<Rightarrow> tx_state" where
  "enqueue sid payload s =
     (case map_of (tx_queues s) sid of
        None \<Rightarrow> s\<lparr>tx_queues := tx_queues s @ [(sid, [payload])], tx_order := tx_order s @ [sid]\<rparr>
      | Some q \<Rightarrow> s\<lparr>tx_queues := AList.update sid (q @ [payload]) (tx_queues s)\<rparr>)"

text \<open>
  The task: while there is something to flush it does iterations of \<open>flush\<close>, otherwise it takes the
  next message. Messages arrive at any time.
\<close>

datatype tx_event = Arrive ustring bytes | Tick rat rat

definition take_message :: "crypto_lib \<Rightarrow> tx_state \<Rightarrow> (tx_state \<times> tx_output list) res" where
  "take_message C s =
     (case tx_incoming s of
        [] \<Rightarrow> Inr (s, [])
      | (topic, payload) # rest \<Rightarrow>
          if payload = [] then Inr (s\<lparr>tx_incoming := rest\<rparr>, [])
          else bindR (topic_sid C topic) (\<lambda>sid. Inr (enqueue sid payload (s\<lparr>tx_incoming := rest\<rparr>), [])))"

definition tx_step :: "crypto_lib \<Rightarrow> rat \<Rightarrow> radio_config option \<Rightarrow> tx_state \<Rightarrow> tx_event \<Rightarrow> tx_state \<times> tx_output list" where
  "tx_step C budget radio s ev =
     (case ev of
        Arrive topic payload \<Rightarrow> (s\<lparr>tx_incoming := tx_incoming s @ [(topic, payload)]\<rparr>, [])
      | Tick now ts \<Rightarrow>
          if tx_crash s \<noteq> None then (s, [])
          else
            case (if tx_order s = [] then take_message C s else flush_iter budget radio now ts s) of
              Inl e \<Rightarrow> (s\<lparr>tx_crash := Some e\<rparr>, [])
            | Inr r \<Rightarrow> r)"

section \<open>Receiving\<close>

text \<open>
  \<open>serial_to_mqtt\<close> over the chunks read from the serial line: the data frames are published, an empty
  chunk (the end of the line) ends the loop.
\<close>

fun serial_to_mqtt :: "(bytes \<Rightarrow> ('w, unit) io) \<Rightarrow> kiss_decoder \<Rightarrow> bytes list \<Rightarrow> ('w, kiss_decoder) io" where
  "serial_to_mqtt publish_rx d [] = returnIO d"
| "serial_to_mqtt publish_rx d (chunk # chunks) =
     (if chunk = [] then returnIO d
      else
        let (d1, frames) = feed d chunk in
        bindIO (forIO frames (\<lambda>f. if fr_command f = KISS_DATA then publish_rx (fr_data f) else returnIO ()))
          (\<lambda>_. serial_to_mqtt publish_rx d1 chunks))"

text \<open>\<open>_write_set_hardware\<close> and what \<open>run\<close> writes to the modem on connecting.\<close>

definition set_hardware :: "bytes \<Rightarrow> bytes res" where
  "set_hardware payload = encode \<lparr> fr_port = 0, fr_command = KISS_SET_HARDWARE, fr_data = payload \<rparr>"

definition configure_modem :: "gateway_config \<Rightarrow> bytes list res" where
  "configure_modem g =
     bindR (gateway_radio g) (\<lambda>radio.
     bindR (case radio of
              None \<Rightarrow> Inr []
            | Some c \<Rightarrow> bindR (build_set_radio_frame c) (\<lambda>p. bindR (set_hardware p) (\<lambda>w. Inr [w]))) (\<lambda>w1.
     bindR (case gc_tx_power_dbm g of
              None \<Rightarrow> Inr []
            | Some dbm \<Rightarrow> bindR (build_set_tx_power_frame dbm) (\<lambda>p. bindR (set_hardware p) (\<lambda>w. Inr [w]))) (\<lambda>w2.
     Inr (w1 @ w2))))"

section \<open>Connecting\<close>

definition next_backoff :: "rat \<Rightarrow> rat" where
  "next_backoff b = min (fl (b * 2)) 30"

text \<open>
  Opening the serial line: one delay per failure (both \<open>except\<close> clauses do the same), until it opens.
\<close>

fun open_serial :: "rat \<Rightarrow> bool list \<Rightarrow> rat list \<times> bool" where
  "open_serial b [] = ([], False)"
| "open_serial b (opens # later) =
     (if opens then ([], True) else let (ds, r) = open_serial (next_backoff b) later in (b # ds, r))"

text \<open>
  What an MQTT session meets: whether connecting, programming the modem or announcing the status
  raises, and how its two tasks end. \<open>asyncio.TaskGroup\<close> raises the exceptions of its tasks as one
  exception group; \<open>MqttError\<close> is \<open>LibraryError\<close> here.
\<close>

record mqtt_session =
  se_connect :: "exn option"
  se_configure :: "exn option"
  se_status :: "exn option"
  se_serial_to_mqtt :: "exn option"
  se_mqtt_to_serial :: "exn option"

datatype raised = Single exn | Group "exn list"

definition task_group :: "exn option list \<Rightarrow> raised option" where
  "task_group ends = (case List.map_filter id ends of [] \<Rightarrow> None | es \<Rightarrow> Some (Group es))"

definition run_session :: "mqtt_session \<Rightarrow> raised option" where
  "run_session se =
     (case se_connect se of
        Some e \<Rightarrow> Some (Single e)
      | None \<Rightarrow>
         (case se_configure se of
            Some e \<Rightarrow> Some (Single e)
          | None \<Rightarrow>
             (case se_status se of
                Some e \<Rightarrow> Some (Single e)
              | None \<Rightarrow> task_group [se_serial_to_mqtt se, se_mqtt_to_serial se])))"

text \<open>
  The loop of \<open>run\<close>: an \<open>MqttError\<close> is retried after a delay that doubles (reset by a connection),
  a normal end leaves the loop, anything else ends \<open>run\<close>.
\<close>

datatype run_end = Waiting | Left | Raised raised

fun session_loop :: "rat \<Rightarrow> mqtt_session list \<Rightarrow> rat list \<times> run_end" where
  "session_loop backoff [] = ([], Waiting)"
| "session_loop backoff (se # later) =
     (let b = (if se_connect se = None then 1 else backoff) in
      case run_session se of
        None \<Rightarrow> ([], Left)
      | Some r \<Rightarrow>
          if r = Single LibraryError then let (ds, e) = session_loop (next_backoff b) later in (b # ds, e)
          else ([], Raised r))"

section \<open>Rounding in the range of a window\<close>

lemma two_powi_6: "two_powi 6 = 64"
  by (simp add: two_powi_def)

definition eps :: rat where "eps = 1 / 2 ^ 47"

lemma fl_error_64: "\<bar>x\<bar> \<le> 64 \<Longrightarrow> \<bar>fl x - x\<bar> \<le> eps"
  using fl_abs_error [of x 6] by (simp add: two_powi_6 eps_def two_powi_def)

lemma fl_60 [simp]: "fl 60 = 60" "fl 64 = 64" "fl 1 = 1"
  using fl_int [of 60] fl_int [of 64] fl_int [of 1] by simp_all

text \<open>An entry the loop drops is at least a window old, up to the rounding of one subtraction.\<close>

lemma expired_age:
  assumes "fl (now - t) \<ge> window_s"
  shows "t \<le> now - (window_s - eps)"
proof (rule ccontr)
  assume *: "\<not> t \<le> now - (window_s - eps)"
  have "0 < now - t" using assms fl_nonpos [of "now - t"] by (fastforce simp: window_s_def not_le)
  then have "\<bar>now - t\<bar> \<le> 64" using * by (simp add: window_s_def eps_def)
  from fl_error_64 [OF this] show False using assms * by linarith
qed

lemma not_expired: "window_s \<le> now - t \<Longrightarrow> fl (now - t) \<ge> window_s"
  using fl_mono [of window_s "now - t"] by (simp add: window_s_def)

definition air :: "(rat \<times> rat) list \<Rightarrow> rat" where
  "air usage = sum_list (map snd usage)"

lemma air_simps [simp]: "air [] = 0" "air (x # xs) = snd x + air xs" "air (xs @ ys) = air xs + air ys"
  by (simp_all add: air_def)

lemma air_nonneg: "(\<And>x. x \<in> set xs \<Longrightarrow> 0 \<le> snd x) \<Longrightarrow> 0 \<le> air xs"
  by (auto simp: air_def intro!: sum_list_nonneg)

lemma air_filter: "(\<And>x. x \<in> set xs \<Longrightarrow> 0 \<le> snd x) \<Longrightarrow> air (filter P xs) \<le> air xs"
  by (induction xs) (auto simp: add_increasing)

text \<open>Expiring entries: which go, which stay, and how far the float sum drifts from the exact one.\<close>

lemma expire_usage_spec:
  assumes "expire_usage now usage used = (usage', used')"
    and "\<And>x. x \<in> set usage \<Longrightarrow> 0 \<le> snd x \<and> snd x \<le> 60" "0 \<le> used" "used \<le> 60"
  shows "\<exists>old. usage = old @ usage' \<and> (\<forall>x \<in> set old. fst x \<le> now - (window_s - eps)) \<and>
    0 \<le> used' \<and> used' \<le> 60 \<and> \<bar>used' - air usage'\<bar> \<le> \<bar>used - air usage\<bar> + of_nat (length old) * eps"
  using assms
proof (induction now usage used rule: expire_usage.induct)
  case (2 now t a rest used)
  show ?case
  proof (cases "fl (now - t) \<ge> window_s")
    case True
    have a: "0 \<le> a" "a \<le> 60" using "2.prems"(2) [of "(t, a)"] by auto
    let ?u = "max 0 (fl (used - a))"
    have err: "\<bar>fl (used - a) - (used - a)\<bar> \<le> eps" using a "2.prems"(3,4) by (intro fl_error_64) auto
    have "fl (used - a) \<le> 60"
    proof (cases "0 \<le> used - a")
      case True
      then have "fl (used - a) \<le> fl 60" using a "2.prems"(4) by (intro fl_mono) auto
      then show ?thesis by simp
    next
      case False
      then show ?thesis using fl_nonpos [of "used - a"] by simp
    qed
    then have u: "0 \<le> ?u" "?u \<le> 60" by auto
    have "0 \<le> air rest" using "2.prems"(2) by (intro air_nonneg) auto
    then have d: "\<bar>?u - air rest\<bar> \<le> \<bar>used - air ((t, a) # rest)\<bar> + eps"
      unfolding air_simps snd_conv max_def using err by (auto split: if_splits; linarith)
    have e: "expire_usage now rest ?u = (usage', used')" using "2.prems"(1) True by simp
    obtain old where old: "rest = old @ usage'" "\<forall>x \<in> set old. fst x \<le> now - (window_s - eps)"
      "0 \<le> used'" "used' \<le> 60" "\<bar>used' - air usage'\<bar> \<le> \<bar>?u - air rest\<bar> + of_nat (length old) * eps"
      using "2.IH" [OF True e _ u] "2.prems"(2) by (metis list.set_intros(2))
    show ?thesis
    proof (intro exI [of _ "(t, a) # old"] conjI)
      show "\<bar>used' - air usage'\<bar> \<le> \<bar>used - air ((t, a) # rest)\<bar> + of_nat (length ((t, a) # old)) * eps"
        using old(5) d by (simp add: algebra_simps)
    qed (use old expired_age [OF True] in auto)
  next
    case False
    then show ?thesis using "2.prems" by (intro exI [of _ "[]"]) auto
  qed
qed auto

lemma expire_usage_all:
  "(\<And>x. x \<in> set usage \<Longrightarrow> window_s \<le> now - fst x) \<Longrightarrow> fst (expire_usage now usage used) = []"
proof (induction now usage used rule: expire_usage.induct)
  case (2 now t a rest used)
  have "fl (now - t) \<ge> window_s" using 2(2) [of "(t, a)"] not_expired by simp
  then show ?case using 2 by simp
qed simp


lemma airtime_pos:
  assumes "airtime_seconds n radio = Inr a"
  shows "0 \<le> a" "fl a = a"
proof -
  have f: "0 \<le> fl (1/1000)" "fl (fl (1/1000)) = fl (1/1000)" by (simp_all add: fl_nonneg fl_idem)
  have *: "a = 1 \<or> (\<exists>x. a = max (fl x) (fl (1/1000)))"
    using assms by (auto simp: airtime_seconds_def Let_def split: option.splits if_splits)
  then show "0 \<le> a" using f(1) by auto
  have "fl (fl x) = fl x" if "fl (1/1000) < fl x" for x
  proof -
    have "0 \<le> x" using that f(1) fl_nonpos [of x] by (cases "0 \<le> x") auto
    then show ?thesis by (rule fl_idem)
  qed
  then show "fl a = a" using * f(2) by (auto simp: max_def)
qed

lemma budget_le: "check_gateway_config g = Inr () \<Longrightarrow> 0 \<le> budget_of g \<and> budget_of g \<le> 60"
  using fl_mono [of "60 * gc_duty_cycle g" 60] fl_nonneg [of "60 * gc_duty_cycle g"]
  by (auto simp: check_gateway_config_def budget_of_def window_s_def split: if_splits)

text \<open>An addition that passes the check stays within the range where the rounding error is small.\<close>

lemma fits_bounds:
  assumes "fl (used + a) \<le> B" "B \<le> 60" "0 \<le> used" "0 \<le> a" "fl a = a"
  shows "a \<le> 60" "\<bar>fl (used + a) - (used + a)\<bar> \<le> eps" "0 \<le> fl (used + a)"
proof -
  have "fl a \<le> fl (used + a)" using assms by (intro fl_mono) auto
  then show "a \<le> 60" using assms by simp
  have "used + a < 64" using fl_mono [of 64 "used + a"] assms by (cases "64 \<le> used + a") auto
  then show "\<bar>fl (used + a) - (used + a)\<bar> \<le> eps" using assms by (intro fl_error_64) auto
  show "0 \<le> fl (used + a)" using assms by (simp add: fl_nonneg)
qed

section \<open>The shape of the queues\<close>

definition wf_tx :: "tx_state \<Rightarrow> bool" where
  "wf_tx s \<longleftrightarrow> (tx_order s = [] \<and> tx_queues s = []) \<or>
     (\<exists>sid p. tx_order s = [sid] \<and> tx_queues s = [(sid, [p])])"

definition waiting :: "tx_state \<Rightarrow> bytes list" where
  "waiting s = concat (map snd (tx_queues s)) @ filter (\<lambda>p. p \<noteq> []) (map snd (tx_incoming s))"

fun arrived :: "tx_event \<Rightarrow> bytes list" where
  "arrived (Arrive topic payload) = (if payload = [] then [] else [payload])"
| "arrived (Tick now ts) = []"

fun written :: "tx_output \<Rightarrow> bytes list" where
  "written (Wrote payload wire now ts a) = [payload]"
| "written (Slept w) = []"

fun wire_of :: "tx_output \<Rightarrow> bytes" where
  "wire_of (Wrote payload wire now ts a) = wire"
| "wire_of (Slept w) = []"

text \<open>What one iteration does to a queue that holds one payload.\<close>

lemma flush_iter_cases:
  assumes "tx_order s = [sid]" "tx_queues s = [(sid, [p])]"
    and "expire_usage now (tx_usage s) (tx_used s) = (usage, used)"
  shows "flush_iter B radio now ts s =
    bindR (airtime_seconds (int (length p)) radio) (\<lambda>a.
      if fl (used + a) > B then Inr (s\<lparr>tx_usage := usage, tx_used := used\<rparr>, [Slept (wait_time now usage)])
      else bindR (data_frame p) (\<lambda>wire.
        Inr (s\<lparr>tx_usage := usage @ [(ts, a)], tx_used := fl (used + a), tx_queues := [], tx_order := []\<rparr>,
             [Wrote p wire now ts a])))"
  using assms by (auto simp: flush_iter_def Let_def intro!: bindR_cong)

lemma tx_step_account:
  assumes "wf_tx s"
  shows "wf_tx (fst (tx_step C B radio s ev)) \<and>
    concat (map written (snd (tx_step C B radio s ev))) @ waiting (fst (tx_step C B radio s ev)) = waiting s @ arrived ev \<and>
    length (snd (tx_step C B radio s ev)) \<le> 1"
proof (cases ev)
  case (Arrive topic payload)
  then show ?thesis using assms by (auto simp: tx_step_def wf_tx_def waiting_def)
next
  case (Tick now ts)
  show ?thesis
  proof (cases "tx_order s = []")
    case True
    then have "tx_queues s = []" using assms by (auto simp: wf_tx_def)
    then show ?thesis using True Tick assms
      by (cases "tx_incoming s")
        (auto simp: tx_step_def take_message_def enqueue_def wf_tx_def waiting_def split: sum.splits)
  next
    case False
    then obtain sid p where q: "tx_order s = [sid]" "tx_queues s = [(sid, [p])]" using assms by (auto simp: wf_tx_def)
    obtain usage used where e: "expire_usage now (tx_usage s) (tx_used s) = (usage, used)" by fastforce
    show ?thesis using Tick q assms
      by (auto simp: tx_step_def flush_iter_cases [OF q e] wf_tx_def waiting_def split: sum.splits)
  qed
qed


section \<open>The duty-cycle account\<close>

text \<open>The transmissions that were recorded, and clock readings that never go back.\<close>

fun stamp :: "tx_output \<Rightarrow> (rat \<times> rat) list" where
  "stamp (Wrote payload wire now ts a) = [(ts, a)]"
| "stamp (Slept w) = []"

definition stamps :: "tx_output list \<Rightarrow> (rat \<times> rat) list" where
  "stamps outs = concat (map stamp outs)"

lemma stamps_simps [simp]: "stamps [] = []" "stamps (xs @ ys) = stamps xs @ stamps ys"
  "stamps [Wrote p w now ts a] = [(ts, a)]" "stamps [Slept d] = []"
  by (simp_all add: stamps_def)

fun clocks_from :: "rat \<Rightarrow> tx_event list \<Rightarrow> bool" where
  "clocks_from t [] = True"
| "clocks_from t (Arrive topic payload # evs) = clocks_from t evs"
| "clocks_from t (Tick now ts # evs) = (t \<le> now \<and> now \<le> ts \<and> clocks_from ts evs)"

text \<open>
  The account is right at time \<open>t\<close> after the outputs \<open>outs\<close>: its entries are the latest transmissions,
  the dropped ones are a window old, and the float \<open>tx_used\<close> is the sum of the entries up to one
  rounding per operation.
\<close>

definition account_ok :: "tx_output list \<Rightarrow> tx_state \<Rightarrow> rat \<Rightarrow> bool" where
  "account_ok outs s t \<longleftrightarrow>
     (\<exists>old. stamps outs = old @ tx_usage s \<and> (\<forall>x \<in> set old. fst x \<le> t - (window_s - eps)) \<and>
        \<bar>tx_used s - air (tx_usage s)\<bar> \<le> of_nat (length (stamps outs) + length old) * eps) \<and>
     0 \<le> tx_used s \<and> tx_used s \<le> 60 \<and> (\<forall>x \<in> set (stamps outs). 0 \<le> snd x \<and> snd x \<le> 60)"

lemma account_later: "account_ok outs s t \<Longrightarrow> t \<le> t' \<Longrightarrow> account_ok outs s t'"
  by (fastforce simp: account_ok_def)

lemma account_frame:
  "account_ok outs s t \<Longrightarrow> tx_usage s' = tx_usage s \<Longrightarrow> tx_used s' = tx_used s \<Longrightarrow> account_ok outs s' t"
  by (simp add: account_ok_def)

lemma account_expire:
  assumes "account_ok outs s t" "t \<le> now" "expire_usage now (tx_usage s) (tx_used s) = (usage, used)"
  shows "account_ok outs (s\<lparr>tx_usage := usage, tx_used := used\<rparr>) now"
proof -
  obtain old where old: "stamps outs = old @ tx_usage s" "\<forall>x \<in> set old. fst x \<le> t - (window_s - eps)"
    "\<bar>tx_used s - air (tx_usage s)\<bar> \<le> of_nat (length (stamps outs) + length old) * eps"
    using assms(1) by (auto simp: account_ok_def)
  have b: "0 \<le> tx_used s" "tx_used s \<le> 60" "\<And>x. x \<in> set (stamps outs) \<Longrightarrow> 0 \<le> snd x \<and> snd x \<le> 60"
    using assms(1) by (auto simp: account_ok_def)
  obtain new where new: "tx_usage s = new @ usage" "\<forall>x \<in> set new. fst x \<le> now - (window_s - eps)"
    "0 \<le> used" "used \<le> 60" "\<bar>used - air usage\<bar> \<le> \<bar>tx_used s - air (tx_usage s)\<bar> + of_nat (length new) * eps"
    using expire_usage_spec [OF assms(3) _ b(1,2)] b(3) old(1) by auto
  have "\<forall>x \<in> set old. fst x \<le> now - (window_s - eps)" using old(2) assms(2) by fastforce
  moreover have "\<bar>used - air usage\<bar> \<le> of_nat (length (stamps outs) + length (old @ new)) * eps"
    using old(3) new(5) by (simp add: algebra_simps)
  ultimately show ?thesis using old(1) new b
    unfolding account_ok_def by (intro conjI exI [of _ "old @ new"]) auto
qed

lemma account_add:
  assumes "account_ok outs s t" "fl (tx_used s + a) \<le> B" "B \<le> 60" "0 \<le> a" "fl a = a"
  shows "account_ok (outs @ [Wrote p w now ts a]) (s\<lparr>tx_usage := tx_usage s @ [(ts, a)], tx_used := fl (tx_used s + a)\<rparr>) t"
proof -
  obtain old where old: "stamps outs = old @ tx_usage s" "\<forall>x \<in> set old. fst x \<le> t - (window_s - eps)"
    "\<bar>tx_used s - air (tx_usage s)\<bar> \<le> of_nat (length (stamps outs) + length old) * eps"
    using assms(1) by (auto simp: account_ok_def)
  have b: "0 \<le> tx_used s" "\<forall>x \<in> set (stamps outs). 0 \<le> snd x \<and> snd x \<le> 60"
    using assms(1) by (auto simp: account_ok_def)
  note f = fits_bounds [OF assms(2,3) b(1) assms(4,5)]
  have "\<bar>fl (tx_used s + a) - (air (tx_usage s) + a)\<bar> \<le> of_nat (length (stamps outs) + length old) * eps + eps"
    using f(2) old(3) by linarith
  then have "\<bar>fl (tx_used s + a) - air (tx_usage s @ [(ts, a)])\<bar>
      \<le> of_nat (length (stamps (outs @ [Wrote p w now ts a])) + length old) * eps"
    by (simp add: algebra_simps)
  then show ?thesis using old b f assms(2-4) unfolding account_ok_def
    by (intro conjI exI [of _ old]) auto
qed

text \<open>The account after one event, and what a write shows of it.\<close>

lemma take_message_frame:
  assumes "take_message C s = Inr (s', out)"
  shows "out = [] \<and> tx_usage s' = tx_usage s \<and> tx_used s' = tx_used s"
proof -
  have q: "tx_usage (enqueue sid p u) = tx_usage u" "tx_used (enqueue sid p u) = tx_used u" for sid p u
    by (simp_all add: enqueue_def split: option.splits)
  show ?thesis
  proof (cases "tx_incoming s")
    case (Cons m rest)
    obtain topic payload where m: "m = (topic, payload)" by fastforce
    show ?thesis using assms Cons m
      by (cases "payload = []"; cases "topic_sid C topic") (auto simp: take_message_def q)
  qed (use assms in \<open>simp add: take_message_def\<close>)
qed

lemma data_frame_total: "\<exists>w. data_frame p = Inr w"
  by (simp add: data_frame_def encode_def type_byte_def kiss_commands byte_of_def)

lemma tx_step_tick:
  assumes "wf_tx s" "tx_step C B radio s (Tick now ts) = (s', out)"
    and "expire_usage now (tx_usage s) (tx_used s) = (usage, used)"
  shows "(out = [] \<and> tx_usage s' = tx_usage s \<and> tx_used s' = tx_used s) \<or>
    (out = [Slept (wait_time now usage)] \<and> s' = s\<lparr>tx_usage := usage, tx_used := used\<rparr>) \<or>
    (\<exists>p w a. out = [Wrote p w now ts a] \<and> tx_usage s' = usage @ [(ts, a)] \<and> tx_used s' = fl (used + a) \<and>
       airtime_seconds (int (length p)) radio = Inr a \<and> fl (used + a) \<le> B \<and> data_frame p = Inr w)"
proof (cases "tx_crash s = None")
  case True
  show ?thesis
  proof (cases "tx_order s = []")
    case False
    then obtain sid p where q: "tx_order s = [sid]" "tx_queues s = [(sid, [p])]" using assms(1) by (auto simp: wf_tx_def)
    have it: "(case flush_iter B radio now ts s of Inl e \<Rightarrow> (s\<lparr>tx_crash := Some e\<rparr>, []) | Inr r \<Rightarrow> r) = (s', out)"
      using assms(2) True False by (simp add: tx_step_def)
    show ?thesis
    proof (cases "airtime_seconds (int (length p)) radio")
      case (Inl e)
      then show ?thesis using it flush_iter_cases [OF q assms(3), of B radio ts] by auto
    next
      case (Inr a)
      obtain w where w: "data_frame p = Inr w" using data_frame_total by blast
      show ?thesis
        using it flush_iter_cases [OF q assms(3), of B radio ts] Inr w by (cases "fl (used + a) > B") auto
    qed
  next
    case order: True
    have it: "(case take_message C s of Inl e \<Rightarrow> (s\<lparr>tx_crash := Some e\<rparr>, []) | Inr r \<Rightarrow> r) = (s', out)"
      using assms(2) True order by (simp add: tx_step_def)
    show ?thesis
    proof (cases "take_message C s")
      case (Inl e)
      then show ?thesis using it by auto
    next
      case (Inr r)
      then show ?thesis using it take_message_frame [of C s s' out] by simp
    qed
  qed
next
  case False
  then show ?thesis using assms(2) by (simp add: tx_step_def)
qed

lemma account_step:
  assumes "account_ok outs s t" "wf_tx s" "clocks_from t [ev]" "B \<le> 60"
    and "tx_step C B radio s ev = (s', out)"
  shows "\<exists>t'. account_ok (outs @ out) s' t' \<and> (\<forall>evs. clocks_from t (ev # evs) \<longrightarrow> clocks_from t' evs)"
proof (cases ev)
  case (Arrive topic payload)
  then have "out = []" "tx_usage s' = tx_usage s" "tx_used s' = tx_used s"
    using assms(5) by (auto simp: tx_step_def)
  then have "account_ok (outs @ out) s' t" using account_frame [OF assms(1)] by simp
  then show ?thesis unfolding Arrive clocks_from.simps by blast
next
  case (Tick now ts)
  then have c: "t \<le> now" "now \<le> ts" using assms(3) by auto
  obtain usage used where e: "expire_usage now (tx_usage s) (tx_used s) = (usage, used)" by fastforce
  have x: "account_ok outs (s\<lparr>tx_usage := usage, tx_used := used\<rparr>) ts"
    using account_later [OF account_expire [OF assms(1) c(1) e] c(2)] .
  have "account_ok (outs @ out) s' ts"
    using tx_step_tick [OF assms(2) assms(5) [unfolded Tick] e]
  proof (elim disjE exE conjE)
    assume "out = []" "tx_usage s' = tx_usage s" "tx_used s' = tx_used s"
    then show ?thesis using account_frame [OF account_later [OF assms(1), of ts]] c by simp
  next
    assume "out = [Slept (wait_time now usage)]" "s' = s\<lparr>tx_usage := usage, tx_used := used\<rparr>"
    then show ?thesis using x by (simp add: account_ok_def)
  next
    fix p w a
    assume w: "out = [Wrote p w now ts a]" "tx_usage s' = usage @ [(ts, a)]" "tx_used s' = fl (used + a)"
      "airtime_seconds (int (length p)) radio = Inr a" "fl (used + a) \<le> B"
    from account_add [OF x _ assms(4), of a p w now ts] w airtime_pos [OF w(4)]
    have "account_ok (outs @ out) (s\<lparr>tx_usage := usage @ [(ts, a)], tx_used := fl (used + a)\<rparr>) ts" by simp
    from account_frame [OF this, of s'] show ?thesis using w by simp
  qed
  then show ?thesis unfolding Tick clocks_from.simps by blast
qed

lemma account_run:
  assumes "account_ok outs s t" "wf_tx s" "clocks_from t (evs @ rest)" "B \<le> 60"
    and "run_machine (tx_step C B radio) s evs = (s', out)"
  shows "\<exists>t'. account_ok (outs @ out) s' t' \<and> wf_tx s' \<and> clocks_from t' rest"
  using assms
proof (induction evs arbitrary: outs s t out)
  case (Cons ev evs)
  obtain s1 out1 where st: "tx_step C B radio s ev = (s1, out1)" by fastforce
  obtain out2 where r: "run_machine (tx_step C B radio) s1 evs = (s', out2)" "out = out1 @ out2"
    using Cons.prems(5) st by (auto simp: Let_def split: prod.splits)
  have "clocks_from t [ev]" using Cons.prems(3) by (cases ev) auto
  from account_step [OF Cons.prems(1,2) this Cons.prems(4) st] obtain t1 where
    "account_ok (outs @ out1) s1 t1" "clocks_from t1 (evs @ rest)" using Cons.prems(3) by auto
  moreover have "wf_tx s1" using tx_step_account [OF Cons.prems(2), of C B radio ev] st by simp
  ultimately show ?case using Cons.IH [of "outs @ out1" s1 t1 out2] r Cons.prems(4) by simp
qed auto

text \<open>A write keeps the airtime of the window within the budget.\<close>

lemma write_within_budget:
  assumes "account_ok outs s t" "wf_tx s" "t \<le> now" "B \<le> 60"
    and "snd (tx_step C B radio s (Tick now' ts)) = [Wrote p w now ts' a]" "now' = now"
  shows "air (filter (\<lambda>x. now - (window_s - eps) < fst x) (stamps outs)) + a \<le> B + 2 * of_nat (Suc (length (stamps outs))) * eps"
proof -
  obtain s' where s': "tx_step C B radio s (Tick now ts) = (s', [Wrote p w now ts' a])"
    using assms(5,6) by (metis prod.collapse)
  obtain usage used where e: "expire_usage now (tx_usage s) (tx_used s) = (usage, used)" by fastforce
  have x: "account_ok outs (s\<lparr>tx_usage := usage, tx_used := used\<rparr>) now" by (rule account_expire [OF assms(1,3) e])
  then obtain old where old: "stamps outs = old @ usage" "\<forall>x \<in> set old. fst x \<le> now - (window_s - eps)"
    "\<bar>used - air usage\<bar> \<le> of_nat (length (stamps outs) + length old) * eps" and u: "0 \<le> used"
    and pos: "\<forall>x \<in> set (stamps outs). 0 \<le> snd x" by (auto simp: account_ok_def)
  have a: "airtime_seconds (int (length p)) radio = Inr a" "fl (used + a) \<le> B"
    using tx_step_tick [OF assms(2) s' e] by auto
  note f = fits_bounds(2) [OF a(2) assms(4) u airtime_pos [OF a(1)]]
  have "filter (\<lambda>x. now - (window_s - eps) < fst x) (stamps outs) = filter (\<lambda>x. now - (window_s - eps) < fst x) usage"
    using old(1,2) by (auto simp: filter_empty_conv)
  also have "air \<dots> \<le> air usage" by (rule air_filter) (use pos old(1) in auto)
  finally have "air (filter (\<lambda>x. now - (window_s - eps) < fst x) (stamps outs)) \<le> air usage" .
  moreover have "length old \<le> length (stamps outs)" using old(1) by simp
  then have "of_nat (length (stamps outs) + length old) * eps \<le> (2 * of_nat (length (stamps outs)) :: rat) * eps"
  proof (intro mult_right_mono)
    assume "length old \<le> length (stamps outs)"
    then have "of_nat (length (stamps outs) + length old) \<le> (of_nat (2 * length (stamps outs)) :: rat)"
      by (subst of_nat_le_iff) simp
    then show "of_nat (length (stamps outs) + length old) \<le> 2 * (of_nat (length (stamps outs)) :: rat)" by simp
  qed (simp add: eps_def)
  moreover have "0 \<le> eps" by (simp add: eps_def)
  ultimately show ?thesis using old(3) f a(2) by (simp add: algebra_simps)
qed

section \<open>The transmit loop as a machine\<close>

lemma account_initial: "account_ok [] initial_tx t"
  by (simp add: account_ok_def initial_tx_def)

lemma initial_tx_sel [simp]: "tx_used initial_tx = 0" "tx_usage initial_tx = []" "tx_crash initial_tx = None"
  by (simp_all add: initial_tx_def)

lemma wf_initial_tx [simp]: "wf_tx initial_tx"
  by (simp add: wf_tx_def initial_tx_def)

text \<open>A write is of the head of the only queue, as a data frame; the float in use stays nonnegative.\<close>

definition proper_output :: "tx_output \<Rightarrow> bool" where
  "proper_output x \<longleftrightarrow> (case x of Wrote p w now ts a \<Rightarrow> data_frame p = Inr w | Slept d \<Rightarrow> True)"

interpretation tx_run: machine "tx_step C B radio" wf_tx proper_output for C B radio
proof
  fix s ev x
  assume wf: "wf_tx s"
  then show "wf_tx (fst (tx_step C B radio s ev))" using tx_step_account by blast
  assume x: "x \<in> set (snd (tx_step C B radio s ev))"
  show "proper_output x"
  proof (cases ev)
    case (Arrive topic payload)
    then show ?thesis using x by (simp add: tx_step_def)
  next
    case (Tick now ts)
    obtain usage used where e: "expire_usage now (tx_usage s) (tx_used s) = (usage, used)" by fastforce
    obtain s' out where st: "tx_step C B radio s (Tick now ts) = (s', out)" by fastforce
    show ?thesis using tx_step_tick [OF wf st e] x Tick st by (auto simp: proper_output_def)
  qed
qed

lemma tx_run_account:
  "wf_tx s \<Longrightarrow> concat (map written (snd (run_machine (tx_step C B radio) s evs))) @
     waiting (fst (run_machine (tx_step C B radio) s evs)) = waiting s @ concat (map arrived evs)"
proof (induction evs arbitrary: s)
  case (Cons ev evs)
  obtain s1 out1 where st: "tx_step C B radio s ev = (s1, out1)" by fastforce
  obtain s2 out2 where r: "run_machine (tx_step C B radio) s1 evs = (s2, out2)" by fastforce
  have "wf_tx s1" and 1: "concat (map written out1) @ waiting s1 = waiting s @ arrived ev"
    using tx_step_account [OF Cons.prems, of C B radio ev] st by simp_all
  then have 2: "concat (map written out2) @ waiting s2 = waiting s1 @ concat (map arrived evs)"
    using Cons.IH [of s1] r by simp
  have "concat (map written out1) @ concat (map written out2) @ waiting s2
      = (concat (map written out1) @ waiting s1) @ concat (map arrived evs)" by (simp add: 2)
  then show ?case using st r 1 by (simp add: Let_def)
qed simp

text \<open>The modem at the other end of the serial line decodes the written stream.\<close>

lemma written_frames:
  assumes "\<And>x. x \<in> set outs \<Longrightarrow> proper_output x"
  shows "mapR data_frame (concat (map written outs)) = Inr (map wire_of (filter (\<lambda>x. written x \<noteq> []) outs))"
    and "concat (map wire_of outs) = concat (map wire_of (filter (\<lambda>x. written x \<noteq> []) outs))"
proof -
  show "mapR data_frame (concat (map written outs)) = Inr (map wire_of (filter (\<lambda>x. written x \<noteq> []) outs))"
    using assms
  proof (induction outs)
    case (Cons x outs)
    then show ?case using Cons.prems [of x] by (cases x) (auto simp: proper_output_def)
  qed simp
  show "concat (map wire_of outs) = concat (map wire_of (filter (\<lambda>x. written x \<noteq> []) outs))"
  proof (induction outs)
    case (Cons x outs)
    then show ?case by (cases x) simp_all
  qed simp
qed

definition data_of :: "bytes \<Rightarrow> kiss_frame" where
  "data_of p = \<lparr> fr_port = 0, fr_command = KISS_DATA, fr_data = p \<rparr>"

lemma encode_data_of: "mapR encode (map data_of ps) = mapR data_frame ps"
  by (induction ps) (simp_all add: data_frame_def data_of_def)

lemma wf_data_of: "wf_frame (data_of p)"
  by (simp add: wf_frame_def data_of_def kiss_commands)

lemma modem_decodes:
  assumes "\<And>x. x \<in> set outs \<Longrightarrow> proper_output x" "concat chunks = concat (map wire_of outs)"
  shows "snd (run_machine feed new_decoder chunks) = map data_of (concat (map written outs))"
  using assms written_frames [OF assms(1)]
  by (intro decode_stream [where noise = "[]"]) (auto simp: list_all_iff wf_data_of encode_data_of)

text \<open>A payload beyond the whole budget stays at the head of its queue.\<close>

lemma oversized_step:
  assumes "tx_order s = [sid]" "tx_queues s = [(sid, [p])]" "0 \<le> tx_used s" "tx_crash s = None"
    and "airtime_seconds (int (length p)) radio = Inr a" "B < a"
  shows "tx_order (fst (tx_step C B radio s ev)) = [sid] \<and> tx_queues (fst (tx_step C B radio s ev)) = [(sid, [p])] \<and>
    0 \<le> tx_used (fst (tx_step C B radio s ev)) \<and> tx_crash (fst (tx_step C B radio s ev)) = None \<and>
    concat (map written (snd (tx_step C B radio s ev))) = []"
proof (cases ev)
  case (Tick now ts)
  obtain usage used where e: "expire_usage now (tx_usage s) (tx_used s) = (usage, used)" by fastforce
  have "0 \<le> snd (expire_usage now us u)" if "0 \<le> u" for us u
    using that by (induction now us u rule: expire_usage.induct) auto
  then have used: "0 \<le> used" using assms(3) e by (metis snd_conv)
  then have "fl a \<le> fl (used + a)" using airtime_pos [OF assms(5)] by (intro fl_mono) auto
  then have "fl (used + a) > B" using airtime_pos(2) [OF assms(5)] assms(6) by simp
  then show ?thesis using Tick assms used flush_iter_cases [OF assms(1,2) e, of B radio ts]
    by (simp add: tx_step_def)
qed (use assms in \<open>simp add: tx_step_def\<close>)

lemma oversized_run:
  assumes "tx_order s = [sid]" "tx_queues s = [(sid, [p])]" "0 \<le> tx_used s" "tx_crash s = None"
    and "airtime_seconds (int (length p)) radio = Inr a" "B < a"
  shows "tx_queues (fst (run_machine (tx_step C B radio) s evs)) = [(sid, [p])] \<and>
    concat (map written (snd (run_machine (tx_step C B radio) s evs))) = []"
  using assms(1-4)
proof (induction evs arbitrary: s)
  case (Cons ev evs)
  obtain s1 out1 where st: "tx_step C B radio s ev = (s1, out1)" by fastforce
  show ?case using oversized_step [OF Cons.prems assms(5,6), of C ev] Cons.IH [of s1] st
    by (cases "run_machine (tx_step C B radio) s1 evs") (simp add: Let_def)
qed simp

lemma tx_step_one: "wf_tx s \<Longrightarrow> length (snd (tx_step C B radio s ev)) \<le> 1"
  using tx_step_account by blast

section \<open>Receiving and connecting\<close>

definition publish_list :: "bytes \<Rightarrow> (bytes list, unit) io" where
  "publish_list p w = (Inr (), w @ [p])"

lemma forward_frames:
  "forIO fs (\<lambda>f. if fr_command f = KISS_DATA then publish_list (fr_data f) else returnIO ()) w =
     (Inr (), w @ map fr_data (filter (\<lambda>f. fr_command f = KISS_DATA) fs))"
  by (induction fs arbitrary: w) (simp_all add: io_defs publish_list_def)

lemma serial_to_mqtt_frames:
  "[] \<notin> set chunks \<Longrightarrow> snd (serial_to_mqtt publish_list d chunks w) =
     w @ map fr_data (filter (\<lambda>f. fr_command f = KISS_DATA) (snd (run_machine feed d chunks)))"
proof (induction chunks arbitrary: d w)
  case (Cons c chunks)
  obtain d1 fs where f: "feed d c = (d1, fs)" by fastforce
  obtain d2 gs where g: "run_machine feed d1 chunks = (d2, gs)" by fastforce
  have "c \<noteq> []" using Cons.prems by auto
  then show ?case using Cons.prems Cons.IH [of d1] by (simp add: f g bindIO_def forward_frames Let_def)
qed (simp add: returnIO_def)

lemma next_backoff_power: "next_backoff (min (2 ^ n) 30) = min (2 ^ Suc n) 30"
proof (cases "n < 5")
  case True
  then consider "n = 0" | "n = 1" | "n = 2" | "n = 3" | "n = 4" by linarith
  then show ?thesis
    using fl_int [of 2] fl_int [of 4] fl_int [of 8] fl_int [of 16] fl_int [of 32]
    by cases (simp_all add: next_backoff_def)
next
  case False
  have "(2 ^ 5 :: rat) \<le> 2 ^ n" using False by (intro power_increasing) auto
  then show ?thesis by (simp add: next_backoff_def min_def)
qed

definition refused :: mqtt_session where
  "refused = \<lparr> se_connect = Some LibraryError, se_configure = None, se_status = None,
     se_serial_to_mqtt = None, se_mqtt_to_serial = None \<rparr>"

lemma refused_delays:
  "session_loop (min (2 ^ k) 30) (replicate n refused @ later) =
     (map (\<lambda>i. min (2 ^ i) 30) [k..<k + n] @ fst (session_loop (min (2 ^ (k + n)) 30) later),
      snd (session_loop (min (2 ^ (k + n)) 30) later))"
proof (induction n arbitrary: k)
  case (Suc n)
  have "[k..<k + Suc n] = k # [Suc k..<Suc k + n]" by (simp add: upt_conv_Cons)
  then show ?case using Suc [of "Suc k"]
    by (simp add: refused_def run_session_def next_backoff_power Let_def)
qed simp

lemma open_serial_delays:
  "open_serial (min (2 ^ k) 30) (replicate n False @ True # later) = (map (\<lambda>i. min (2 ^ i) 30) [k..<k + n], True)"
proof (induction n arbitrary: k)
  case (Suc n)
  have "[k..<k + Suc n] = k # [Suc k..<Suc k + n]" by (simp add: upt_conv_Cons)
  then show ?case using Suc [of "Suc k"] by (simp add: next_backoff_power)
qed simp

text \<open>A small run: a gateway without a radio preset gets one message and writes it.\<close>

definition half_duty :: gateway_config where
  "half_duty = \<lparr> gc_radio_preset = None, gc_radio_freq_hz = None, gc_radio_bw_hz = None, gc_radio_sf = None,
     gc_radio_cr = None, gc_tx_power_dbm = None, gc_duty_cycle = 1/2 \<rparr>"

definition low_duty :: gateway_config where
  "low_duty = half_duty\<lparr>gc_duty_cycle := 1/64\<rparr>"

lemma demo_budgets: "budget_of half_duty = 30" "budget_of low_duty = 15/16"
  "check_gateway_config half_duty = Inr ()" "check_gateway_config low_duty = Inr ()"
  using fl_int [of 30] fl_representable [of 15 "- 4"]
  by (simp_all add: budget_of_def half_duty_def low_duty_def window_s_def check_gateway_config_def two_powi_def)

definition demo_sid :: ustring where
  "demo_sid = take 12 (bytes_hex (sha256 demo_lib [116]))"

lemma demo_sid: "topic_sid demo_lib [116] = Inr demo_sid"
  by (simp add: topic_sid_def demo_sid_def utf8_encode_def encodable_def surrogate_def utf8_char_def)

lemma demo_queued:
  "run_machine (tx_step demo_lib B None) initial_tx [Arrive [116] [7], Tick 0 0] =
     (initial_tx\<lparr>tx_queues := [(demo_sid, [[7]])], tx_order := [demo_sid]\<rparr>, [])"
  by (simp add: tx_step_def initial_tx_def take_message_def demo_sid enqueue_def Let_def)

lemma demo_written:
  "run_machine (tx_step demo_lib 30 None) initial_tx ([Arrive [116] [7], Tick 0 0] @ [Tick 1 2]) =
     (initial_tx\<lparr>tx_usage := [(2, 1)], tx_used := 1\<rparr>, [Wrote [7] [0xC0, 0, 7, 0xC0] 1 2 1])"
  unfolding run_machine_append demo_queued
  by (simp add: tx_step_def initial_tx_def flush_iter_def airtime_seconds_def data_frame_def encode_def Let_def
      type_byte_def kiss_commands kiss_bytes byte_of_def)

section \<open>Properties\<close>

text \<open>
  Property (C15): the gateway keeps its duty cycle. Whatever arrives and however time passes (the clock
  never goes back), when a payload is written, its airtime and that of every transmission recorded
  within the last 60 seconds add up to at most the budget, 60 seconds times the configured duty cycle.
  The slack is what floating point costs: \<open>2 ^ (-47)\<close> seconds of window for the subtraction of two
  clock readings, and \<open>2 ^ (-46)\<close> seconds of airtime per transmission so far.
\<close>

theorem duty_cycle_respected:
  assumes "check_gateway_config g = Inr ()" "clocks_from t0 evs"
    and "snd (run_machine (tx_step C (budget_of g) radio) initial_tx evs) = pre @ Wrote p w now ts a # post"
  shows "airtime_seconds (int (length p)) radio = Inr a \<and>
    air (filter (\<lambda>x. now - (60 - 1 / 2 ^ 47) < fst x) (stamps pre)) + a
      \<le> budget_of g + of_nat (Suc (length (stamps pre))) / 2 ^ 46"
proof -
  let ?step = "tx_step C (budget_of g) radio"
  have B: "budget_of g \<le> 60" using budget_le [OF assms(1)] by simp
  obtain evs1 ev evs2 where evs: "evs = evs1 @ ev # evs2" and pre: "snd (run_machine ?step initial_tx evs1) = pre"
    and out: "snd (?step (fst (run_machine ?step initial_tx evs1)) ev) = [Wrote p w now ts a]"
    using tx_run.split_output [OF wf_initial_tx tx_step_one assms(3)] by blast
  let ?s = "fst (run_machine ?step initial_tx evs1)"
  obtain t where acc: "account_ok pre ?s t" and wf: "wf_tx ?s" and clk: "clocks_from t (ev # evs2)"
    using account_run [OF account_initial wf_initial_tx, of t0 evs1 "ev # evs2" "budget_of g" C radio ?s pre] assms(2) evs B pre
    by (metis append_Nil prod.collapse)
  obtain now' ts' where ev: "ev = Tick now' ts'" using out by (cases ev) (simp_all add: tx_step_def)
  obtain s' where st: "?step ?s (Tick now' ts') = (s', [Wrote p w now ts a])" using out ev by (metis prod.collapse)
  obtain usage used where e: "expire_usage now' (tx_usage ?s) (tx_used ?s) = (usage, used)" by fastforce
  have a: "now' = now" "airtime_seconds (int (length p)) radio = Inr a" using tx_step_tick [OF wf st e] by auto
  have "t \<le> now" using clk ev a(1) by simp
  have "snd (?step ?s (Tick now' ts')) = [Wrote p w now ts a]" using out ev by simp
  from write_within_budget [OF acc wf \<open>t \<le> now\<close> B this a(1)] show ?thesis
    using a(2) by (simp add: window_s_def eps_def field_simps)
qed

lemma duty_cycle_respected_witness: "airtime_seconds 1 None = Inr 1 \<and> air [] + 1 \<le> budget_of half_duty + 1 / 2 ^ 46"
  using duty_cycle_respected [of half_duty 0 "[Arrive [116] [7], Tick 0 0] @ [Tick 1 2]" demo_lib None "[]" "[7]"
      "[0xC0, 0, 7, 0xC0]" 1 2 1 "[]"] demo_written
  by (simp add: demo_budgets)

text \<open>
  Property (C16): nothing is lost, repeated or reordered on its way to the modem. At any time the
  payloads written, those queued and those still to be taken are together exactly the nonempty
  payloads that arrived, in their order; and the modem's decoder, fed with the bytes written so far in
  any chunks, gives exactly one data frame for each payload written.
\<close>

theorem transmits_in_order:
  assumes "concat chunks = concat (map wire_of (snd (run_machine (tx_step C B radio) initial_tx evs)))"
  shows "concat (map written (snd (run_machine (tx_step C B radio) initial_tx evs))) @
      waiting (fst (run_machine (tx_step C B radio) initial_tx evs)) = concat (map arrived evs) \<and>
    snd (run_machine feed new_decoder chunks) =
      map data_of (concat (map written (snd (run_machine (tx_step C B radio) initial_tx evs))))"
proof
  show "concat (map written (snd (run_machine (tx_step C B radio) initial_tx evs))) @
      waiting (fst (run_machine (tx_step C B radio) initial_tx evs)) = concat (map arrived evs)"
    using tx_run_account [OF wf_initial_tx, of C B radio evs] by (simp add: waiting_def initial_tx_def)
  show "snd (run_machine feed new_decoder chunks) =
      map data_of (concat (map written (snd (run_machine (tx_step C B radio) initial_tx evs))))"
    by (rule modem_decodes [OF tx_run.run_good [OF wf_initial_tx] assms])
qed

lemma transmits_in_order_witness:
  "snd (run_machine feed new_decoder [[0xC0], [0, 7, 0xC0]]) = [data_of [7]]"
  using transmits_in_order [of "[[0xC0], [0, 7, 0xC0]]" demo_lib 30 None "[Arrive [116] [7], Tick 0 0] @ [Tick 1 2]"]
    demo_written by simp



text \<open>
  Property (C18): one oversized payload silences the gateway. A payload whose airtime exceeds the whole
  budget is never dropped: the loop sleeps and tries again for ever, so whatever time passes and
  whatever else arrives, nothing is transmitted any more.
\<close>

theorem oversized_payload_blocks:
  assumes "wf_tx s" "tx_queues s = [(sid, [p])]" "0 \<le> tx_used s" "tx_crash s = None"
    and "airtime_seconds (int (length p)) radio = Inr a" "budget_of g < a"
  shows "concat (map written (snd (run_machine (tx_step C (budget_of g) radio) s evs))) = [] \<and>
    tx_queues (fst (run_machine (tx_step C (budget_of g) radio) s evs)) = [(sid, [p])]"
proof -
  have "tx_order s = [sid]" using assms(1,2) by (auto simp: wf_tx_def)
  from oversized_run [OF this assms(2-6)] show ?thesis by simp
qed

text \<open>Without a radio preset every payload counts one second, more than a budget of 1/64 of a minute.\<close>

lemma oversized_payload_blocks_witness:
  "concat (map written (snd (run_machine (tx_step demo_lib (budget_of low_duty) None)
     (fst (run_machine (tx_step demo_lib (budget_of low_duty) None) initial_tx [Arrive [116] [7], Tick 0 0]))
     [Tick 100 100, Arrive [116] [8], Tick 1000 1000]))) = []"
  unfolding demo_queued fst_conv
  using oversized_payload_blocks [of "initial_tx\<lparr>tx_queues := [(demo_sid, [[7]])], tx_order := [demo_sid]\<rparr>"
      demo_sid "[7]" None 1 low_duty demo_lib "[Tick 100 100, Arrive [116] [8], Tick 1000 1000]"]
  by (simp add: demo_budgets initial_tx_def airtime_seconds_def wf_tx_def)

text \<open>
  What the modem hears is forwarded. When the serial line carries encoded frames after
  noise without a delimiter, in chunks of any size, exactly the data of the data frames is published,
  in order; other frames (answers to hardware commands) are not.
\<close>

lemma received_frames_are_published:
  assumes "list_all wf_frame fs" "mapR encode fs = Inr ws" "FEND \<notin> set noise"
    and "concat chunks = noise @ concat ws" "[] \<notin> set chunks"
  shows "snd (serial_to_mqtt publish_list new_decoder chunks sent) =
    sent @ map fr_data (filter (\<lambda>f. fr_command f = KISS_DATA) fs)"
  using serial_to_mqtt_frames [OF assms(5), of new_decoder sent] decode_stream [OF assms(1-4)] by simp

lemma received_frames_are_published_witness:
  "snd (serial_to_mqtt publish_list new_decoder [[9, 0xC0, 0], [5, 0xC0, 0xC0, 6], [1, 0xC0]] []) = [[5]]"
  using received_frames_are_published [of "[data_of [5], \<lparr>fr_port = 0, fr_command = 6, fr_data = [1]\<rparr>]"
      "[[0xC0, 0, 5, 0xC0], [0xC0, 6, 1, 0xC0]]" "[9]" "[[9, 0xC0, 0], [5, 0xC0, 0xC0, 6], [1, 0xC0]]" "[]"]
  by (simp add: data_of_def wf_frame_def encode_def type_byte_in_range kiss_commands kiss_bytes byte_of_def)

text \<open>
  A lost connection ends the gateway instead of reconnecting. While the broker refuses
  connections the loop waits 1, 2, 4, 8, 16 and then 30 seconds and tries again, as it is meant to.
  But once the tasks run, an \<open>MqttError\<close> of either leaves the task group inside an exception group,
  which \<open>except MqttError\<close> does not catch: the loop ends with it and no later session is tried.
\<close>

lemma lost_connection_ends_gateway:
  assumes "se_connect se = None" "se_configure se = None" "se_status se = None"
    and "se_serial_to_mqtt se = Some LibraryError \<or> se_mqtt_to_serial se = Some LibraryError"
  shows "\<exists>es. session_loop 1 (replicate n refused @ se # later) =
    (map (\<lambda>i. min (2 ^ i) 30) [0..<n], Raised (Group es)) \<and> LibraryError \<in> set es"
proof -
  have "\<exists>es. run_session se = Some (Group es) \<and> LibraryError \<in> set es"
    using assms by (cases "se_serial_to_mqtt se"; cases "se_mqtt_to_serial se")
      (auto simp: run_session_def task_group_def List.map_filter_def)
  then obtain es where es: "run_session se = Some (Group es)" "LibraryError \<in> set es" by blast
  have "session_loop b (se # later) = ([], Raised (Group es))" for b by (simp add: es)
  then show ?thesis using refused_delays [of 0 n "se # later"] es(2) by (simp add: min_def)
qed

lemma lost_connection_ends_gateway_witness:
  "\<exists>es. session_loop 1 ([refused, refused] @ refused\<lparr>se_connect := None, se_mqtt_to_serial := Some LibraryError\<rparr> # [refused]) =
    ([1, 2], Raised (Group es)) \<and> LibraryError \<in> set es"
  using lost_connection_ends_gateway [of "refused\<lparr>se_connect := None, se_mqtt_to_serial := Some LibraryError\<rparr>" 2 "[refused]"]
  by (simp add: refused_def numeral_2_eq_2 upt_rec)

end
