(* ===== verification/PyJson.thy ===== *)
theory PyJson
  imports PyStr
begin

text \<open>
  JSON values: what the code looks at in a value that \<open>json.loads\<close> gives (type tests, truth, \<open>str()\<close>),
  and the text \<open>json.dumps\<close> writes. A float carries its \<open>repr\<close>, and \<open>str()\<close> of a list or dict is an
  argument. \<open>JsonRead\<close> has the reading of a text.
\<close>

datatype json =
    JNull
  | JBool bool
  | JInt int
  | JFloat ustring bool
  | JStr ustring
  | JList "json list"
  | JObj "(ustring \<times> json) list"

fun json_true :: "json \<Rightarrow> bool" where
  "json_true JNull = False"
| "json_true (JBool b) = b"
| "json_true (JInt i) = (i \<noteq> 0)"
| "json_true (JFloat text_of nonzero) = nonzero"
| "json_true (JStr s) = (s \<noteq> [])"
| "json_true (JList xs) = (xs \<noteq> [])"
| "json_true (JObj kvs) = (kvs \<noteq> [])"

fun json_str :: "(json \<Rightarrow> ustring) \<Rightarrow> json \<Rightarrow> ustring" where
  "json_str container JNull = ustr ''None''"
| "json_str container (JBool b) = ustr (if b then ''True'' else ''False'')"
| "json_str container (JInt i) = int_str i"
| "json_str container (JFloat text_of nonzero) = text_of"
| "json_str container (JStr s) = s"
| "json_str container v = container v"

text \<open>\<open>for item in v\<close>: the items, keys or characters; iterating another value is a \<open>TypeError\<close>.\<close>

fun json_items :: "json \<Rightarrow> json list res" where
  "json_items (JList xs) = Inr xs"
| "json_items (JObj kvs) = Inr (map (JStr \<circ> fst) kvs)"
| "json_items (JStr s) = Inr (map (\<lambda>c. JStr [c]) s)"
| "json_items v = Inl TypeError"

section \<open>Writing\<close>

text \<open>
  \<open>json.dumps(v, separators=(",", ":"))\<close>: non-ASCII characters are escaped, those beyond the basic
  plane as a surrogate pair.
\<close>

definition hex4 :: "nat \<Rightarrow> ustring" where
  "hex4 n = map (\<lambda>i. hex_digit (n div 16 ^ i mod 16)) [3, 2, 1, 0]"

definition json_char :: "nat \<Rightarrow> ustring" where
  "json_char c =
     (if c = 34 then ustr [CHR 0x5C, CHR 0x22]
      else if c = 92 then ustr [CHR 0x5C, CHR 0x5C]
      else if c = 8 then ustr [CHR 0x5C, CHR ''b'']
      else if c = 9 then ustr [CHR 0x5C, CHR ''t'']
      else if c = 10 then ustr [CHR 0x5C, CHR ''n'']
      else if c = 12 then ustr [CHR 0x5C, CHR ''f'']
      else if c = 13 then ustr [CHR 0x5C, CHR ''r'']
      else if 32 \<le> c \<and> c \<le> 126 then [c]
      else if c < 0x10000 then ustr [CHR 0x5C, CHR ''u''] @ hex4 c
      else ustr [CHR 0x5C, CHR ''u''] @ hex4 (0xD800 + (c - 0x10000) div 0x400 mod 0x400) @
           ustr [CHR 0x5C, CHR ''u''] @ hex4 (0xDC00 + (c - 0x10000) mod 0x400))"

definition json_string :: "ustring \<Rightarrow> ustring" where
  "json_string s = [34] @ concat (map json_char s) @ [34]"

fun json_dumps :: "json \<Rightarrow> ustring"
  and json_dumps_items :: "json list \<Rightarrow> ustring list"
  and json_dumps_members :: "(ustring \<times> json) list \<Rightarrow> ustring list" where
  "json_dumps JNull = ustr ''null''"
| "json_dumps (JBool b) = ustr (if b then ''true'' else ''false'')"
| "json_dumps (JInt i) = int_str i"
| "json_dumps (JFloat text_of nonzero) = text_of"
| "json_dumps (JStr s) = json_string s"
| "json_dumps (JList xs) = ustr ''['' @ str_join (ustr '','') (json_dumps_items xs) @ ustr '']''"
| "json_dumps (JObj kvs) = ustr ''{'' @ str_join (ustr '','') (json_dumps_members kvs) @ ustr ''}''"
| "json_dumps_items [] = []"
| "json_dumps_items (x # xs) = json_dumps x # json_dumps_items xs"
| "json_dumps_members [] = []"
| "json_dumps_members ((k, v) # kvs) = (json_string k @ ustr '':'' @ json_dumps v) # json_dumps_members kvs"

text \<open>\<open>json.dumps(v)\<close>, with a space after each separator.\<close>

fun json_text :: "json \<Rightarrow> ustring"
  and json_text_items :: "json list \<Rightarrow> ustring list"
  and json_text_members :: "(ustring \<times> json) list \<Rightarrow> ustring list" where
  "json_text JNull = ustr ''null''"
| "json_text (JBool b) = ustr (if b then ''true'' else ''false'')"
| "json_text (JInt i) = int_str i"
| "json_text (JFloat text_of nonzero) = text_of"
| "json_text (JStr s) = json_string s"
| "json_text (JList xs) = ustr ''['' @ str_join (ustr '', '') (json_text_items xs) @ ustr '']''"
| "json_text (JObj kvs) = ustr ''{'' @ str_join (ustr '', '') (json_text_members kvs) @ ustr ''}''"
| "json_text_items [] = []"
| "json_text_items (x # xs) = json_text x # json_text_items xs"
| "json_text_members [] = []"
| "json_text_members ((k, v) # kvs) = (json_string k @ ustr '': '' @ json_text v) # json_text_members kvs"

text \<open>The text is ASCII, if that of its floats is.\<close>

definition ascii :: "ustring \<Rightarrow> bool" where
  "ascii s \<longleftrightarrow> (\<forall>c \<in> set s. c < 128)"

lemma ascii_simps [simp]:
  "ascii []" "ascii (c # s) \<longleftrightarrow> c < 128 \<and> ascii s" "ascii (s @ t) \<longleftrightarrow> ascii s \<and> ascii t"
  by (auto simp: ascii_def)

fun ascii_floats :: "json \<Rightarrow> bool" where
  "ascii_floats (JFloat text_of nonzero) = ascii text_of"
| "ascii_floats (JList xs) = list_all ascii_floats xs"
| "ascii_floats (JObj kvs) = list_all (\<lambda>kv. ascii_floats (snd kv)) kvs"
| "ascii_floats v = True"

lemma ascii_hex4: "ascii (hex4 n)"
proof -
  have d: "d < 16 \<Longrightarrow> hex_digit d < 128" for d by (simp add: hex_digit_def)
  have "hex_digit (m mod 16) < 128" for m by (rule d) simp
  then show ?thesis by (simp add: hex4_def)
qed

lemma ascii_json_string: "ascii (json_string s)"
proof -
  have "ascii (json_char c)" for c by (simp add: json_char_def ascii_hex4 ustr_def)
  then show ?thesis by (auto simp: json_string_def ascii_def)
qed

lemma ascii_int_str: "ascii (int_str i)"
  using nat_str_digits by (fastforce simp: ascii_def int_str_def)

lemma ascii_join: "ascii sep \<Longrightarrow> list_all ascii ss \<Longrightarrow> ascii (str_join sep ss)"
  by (induction sep ss rule: str_join.induct) simp_all

lemma ascii_json_dumps:
  "ascii_floats v \<Longrightarrow> ascii (json_dumps v)"
  "list_all ascii_floats xs \<Longrightarrow> list_all ascii (json_dumps_items xs)"
  "list_all (\<lambda>kv. ascii_floats (snd kv)) kvs \<Longrightarrow> list_all ascii (json_dumps_members kvs)"
proof (induction v and xs and kvs rule: json_dumps_json_dumps_items_json_dumps_members.induct)
  case (6 xs)
  then show ?case using ascii_join [of "ustr '',''" "json_dumps_items xs"] by (simp add: ustr_def)
next
  case (7 kvs)
  then show ?case using ascii_join [of "ustr '',''" "json_dumps_members kvs"] by (simp add: ustr_def)
qed (simp_all add: ascii_json_string ascii_int_str, simp_all add: ustr_def)

lemma ascii_json_text:
  "ascii_floats v \<Longrightarrow> ascii (json_text v)"
  "list_all ascii_floats xs \<Longrightarrow> list_all ascii (json_text_items xs)"
  "list_all (\<lambda>kv. ascii_floats (snd kv)) kvs \<Longrightarrow> list_all ascii (json_text_members kvs)"
proof (induction v and xs and kvs rule: json_text_json_text_items_json_text_members.induct)
  case (6 xs)
  then show ?case using ascii_join [of "ustr '', ''" "json_text_items xs"] by (simp add: ustr_def)
next
  case (7 kvs)
  then show ?case using ascii_join [of "ustr '', ''" "json_text_members kvs"] by (simp add: ustr_def)
qed (simp_all add: ascii_json_string ascii_int_str, simp_all add: ustr_def)

lemma utf8_ascii: "ascii s \<Longrightarrow> utf8_encode s = Inr (map of_nat s)"
proof -
  assume a: "ascii s"
  then have "encodable s" by (auto simp: ascii_def encodable_def list_all_iff surrogate_def)
  moreover from a have "concat (map utf8_char s) = s" by (induction s) (auto simp: utf8_char_def)
  ultimately show ?thesis by (simp add: utf8_encode_def)
qed

end
