(* ===== verification/EchoModel.thy ===== *)
theory EchoModel
  imports NodeCommon PyJson "HOL-Library.AList"
begin

unbundle bit_operations_syntax

text \<open>
  The echo server (\<open>home_auto_client/echo_server.py\<close>): the contacts it learns from adverts, the
  messages and paths it remembers, its handlers, the delivery of an echo and the receive loop.
\<close>

section \<open>State\<close>

record echo_config =
  ec_display_name :: ustring
  ec_advert_flood :: bool
  ec_echo_prefix :: ustring
  ec_ack_reply_delay_s :: rat
  ec_recent_message_ttl_s :: rat
  ec_reply_ack_timeout_s :: rat
  ec_reply_direct_attempts :: int
  ec_reply_flood_attempts :: int
  ec_contact_pub_keys :: "bytes list"
  ec_monitor_channel_keys :: "bytes list"
  ec_monitor_name_filter :: ustring

text \<open>The arguments of a \<open>deliver_echo\<close> task.\<close>

record echo_task =
  et_shared :: bytes
  et_sender_pub :: bytes
  et_src_hash :: int
  et_inbound_ack :: bytes
  et_inbound_packet :: packet
  et_original_text :: ustring

text \<open>
  The fields of \<open>EchoServer\<close>. The dictionaries the code iterates over are association lists in order
  of insertion. \<open>es_cache\<close> is the contact cache file (\<open>None\<close>: none, \<open>Some None\<close>: not JSON) and
  \<open>es_cache_fails\<close> whether writing it fails; \<open>es_channel_log\<close> holds the channel messages reported;
  \<open>es_publish_fails\<close> says which of the broker's publish calls raise.
\<close>

record echo_server =
  es_contacts :: "(int \<times> (bytes \<times> ustring) list) list"
  es_recent_messages :: "int \<times> bytes \<rightharpoonup> rat"
  es_recent_paths :: "int \<times> bytes \<rightharpoonup> packet"
  es_ack_waiters :: "bytes \<Rightarrow> nat list"
  es_resolved :: "nat list"
  es_next_future :: nat
  es_advert_ts :: "bytes \<rightharpoonup> int"
  es_tasks :: "echo_task list"
  es_cache :: "json option option"
  es_cache_fails :: bool
  es_channel_log :: "(ustring \<times> int \<times> ustring) list"
  es_sent :: "bytes list"
  es_publishes :: nat
  es_publish_fails :: "nat \<Rightarrow> bool"

text \<open>
  What does not change: the packages, the configuration, the identity, \<open>str.lower\<close> (which rests on
  the Unicode tables) and \<open>str()\<close> of a list or dict.
\<close>

record echo_node =
  en_lib :: crypto_lib
  en_config :: echo_config
  en_identity :: identity
  en_lower :: "ustring \<Rightarrow> ustring"
  en_container_str :: "json \<Rightarrow> ustring"

type_synonym 'a echo_io = "(echo_server, 'a) io"

section \<open>Contacts\<close>

definition contacts_at :: "echo_server \<Rightarrow> int \<Rightarrow> (bytes \<times> ustring) list" where
  "contacts_at s h = (case map_of (es_contacts s) h of None \<Rightarrow> [] | Some g \<Rightarrow> g)"

definition known_pub_keys_for :: "int \<Rightarrow> echo_server \<Rightarrow> bytes list" where
  "known_pub_keys_for h s = map fst (contacts_at s h)"

definition put_contact :: "int \<Rightarrow> bytes \<Rightarrow> ustring \<Rightarrow> echo_server \<Rightarrow> echo_server" where
  "put_contact h pub_key name s =
     s\<lparr>es_contacts := AList.update h (AList.update pub_key name (contacts_at s h)) (es_contacts s)\<rparr>"

text \<open>\<open>add_contact\<close> tells whether the contact is new or has another name.\<close>

definition add_contact :: "bytes \<Rightarrow> ustring \<Rightarrow> bool echo_io" where
  "add_contact pub_key name =
     bindIO (liftR (path_hash pub_key)) (\<lambda>h.
     bindIO getIO (\<lambda>s.
     bindIO (modifyIO (put_contact h pub_key name)) (\<lambda>_.
     returnIO (map_of (contacts_at s h) pub_key \<noteq> Some name))))"

text \<open>
  The contact cache. Loading stops at the first entry that raises; a \<open>ValueError\<close> is only logged.
\<close>

definition json_get :: "ustring \<Rightarrow> (ustring \<times> json) list \<Rightarrow> json option" where
  "json_get key kvs = map_of kvs key"

definition load_entry :: "echo_node \<Rightarrow> json \<Rightarrow> unit echo_io" where
  "load_entry N item =
     (case item of
        JObj kvs \<Rightarrow>
          bindIO (liftR (bytes_fromhex (case json_get (ustr ''pub_key'') kvs of
                           None \<Rightarrow> [] | Some v \<Rightarrow> json_str (en_container_str N) v))) (\<lambda>pub_key.
          if length pub_key \<noteq> 32 then returnIO ()
          else
            let name = (case json_get (ustr ''name'') kvs of
                          None \<Rightarrow> ustr ''cached-contact''
                        | Some v \<Rightarrow> if json_true v then json_str (en_container_str N) v else ustr ''cached-contact'') in
            bindIO (add_contact pub_key name) (\<lambda>_. returnIO ()))
      | _ \<Rightarrow> returnIO ())"

definition load_contact_cache :: "echo_node \<Rightarrow> unit echo_io" where
  "load_contact_cache N =
     bindIO getIO (\<lambda>s.
     case es_cache s of
       None \<Rightarrow> returnIO ()
     | Some content \<Rightarrow>
         catching (\<lambda>e. e = OSError \<or> caught_by_ValueError e)
           (case content of
              None \<Rightarrow> liftR (Inl ValueError)
            | Some raw \<Rightarrow>
                bindIO (liftR (json_items (case raw of
                          JObj kvs \<Rightarrow> (case json_get (ustr ''contacts'') kvs of None \<Rightarrow> JList [] | Some v \<Rightarrow> v)
                        | _ \<Rightarrow> JList []))) (\<lambda>contacts.
                forIO contacts (load_entry N))))"

definition cache_entry :: "bytes \<times> ustring \<Rightarrow> json" where
  "cache_entry c = JObj [(ustr ''name'', JStr (snd c)), (ustr ''pub_key'', JStr (bytes_hex (fst c)))]"

definition save_contact_cache :: "unit echo_io" where
  "save_contact_cache =
     bindIO getIO (\<lambda>s.
     if es_cache_fails s then liftR (Inl OSError)
     else modifyIO (\<lambda>s. s\<lparr>es_cache := Some (Some (JObj [(ustr ''contacts'',
            JList (map cache_entry (concat (map snd (es_contacts s)))))]))\<rparr>))"

section \<open>Recent messages and paths\<close>

definition echo_remember_message :: "echo_config \<Rightarrow> rat \<Rightarrow> int \<Rightarrow> bytes \<Rightarrow> bool echo_io" where
  "echo_remember_message cfg now src_hash ack_hash s =
     (let cutoff = now - ec_recent_message_ttl_s cfg;
          recent = expire cutoff (es_recent_messages s);
          paths = (\<lambda>k. if es_recent_messages s k \<noteq> None \<and> recent k = None then None else es_recent_paths s k);
          key = (src_hash, ack_hash) in
      if recent key \<noteq> None
      then (Inr False, s\<lparr>es_recent_messages := recent, es_recent_paths := paths\<rparr>)
      else (Inr True, s\<lparr>es_recent_messages := recent(key \<mapsto> now), es_recent_paths := paths\<rparr>))"

definition remember_path :: "int \<Rightarrow> bytes \<Rightarrow> packet \<Rightarrow> unit echo_io" where
  "remember_path src_hash ack_hash p =
     bindIO getIO (\<lambda>s.
     bindIO (case es_recent_paths s (src_hash, ack_hash) of
               None \<Rightarrow> returnIO True
             | Some prev \<Rightarrow> liftR (bindR (hash_count p) (\<lambda>n. bindR (hash_count prev) (\<lambda>m. Inr (n > m))))) (\<lambda>longer.
     if longer then modifyIO (\<lambda>s. s\<lparr>es_recent_paths := (es_recent_paths s)((src_hash, ack_hash) \<mapsto> p)\<rparr>)
     else returnIO ()))"

definition best_path_packet :: "int \<Rightarrow> bytes \<Rightarrow> packet \<Rightarrow> echo_server \<Rightarrow> packet" where
  "best_path_packet src_hash ack_hash fallback s =
     (case es_recent_paths s (src_hash, ack_hash) of None \<Rightarrow> fallback | Some p \<Rightarrow> p)"

section \<open>Acknowledgements\<close>

definition echo_publish :: "bytes \<Rightarrow> unit echo_io" where
  "echo_publish wire s =
     (if es_publish_fails s (es_publishes s)
      then (Inl LibraryError, s\<lparr>es_publishes := Suc (es_publishes s)\<rparr>)
      else (Inr (), s\<lparr>es_publishes := Suc (es_publishes s), es_sent := es_sent s @ [wire]\<rparr>))"

definition echo_wait_begin :: "bytes \<Rightarrow> nat echo_io" where
  "echo_wait_begin ack_hash s =
     (Inr (es_next_future s),
      s\<lparr>es_next_future := Suc (es_next_future s),
        es_ack_waiters := (es_ack_waiters s)(ack_hash := es_ack_waiters s ack_hash @ [es_next_future s])\<rparr>)"

definition echo_wait_end :: "bytes \<Rightarrow> nat \<Rightarrow> bool echo_io" where
  "echo_wait_end ack_hash fut s =
     (Inr (fut \<in> set (es_resolved s)),
      s\<lparr>es_ack_waiters := (es_ack_waiters s)(ack_hash := remove1 fut (es_ack_waiters s ack_hash))\<rparr>)"

definition echo_wait_for_ack :: "(echo_server \<Rightarrow> echo_server) \<Rightarrow> bytes \<Rightarrow> rat \<Rightarrow> bool echo_io" where
  "echo_wait_for_ack during ack_hash timeout_s = wait_during echo_wait_begin echo_wait_end during ack_hash"

definition echo_resolve :: "bytes \<Rightarrow> unit echo_io" where
  "echo_resolve ack_hash s =
     (Inr (),
      s\<lparr>es_ack_waiters := (es_ack_waiters s)(ack_hash := []),
        es_resolved := es_resolved s @ filter (\<lambda>f. f \<notin> set (es_resolved s)) (es_ack_waiters s ack_hash)\<rparr>)"

definition echo_handle_ack :: "packet \<Rightarrow> unit echo_io" where
  "echo_handle_ack p =
     (case parse_ack_payload (pkt_payload p) of None \<Rightarrow> returnIO () | Some ack_hash \<Rightarrow> echo_resolve ack_hash)"

definition send_txt_ack :: "echo_node \<Rightarrow> bytes \<Rightarrow> int \<Rightarrow> bytes \<Rightarrow> packet \<Rightarrow> unit echo_io" where
  "send_txt_ack N shared dest_hash ack p =
     (if is_flood p
      then
        bindIO (liftR (bindR (build_path_packet (en_lib N) [] shared dest_hash (id_pub_key (en_identity N))
                  (pkt_path p) (pkt_hash_size p) (payload_val ACK) (Some ack) FLOOD [] 1) encode_packet)) (\<lambda>wire.
        bindIO (echo_publish wire) (\<lambda>_.
        bindIO (liftR (hash_count p)) (\<lambda>_. returnIO ())))
      else bindIO (liftR (bindR (build_ack_packet ack FLOOD) encode_packet)) echo_publish)"

section \<open>Adverts\<close>

definition echo_self_advert :: "echo_node \<Rightarrow> clock \<Rightarrow> bytes res" where
  "echo_self_advert N ck =
     (let app = \<lparr> ad_type = advert_type_val CHAT, ad_name = ec_display_name (en_config N), ad_lat = None,
                  ad_lon = None, ad_feat1 = None, ad_feat2 = None \<rparr> in
      bindR (encode_advert (en_lib N) (id_seed (en_identity N)) (id_pub_key (en_identity N)) (ck_time ck) app) (\<lambda>payload.
      encode_packet (make_packet (if ec_advert_flood (en_config N) then FLOOD else DIRECT) ADVERT [] payload 1)))"

definition echo_handle_advert :: "echo_node \<Rightarrow> packet \<Rightarrow> unit echo_io" where
  "echo_handle_advert N p =
     (case decode_advert (pkt_payload p) of
        Inl e \<Rightarrow> if caught_by_ValueError e then returnIO () else liftR (Inl e)
      | Inr advert \<Rightarrow>
          if av_pub_key advert = id_pub_key (en_identity N) then returnIO ()
          else
            bindIO (liftR (signature_valid (en_lib N) advert)) (\<lambda>valid.
            if \<not> valid then returnIO ()
            else
              bindIO getIO (\<lambda>s.
              if (case es_advert_ts s (av_pub_key advert) of None \<Rightarrow> False | Some last_ts \<Rightarrow> av_timestamp advert < last_ts)
              then returnIO ()
              else
                bindIO (modifyIO (\<lambda>s. s\<lparr>es_advert_ts := (es_advert_ts s)(av_pub_key advert \<mapsto> av_timestamp advert)\<rparr>)) (\<lambda>_.
                bindIO (add_contact (av_pub_key advert) (ad_name (av_app_data advert))) (\<lambda>changed.
                if changed then save_contact_cache else returnIO ())))))"

section \<open>Messages\<close>

text \<open>\<open>getattr(route_type, "name", route_type)\<close> in an f-string.\<close>

fun route_name :: "route_type \<Rightarrow> ustring" where
  "route_name TRANSPORT_FLOOD = ustr ''TRANSPORT_FLOOD''"
| "route_name FLOOD = ustr ''FLOOD''"
| "route_name DIRECT = ustr ''DIRECT''"
| "route_name TRANSPORT_DIRECT = ustr ''TRANSPORT_DIRECT''"
| "route_name (RawRoute n) = int_str n"

definition format_path_info :: "packet \<Rightarrow> ustring res" where
  "format_path_info p =
     bindR (hash_count p) (\<lambda>n.
     let path = (if n = 0 then ustr ''none''
                 else str_join (ustr ''>'') (map bytes_hex (entries (nat (pkt_hash_size p)) (pkt_path p)))) in
     Inr (ustr ''route='' @ route_name (pkt_route p) @ ustr '' hash_size='' @ int_str (pkt_hash_size p) @
          ustr '' hops='' @ int_str n @ ustr '' path='' @ path))"

text \<open>The contacts a packet addressed to us may come from, or \<open>None\<close> when it is not for us.\<close>

definition candidates :: "echo_node \<Rightarrow> packet \<Rightarrow> (bytes \<times> ustring) list echo_io" where
  "candidates N p =
     bindIO (liftR (addressed (en_identity N) p)) (\<lambda>src.
     bindIO getIO (\<lambda>s. returnIO (case src of None \<Rightarrow> [] | Some h \<Rightarrow> contacts_at s h)))"

text \<open>The body of the loop of \<open>handle_txt_msg\<close> for the contact whose key decrypts the message.\<close>

definition accept_txt :: "echo_node \<Rightarrow> clock \<Rightarrow> packet \<Rightarrow> bytes \<Rightarrow> bytes \<Rightarrow> txt_msg \<Rightarrow> unit echo_io" where
  "accept_txt N ck p sender_pub shared msg =
     bindIO (liftR (txt_ack_hash (en_lib N) msg sender_pub)) (\<lambda>ack.
     bindIO (remember_path (tm_src_hash msg) ack p) (\<lambda>_.
     bindIO (echo_remember_message (en_config N) (ck_monotonic ck) (tm_src_hash msg) ack) (\<lambda>new.
     bindIO (send_txt_ack N shared (tm_src_hash msg) ack p) (\<lambda>_.
     if \<not> new then returnIO ()
     else modifyIO (\<lambda>s. s\<lparr>es_tasks := es_tasks s @ [\<lparr> et_shared = shared, et_sender_pub = sender_pub,
            et_src_hash = tm_src_hash msg, et_inbound_ack = ack, et_inbound_packet = p,
            et_original_text = tm_text msg \<rparr>]\<rparr>)))))"

definition handle_txt_msg :: "echo_node \<Rightarrow> clock \<Rightarrow> packet \<Rightarrow> unit echo_io" where
  "handle_txt_msg N ck p =
     (if pkt_payload p = [] then returnIO ()
      else
        bindIO (liftR (hash_count p)) (\<lambda>_.
        bindIO (candidates N p) (\<lambda>cs.
        bindIO (liftR (first_match (open_with (en_lib N) (en_identity N) try_decrypt_txt_msg (pkt_payload p) \<circ> fst) cs)) (\<lambda>found.
        case found of
          None \<Rightarrow> returnIO ()
        | Some ((sender_pub, _), shared, msg) \<Rightarrow> accept_txt N ck p sender_pub shared msg))))"

definition REQ_TYPE_GET_TELEMETRY_DATA :: int where "REQ_TYPE_GET_TELEMETRY_DATA = 0x03"

text \<open>A path discovery is answered with the observed path and a bundled response.\<close>

definition answer_req :: "echo_node \<Rightarrow> packet \<Rightarrow> bytes \<Rightarrow> req_msg \<Rightarrow> unit echo_io" where
  "answer_req N p shared req =
     bindIO (liftR (hash_count p)) (\<lambda>_.
     if (case rq_data req of [] \<Rightarrow> None | b # _ \<Rightarrow> Some (uint b)) \<noteq> Some REQ_TYPE_GET_TELEMETRY_DATA \<or> \<not> is_flood p
     then returnIO ()
     else
       bindIO (liftR (bindR (to_bytes_le 4 (rq_timestamp req)) (\<lambda>tag.
         bindR (build_path_packet (en_lib N) [] shared (rq_src_hash req) (id_pub_key (en_identity N))
                  (pkt_path p) (pkt_hash_size p) (payload_val RESPONSE) (Some (tag @ [0])) FLOOD [] 1) encode_packet)))
         echo_publish)"

definition handle_req_msg :: "echo_node \<Rightarrow> packet \<Rightarrow> unit echo_io" where
  "handle_req_msg N p =
     bindIO (candidates N p) (\<lambda>cs.
     bindIO (liftR (first_match (open_with (en_lib N) (en_identity N) try_decrypt_req_msg (pkt_payload p) \<circ> fst) cs)) (\<lambda>found.
     case found of
       None \<Rightarrow> returnIO ()
     | Some (_, shared, req) \<Rightarrow> answer_req N p shared req))"

text \<open>A returned path over a flood is answered over the path it carries.\<close>

definition answer_path :: "echo_node \<Rightarrow> clock \<Rightarrow> packet \<Rightarrow> bytes \<Rightarrow> path_msg \<Rightarrow> unit echo_io" where
  "answer_path N ck p shared m =
     bindIO (liftR (hash_count p)) (\<lambda>_.
     if \<not> is_flood p then returnIO ()
     else if pm_path m = [] then returnIO ()
     else
       bindIO (liftR (bindR (build_path_packet (en_lib N) (ck_urandom4 ck) shared (pm_src_hash m)
                (id_pub_key (en_identity N)) (pkt_path p) (pkt_hash_size p) 0xFF None DIRECT (pm_path m) (pm_hash_size m))
              encode_packet)) echo_publish)"

definition handle_path_msg :: "echo_node \<Rightarrow> clock \<Rightarrow> packet \<Rightarrow> unit echo_io" where
  "handle_path_msg N ck p =
     bindIO (candidates N p) (\<lambda>cs.
     bindIO (liftR (first_match (open_with (en_lib N) (en_identity N) try_decrypt_path_msg (pkt_payload p) \<circ> fst) cs)) (\<lambda>found.
     case found of
       None \<Rightarrow> returnIO ()
     | Some (_, shared, m) \<Rightarrow> answer_path N ck p shared m))"

text \<open>Channel messages are only reported, for the contacts that match the name filter.\<close>

definition report_channel :: "echo_node \<Rightarrow> int \<Rightarrow> grp_txt_msg \<Rightarrow> echo_server \<Rightarrow> echo_server" where
  "report_channel N sender_hash msg s =
     (let name_filter = en_lower N (ec_monitor_name_filter (en_config N));
          shown = filter (\<lambda>name. name_filter = [] \<or> str_in name_filter (en_lower N name)) (map snd (contacts_at s sender_hash)) in
      s\<lparr>es_channel_log := es_channel_log s @ map (\<lambda>name. (name, gm_channel_hash msg, gm_text msg)) shown\<rparr>)"

definition handle_grp_txt :: "echo_node \<Rightarrow> packet \<Rightarrow> unit echo_io" where
  "handle_grp_txt N p =
     (if ec_monitor_channel_keys (en_config N) = [] \<or> length (pkt_payload p) < 2 then returnIO ()
      else
        bindIO (liftR (first_match (\<lambda>key. try_decode_grp_txt (en_lib N) (pkt_payload p) key)
                         (ec_monitor_channel_keys (en_config N)))) (\<lambda>found.
        case found of
          None \<Rightarrow> returnIO ()
        | Some (_, msg) \<Rightarrow> modifyIO (report_channel N (uint (pkt_payload p ! 1)) msg)))"

section \<open>Echoing\<close>

text \<open>
  \<open>deliver_echo\<close>: after the reply delay, in which other tasks act (\<open>during_delay\<close>), the text goes back
  over the longest path seen. \<open>during\<close> is what other tasks do in a wait for an ACK.
\<close>

definition echo_text :: "echo_node \<Rightarrow> packet \<Rightarrow> ustring \<Rightarrow> ustring res" where
  "echo_text N best original =
     bindR (format_path_info best) (\<lambda>info.
     Inr (ec_echo_prefix (en_config N) @ original @ ustr '' ['' @ info @ ustr '']''))"

definition echo_route :: "packet \<Rightarrow> bytes res" where
  "echo_route best = (if pkt_path best \<noteq> [] then reverse_path (pkt_path best) (pkt_hash_size best) else Inr [])"

definition deliver_echo ::
    "echo_node \<Rightarrow> clock \<Rightarrow> (echo_server \<Rightarrow> echo_server) \<Rightarrow> (echo_server \<Rightarrow> echo_server) \<Rightarrow> echo_task \<Rightarrow> unit echo_io" where
  "deliver_echo N ck during_delay during t =
     bindIO (if ec_ack_reply_delay_s (en_config N) > 0 then modifyIO during_delay else returnIO ()) (\<lambda>_.
     bindIO getIO (\<lambda>s.
     let best = best_path_packet (et_src_hash t) (et_inbound_ack t) (et_inbound_packet t) s in
     bindIO (liftR (echo_text N best (et_original_text t))) (\<lambda>reply_text.
     bindIO (liftR (echo_route best)) (\<lambda>direct_path.
     bindIO (deliver_txt_msg_with_ack (en_lib N) echo_publish (echo_wait_for_ack during) (et_shared t) (et_sender_pub t)
               (id_pub_key (en_identity N)) reply_text (ck_time ck) direct_path (pkt_hash_size best)
               (ec_reply_direct_attempts (en_config N)) (ec_reply_flood_attempts (en_config N))
               (ec_reply_ack_timeout_s (en_config N))) (\<lambda>_. returnIO ())))))"

section \<open>The receive loop\<close>

definition echo_dispatch :: "echo_node \<Rightarrow> clock \<Rightarrow> packet \<Rightarrow> unit echo_io" where
  "echo_dispatch N ck p =
     (case pkt_type p of
        ADVERT \<Rightarrow> echo_handle_advert N p
      | ACK \<Rightarrow> echo_handle_ack p
      | PATH \<Rightarrow> handle_path_msg N ck p
      | REQ \<Rightarrow> handle_req_msg N p
      | TXT_MSG \<Rightarrow> handle_txt_msg N ck p
      | GRP_TXT \<Rightarrow> handle_grp_txt N p
      | _ \<Rightarrow> returnIO ())"

definition echo_receive :: "echo_node \<Rightarrow> clock \<times> bytes \<Rightarrow> unit echo_io" where
  "echo_receive N x =
     (case x of (ck, payload) \<Rightarrow>
       if payload = [] then returnIO ()
       else
         (case decode_packet payload of
            Inl e \<Rightarrow> if caught_by_ValueError e then returnIO () else liftR (Inl e)
          | Inr p \<Rightarrow>
              bindIO (liftR (hash_count p)) (\<lambda>_. catching (\<lambda>_. True) (echo_dispatch N ck p))))"

text \<open>One round of \<open>advertise_loop\<close>.\<close>

definition advertise :: "echo_node \<Rightarrow> clock \<Rightarrow> unit echo_io" where
  "advertise N ck = bindIO (liftR (echo_self_advert N ck)) echo_publish"

text \<open>
  The tasks of a running server on one event loop: a frame is received, an advert is due, or an echo
  that was started is delivered, with what happens in its reply delay and in each of its waits. An
  exception in an echo is logged (\<open>_on_done\<close>).
\<close>

datatype echo_event =
    Frame clock bytes
  | Advertise clock
  | Echo clock "echo_event list" "echo_event list"

fun run_event :: "echo_node \<Rightarrow> echo_event \<Rightarrow> echo_server \<Rightarrow> echo_server"
  and run_events :: "echo_node \<Rightarrow> echo_event list \<Rightarrow> echo_server \<Rightarrow> echo_server" where
  "run_event N (Frame ck frame) s = snd (echo_receive N (ck, frame) s)"
| "run_event N (Advertise ck) s = snd (advertise N ck s)"
| "run_event N (Echo ck in_delay in_wait) s =
     (case es_tasks s of
        [] \<Rightarrow> s
      | t # ts \<Rightarrow> snd (deliver_echo N ck (run_events N in_delay) (run_events N in_wait) t (s\<lparr>es_tasks := ts\<rparr>)))"
| "run_events N [] s = s"
| "run_events N (e # es) s = run_events N es (run_event N e s)"

text \<open>What \<open>run\<close> does before it connects.\<close>

definition initial_echo :: "json option option \<Rightarrow> bool \<Rightarrow> (nat \<Rightarrow> bool) \<Rightarrow> echo_server" where
  "initial_echo cache cache_fails fails =
     \<lparr> es_contacts = [], es_recent_messages = (\<lambda>_. None), es_recent_paths = (\<lambda>_. None), es_ack_waiters = (\<lambda>_. []),
       es_resolved = [], es_next_future = 0, es_advert_ts = (\<lambda>_. None), es_tasks = [], es_cache = cache,
       es_cache_fails = cache_fails, es_channel_log = [], es_sent = [], es_publishes = 0, es_publish_fails = fails \<rparr>"

definition start_echo :: "echo_node \<Rightarrow> unit echo_io" where
  "start_echo N =
     bindIO (load_contact_cache N) (\<lambda>_.
     forIO (ec_contact_pub_keys (en_config N)) (\<lambda>pub_key.
       bindIO (add_contact pub_key (ustr ''configured-contact'')) (\<lambda>changed.
       if changed then save_contact_cache else returnIO ())))"

end
