(* ===== verification/EchoInvariant.thy ===== *)
theory EchoInvariant
  imports EchoModel
begin

unbundle bit_operations_syntax

text \<open>
  The invariant of the echo server, that every handler keeps it whatever arrives, and the server as a
  system of tasks: frames, adverts and echoes in any nesting.
\<close>

section \<open>The invariant\<close>

text \<open>
  Contacts are grouped by the path hash of their keys; no group is empty and no key is there twice.
\<close>

definition contacts_ok :: "(int \<times> (bytes \<times> ustring) list) list \<Rightarrow> bool" where
  "contacts_ok cs \<longleftrightarrow>
     distinct (map fst cs) \<and>
     (\<forall>(h, g) \<in> set cs. g \<noteq> [] \<and> distinct (map fst g) \<and> (\<forall>(k, n) \<in> set g. length k = 32 \<and> path_hash k = Inr h))"

definition all_contacts :: "echo_server \<Rightarrow> (bytes \<times> ustring) list" where
  "all_contacts s = concat (map snd (es_contacts s))"

text \<open>What the server publishes: the wire image of a packet of one of these types.\<close>

definition emitted :: "bytes \<Rightarrow> bool" where
  "emitted w \<longleftrightarrow> (\<exists>q. encode_packet q = Inr w \<and> pkt_type q \<in> {ACK, PATH, TXT_MSG, ADVERT})"

definition task_ok :: "echo_node \<Rightarrow> echo_task \<Rightarrow> bool" where
  "task_ok N t \<longleftrightarrow>
     wf_packet (et_inbound_packet t) \<and> encodable (et_original_text t) \<and> length (et_sender_pub t) = 32 \<and>
     id_shared_secret (en_lib N) (en_identity N) (et_sender_pub t) = Inr (et_shared t)"

text \<open>
  The state: sound contacts, each with its name in \<open>A\<close>; a path is kept only for a message that is
  kept, and it is a packet that was received; what was published after \<open>pre\<close> are packets.
\<close>

definition echo_ok :: "echo_node \<Rightarrow> (bytes \<times> ustring) set \<Rightarrow> bytes list \<Rightarrow> echo_server \<Rightarrow> bool" where
  "echo_ok N A pre s \<longleftrightarrow>
     contacts_ok (es_contacts s) \<and> set (all_contacts s) \<subseteq> A \<and>
     dom (es_recent_paths s) \<subseteq> dom (es_recent_messages s) \<and>
     (\<forall>q \<in> ran (es_recent_paths s). wf_packet q) \<and>
     list_all (task_ok N) (es_tasks s) \<and> (\<exists>new. es_sent s = pre @ new \<and> list_all emitted new)"

lemma echo_ok_mono: "echo_ok N A pre s \<Longrightarrow> A \<subseteq> B \<Longrightarrow> echo_ok N B pre s"
  by (auto simp: echo_ok_def)

lemma echo_ok_here: "echo_ok N A pre s \<Longrightarrow> echo_ok N A (es_sent s) s"
  by (auto simp: echo_ok_def)

lemma echo_ok_update [simp]:
  "echo_ok N A pre (s\<lparr>es_advert_ts := ts\<rparr>) = echo_ok N A pre s"
  "echo_ok N A pre (s\<lparr>es_cache := c\<rparr>) = echo_ok N A pre s"
  "echo_ok N A pre (s\<lparr>es_channel_log := l\<rparr>) = echo_ok N A pre s"
  "echo_ok N A pre (s\<lparr>es_ack_waiters := v\<rparr>) = echo_ok N A pre s"
  "echo_ok N A pre (s\<lparr>es_resolved := u\<rparr>) = echo_ok N A pre s"
  "echo_ok N A pre (s\<lparr>es_next_future := n\<rparr>) = echo_ok N A pre s"
  "echo_ok N A pre (s\<lparr>es_publishes := m\<rparr>) = echo_ok N A pre s"
  by (simp_all add: echo_ok_def all_contacts_def)

section \<open>Contacts\<close>

lemma contacts_at_update:
  "contacts_at (put_contact h k n s) h' = (if h' = h then AList.update k n (contacts_at s h) else contacts_at s h')"
  by (simp add: contacts_at_def put_contact_def update_conv)

lemma update_not_Nil [simp]: "AList.update k v al \<noteq> []"
  by (cases al) auto

lemma contacts_okD:
  assumes "contacts_ok cs" "(h, g) \<in> set cs"
  shows "g \<noteq> []" "distinct (map fst g)" "(k, n) \<in> set g \<Longrightarrow> length k = 32 \<and> path_hash k = Inr h"
proof -
  have "\<forall>(h, g) \<in> set cs. g \<noteq> [] \<and> distinct (map fst g) \<and> (\<forall>(k, n) \<in> set g. length k = 32 \<and> path_hash k = Inr h)"
    using assms(1) unfolding contacts_ok_def by (rule conjunct2)
  from bspec [OF this assms(2)] show "g \<noteq> []" "distinct (map fst g)"
    "(k, n) \<in> set g \<Longrightarrow> length k = 32 \<and> path_hash k = Inr h" by auto
qed

lemma contacts_at_cases:
  obtains "contacts_at s h = []" | "(h, contacts_at s h) \<in> set (es_contacts s)"
  by (cases "map_of (es_contacts s) h") (auto simp: contacts_at_def dest: map_of_SomeD)

lemma contacts_at_ok:
  assumes "contacts_ok (es_contacts s)"
  shows "distinct (map fst (contacts_at s h))"
    and "(k, n) \<in> set (contacts_at s h) \<Longrightarrow> length k = 32 \<and> path_hash k = Inr h"
    and "set (contacts_at s h) \<subseteq> set (all_contacts s)"
  by (cases rule: contacts_at_cases [of s h]; use contacts_okD [OF assms] in \<open>force simp: all_contacts_def\<close>)+

lemma put_contact_ok:
  assumes ok: "contacts_ok (es_contacts s)" and k: "length k = 32" "path_hash k = Inr h"
  shows "contacts_ok (es_contacts (put_contact h k n s))"
    and "set (all_contacts (put_contact h k n s)) \<subseteq> insert (k, n) (set (all_contacts s))"
proof -
  note at = contacts_at_ok [OF ok]
  let ?g = "AList.update k n (contacts_at s h)"
  have sub: "set (es_contacts (put_contact h k n s)) \<subseteq> insert (h, ?g) (set (es_contacts s))"
    unfolding put_contact_def using set_update_subset by simp
  have d: "distinct (map fst (es_contacts (put_contact h k n s)))"
    using ok by (simp add: contacts_ok_def put_contact_def distinct_update)
  have new: "distinct (map fst ?g)" "\<forall>(j, x) \<in> set ?g. length j = 32 \<and> path_hash j = Inr h"
    using distinct_update [OF at(1)] set_update_subset [of k n "contacts_at s h"] at(2) k by blast+
  have "g' \<noteq> [] \<and> distinct (map fst g') \<and> (\<forall>(j, x) \<in> set g'. length j = 32 \<and> path_hash j = Inr h')"
    if "(h', g') \<in> set (es_contacts (put_contact h k n s))" for h' g'
  proof (cases "(h', g') = (h, ?g)")
    case True
    then show ?thesis using new by simp
  next
    case False
    then have "(h', g') \<in> set (es_contacts s)" using sub that by blast
    then show ?thesis using contacts_okD [OF ok] by blast
  qed
  then show "contacts_ok (es_contacts (put_contact h k n s))" using d unfolding contacts_ok_def by blast
  show "set (all_contacts (put_contact h k n s)) \<subseteq> insert (k, n) (set (all_contacts s))"
  proof
    fix c assume "c \<in> set (all_contacts (put_contact h k n s))"
    then obtain h' g' where g: "(h', g') \<in> set (es_contacts (put_contact h k n s))" "c \<in> set g'"
      by (auto simp: all_contacts_def)
    show "c \<in> insert (k, n) (set (all_contacts s))"
    proof (cases "(h', g') = (h, ?g)")
      case True
      then show ?thesis using g(2) set_update_subset [of k n "contacts_at s h"] at(3) [of h] by auto
    next
      case False
      then have "(h', g') \<in> set (es_contacts s)" using sub g(1) by blast
      then show ?thesis using g(2) by (force simp: all_contacts_def)
    qed
  qed
qed

lemma add_contact_eq:
  "path_hash k = Inr h \<Longrightarrow> add_contact k n s = (Inr (map_of (contacts_at s h) k \<noteq> Some n), put_contact h k n s)"
  by (simp add: add_contact_def io_defs)

lemma put_contact_frame [simp]:
  "es_recent_messages (put_contact h k n s) = es_recent_messages s" "es_recent_paths (put_contact h k n s) = es_recent_paths s"
  "es_tasks (put_contact h k n s) = es_tasks s" "es_sent (put_contact h k n s) = es_sent s"
  "es_cache (put_contact h k n s) = es_cache s" "es_cache_fails (put_contact h k n s) = es_cache_fails s"
  by (simp_all add: put_contact_def)

lemma add_contact_ok:
  assumes "echo_ok N A pre s" "length k = 32" "(k, n) \<in> A"
  shows "wp (add_contact k n) (\<lambda>_. echo_ok N A pre) (echo_ok N A pre) s"
proof -
  have "k \<noteq> []" using assms(2) by auto
  then obtain h where h: "path_hash k = Inr h" by (cases k) (auto simp: path_hash_def)
  show ?thesis using put_contact_ok [OF _ assms(2) h, of s n] assms
    by (auto simp: wp_def add_contact_eq [OF h] echo_ok_def)
qed

lemma save_ok: "echo_ok N A pre s \<Longrightarrow> wp save_contact_cache (\<lambda>_. echo_ok N A pre) (echo_ok N A pre) s"
  by (simp add: save_contact_cache_def wp)

section \<open>Messages and paths\<close>

definition hops :: "packet \<Rightarrow> int" where
  "hops p = int (length (pkt_path p)) div pkt_hash_size p"

lemma hash_count_wf: "wf_packet p \<Longrightarrow> hash_count p = Inr (hops p)"
  by (auto simp: hash_count_def hops_def wf_packet_def path_ok_def)

text \<open>The effect of \<open>remember_path\<close> on the table, and of both calls of the handler on the state.\<close>

definition longer :: "(int \<times> bytes \<rightharpoonup> packet) \<Rightarrow> int \<times> bytes \<Rightarrow> packet \<Rightarrow> int \<times> bytes \<rightharpoonup> packet" where
  "longer m k p = (case m k of None \<Rightarrow> m(k \<mapsto> p) | Some q \<Rightarrow> if hops p > hops q then m(k \<mapsto> p) else m)"

lemma remember_path_eq:
  assumes "wf_packet p" "\<forall>q \<in> ran (es_recent_paths s). wf_packet q"
  shows "remember_path src ack p s = (Inr (), s\<lparr>es_recent_paths := longer (es_recent_paths s) (src, ack) p\<rparr>)"
  using assms by (auto simp: remember_path_def longer_def io_defs hash_count_wf ranI split: option.splits)

definition after_remember :: "echo_config \<Rightarrow> rat \<Rightarrow> int \<times> bytes \<Rightarrow> packet \<Rightarrow> echo_server \<Rightarrow> echo_server" where
  "after_remember cfg now key p s =
     (let recent = expire (now - ec_recent_message_ttl_s cfg) (es_recent_messages s) in
      s\<lparr>es_recent_messages := (if recent key = None then recent(key \<mapsto> now) else recent),
        es_recent_paths := (\<lambda>k. if es_recent_messages s k \<noteq> None \<and> recent k = None then None
           else longer (es_recent_paths s) key p k)\<rparr>)"

lemma remember_both:
  assumes "wf_packet p" "\<forall>q \<in> ran (es_recent_paths s). wf_packet q"
  shows "bindIO (remember_path src ack p) (\<lambda>_. echo_remember_message cfg now src ack) s =
    (Inr (expire (now - ec_recent_message_ttl_s cfg) (es_recent_messages s) (src, ack) = None),
     after_remember cfg now (src, ack) p s)"
  by (simp add: bindIO_def remember_path_eq [OF assms] echo_remember_message_def after_remember_def Let_def cong: if_cong)

lemma longer_ran: "q \<in> ran (longer m k p) \<Longrightarrow> q = p \<or> q \<in> ran m"
  by (auto simp: longer_def ran_def split: option.splits if_splits)

lemma longer_dom: "dom (longer m k p) = insert k (dom m)"
  by (auto simp: longer_def split: option.splits if_splits)

lemma after_remember_ok:
  assumes "echo_ok N A pre s" "wf_packet p"
  shows "echo_ok N A pre (after_remember cfg now key p s)"
proof -
  let ?r = "expire (now - ec_recent_message_ttl_s cfg) (es_recent_messages s)"
  have d: "dom (es_recent_paths s) \<subseteq> dom (es_recent_messages s)" and w: "\<forall>q \<in> ran (es_recent_paths s). wf_packet q"
    using assms(1) by (simp_all add: echo_ok_def)
  have 1: "dom (\<lambda>k. if es_recent_messages s k \<noteq> None \<and> ?r k = None then None else longer (es_recent_paths s) key p k)
      \<subseteq> dom (if ?r key = None then ?r(key \<mapsto> now) else ?r)"
  proof
    fix k assume "k \<in> dom (\<lambda>k. if es_recent_messages s k \<noteq> None \<and> ?r k = None then None else longer (es_recent_paths s) key p k)"
    then have k: "\<not> (es_recent_messages s k \<noteq> None \<and> ?r k = None)" "k \<in> dom (longer (es_recent_paths s) key p)"
      by (auto split: if_splits)
    then have "k = key \<or> k \<in> dom (es_recent_messages s)" using d by (auto simp: longer_dom)
    then show "k \<in> dom (if ?r key = None then ?r(key \<mapsto> now) else ?r)" using k(1) by auto
  qed
  have 2: "wf_packet q" if "q \<in> ran (\<lambda>k. if es_recent_messages s k \<noteq> None \<and> ?r k = None then None
      else longer (es_recent_paths s) key p k)" for q
  proof -
    have "q \<in> ran (longer (es_recent_paths s) key p)" using that by (auto simp: ran_def split: if_splits)
    then show ?thesis using longer_ran w assms(2) by blast
  qed
  show ?thesis using assms(1) 1 2 by (simp add: echo_ok_def after_remember_def Let_def all_contacts_def)
qed

section \<open>Publishing\<close>

lemma echo_publish_ok:
  assumes "echo_ok N A pre s" "emitted w"
  shows "wp (echo_publish w) (\<lambda>_. echo_ok N A pre) (echo_ok N A pre) s"
proof -
  obtain new where "es_sent s = pre @ new" "list_all emitted new" using assms(1) by (auto simp: echo_ok_def)
  then have "es_sent s @ [w] = pre @ (new @ [w])" "list_all emitted (new @ [w])" using assms(2) by simp_all
  then show ?thesis using assms(1) unfolding wp_def echo_publish_def
    by (auto simp: echo_ok_def all_contacts_def)
qed

lemma publish_lift_ok:
  assumes "echo_ok N A pre s" "\<And>w. r = Inr w \<Longrightarrow> emitted w"
  shows "wp (bindIO (liftR r) echo_publish) (\<lambda>_. echo_ok N A pre) (echo_ok N A pre) s"
  using assms echo_publish_ok [OF assms(1)] by (cases r) (simp_all add: wp)

lemma emitted_packet: "encode_packet q = Inr w \<Longrightarrow> pkt_type q \<in> {ACK, PATH, TXT_MSG, ADVERT} \<Longrightarrow> emitted w"
  by (auto simp: emitted_def)

lemma emitted_path:
  "bindR (build_path_packet C r k d pub path hs et extra rt rp rhs) encode_packet = Inr w \<Longrightarrow> emitted w"
  by (auto simp: build_path_packet_def make_packet_def intro: emitted_packet)

lemma emitted_built_path:
  "build_path_packet C r k d pub path hs et extra rt rp rhs = Inr q \<Longrightarrow> encode_packet q = Inr w \<Longrightarrow> emitted w"
  by (rule emitted_path [of C r k d pub path hs et extra rt rp rhs]) simp

lemma emitted_ack: "bindR (build_ack_packet ack r) encode_packet = Inr w \<Longrightarrow> emitted w"
  by (auto simp: build_ack_packet_def make_packet_def intro: emitted_packet split: if_splits)

lemma send_txt_ack_ok:
  assumes inv: "echo_ok N A pre s"
  shows "wp (send_txt_ack N k d ack p) (\<lambda>_. echo_ok N A pre) (echo_ok N A pre) s"
proof (cases "is_flood p")
  case True
  have "wp (bindIO (echo_publish w) (\<lambda>_. bindIO (liftR (hash_count p)) (\<lambda>_. returnIO ())))
      (\<lambda>_. echo_ok N A pre) (echo_ok N A pre) s" if "emitted w" for w
    unfolding wp(5) [of "echo_publish w"]
    by (rule wp_mono [OF echo_publish_ok [OF inv that]]) (simp_all add: wp split: sum.splits)
  then show ?thesis using True inv emitted_path
    unfolding send_txt_ack_def if_P [OF True] wp(5) [of "liftR _"] wp(2) by (fastforce split: sum.splits)
next
  case False
  show ?thesis unfolding send_txt_ack_def if_not_P [OF False]
    by (rule publish_lift_ok [OF inv]) (rule emitted_ack)
qed

section \<open>The handlers keep the invariant\<close>

text \<open>The contacts the packets' adverts announce.\<close>

definition announces :: "echo_node \<Rightarrow> packet \<Rightarrow> bytes \<times> ustring \<Rightarrow> bool" where
  "announces N p c \<longleftrightarrow>
     (\<exists>a. pkt_type p = ADVERT \<and> decode_advert (pkt_payload p) = Inr a \<and> signature_valid (en_lib N) a = Inr True \<and>
        fst c = av_pub_key a \<and> snd c = ad_name (av_app_data a) \<and> fst c \<noteq> id_pub_key (en_identity N))"

lemma decode_advert_key: "decode_advert payload = Inr a \<Longrightarrow> length (av_pub_key a) = 32"
  by (auto simp: decode_advert_def advert_consts crypto_consts Let_def split: if_splits)

lemma echo_handle_advert_ok:
  assumes inv: "echo_ok N A pre s" and p: "pkt_type p = ADVERT" and A: "\<And>c. announces N p c \<Longrightarrow> c \<in> A"
  shows "wp (echo_handle_advert N p) (\<lambda>_. echo_ok N A pre) (echo_ok N A pre) s"
proof (cases "decode_advert (pkt_payload p)")
  case (Inl e)
  then show ?thesis using inv by (simp add: echo_handle_advert_def wp)
next
  case (Inr a)
  let ?t = "s\<lparr>es_advert_ts := (es_advert_ts s)(av_pub_key a \<mapsto> av_timestamp a)\<rparr>"
  have "wp (bindIO (add_contact (av_pub_key a) (ad_name (av_app_data a))) (\<lambda>changed.
      if changed then save_contact_cache else returnIO ())) (\<lambda>_. echo_ok N A pre) (echo_ok N A pre) ?t"
    if "signature_valid (en_lib N) a = Inr True" "av_pub_key a \<noteq> id_pub_key (en_identity N)"
  proof -
    have "(av_pub_key a, ad_name (av_app_data a)) \<in> A" using p Inr that by (intro A) (auto simp: announces_def)
    from add_contact_ok [OF _ decode_advert_key [OF Inr] this, of N pre ?t] inv
    have add: "wp (add_contact (av_pub_key a) (ad_name (av_app_data a))) (\<lambda>_. echo_ok N A pre) (echo_ok N A pre) ?t" by simp
    show ?thesis unfolding wp(5) by (rule wp_mono [OF add]) (simp_all add: save_ok wp)
  qed
  then show ?thesis using inv unfolding echo_handle_advert_def Inr
    by (auto simp: wp(1-5) wp_if split: sum.splits)
qed

lemma candidates_wp:
  assumes inv: "echo_ok N A pre s" and Q: "\<And>cs. \<forall>(k, n) \<in> set cs. length k = 32 \<Longrightarrow> Q cs s"
  shows "wp (candidates N p) Q (echo_ok N A pre) s"
proof -
  have "\<forall>(k, n) \<in> set (contacts_at s h). length k = 32" for h
    using contacts_at_ok(2) [of s] inv by (fastforce simp: echo_ok_def)
  then show ?thesis using inv Q by (auto simp: candidates_def wp split: sum.splits option.splits)
qed

lemma spawn_echo_ok:
  assumes "echo_ok N A pre s" "task_ok N t"
  shows "echo_ok N A pre (s\<lparr>es_tasks := es_tasks s @ [t]\<rparr>)"
  using assms by (simp add: echo_ok_def all_contacts_def)

text \<open>Accepting a message: what is remembered, then the ACK, then the echo task of a new message.\<close>

definition echo_task_of :: "bytes \<Rightarrow> bytes \<Rightarrow> bytes \<Rightarrow> packet \<Rightarrow> txt_msg \<Rightarrow> echo_task" where
  "echo_task_of k shared ack p msg =
     \<lparr> et_shared = shared, et_sender_pub = k, et_src_hash = tm_src_hash msg, et_inbound_ack = ack,
       et_inbound_packet = p, et_original_text = tm_text msg \<rparr>"

definition ack_and_spawn :: "echo_node \<Rightarrow> packet \<Rightarrow> bytes \<Rightarrow> bytes \<Rightarrow> bytes \<Rightarrow> txt_msg \<Rightarrow> bool \<Rightarrow> unit echo_io" where
  "ack_and_spawn N p k shared ack msg new =
     bindIO (send_txt_ack N shared (tm_src_hash msg) ack p) (\<lambda>_.
     if \<not> new then returnIO ()
     else modifyIO (\<lambda>s. s\<lparr>es_tasks := es_tasks s @ [echo_task_of k shared ack p msg]\<rparr>))"

lemma accept_txt_eq:
  assumes "wf_packet p" "\<forall>q \<in> ran (es_recent_paths s). wf_packet q" "txt_ack_hash (en_lib N) msg k = Inr ack"
  shows "accept_txt N ck p k shared msg s =
    ack_and_spawn N p k shared ack msg
      (expire (ck_monotonic ck - ec_recent_message_ttl_s (en_config N)) (es_recent_messages s) (tm_src_hash msg, ack) = None)
      (after_remember (en_config N) (ck_monotonic ck) (tm_src_hash msg, ack) p s)"
proof -
  let ?src = "tm_src_hash msg" and ?cfg = "en_config N" and ?now = "ck_monotonic ck"
  let ?rem = "bindIO (remember_path ?src ack p) (\<lambda>_. echo_remember_message ?cfg ?now ?src ack)"
  have "accept_txt N ck p k shared msg s = bindIO ?rem (ack_and_spawn N p k shared ack msg) s"
    unfolding accept_txt_def assms(3) ack_and_spawn_def echo_task_of_def
    by (auto simp: bindIO_def liftR_def split: prod.splits sum.splits)
  then show ?thesis unfolding bindIO_def [of ?rem] remember_both [OF assms(1,2)] by simp
qed

lemma accept_txt_ok:
  assumes inv: "echo_ok N A pre s" and p: "wf_packet p" and k: "length k = 32"
    and sh: "id_shared_secret (en_lib N) (en_identity N) k = Inr shared"
    and m: "try_decrypt_txt_msg (en_lib N) (pkt_payload p) shared = Inr (Some msg)"
  shows "wp (accept_txt N ck p k shared msg) (\<lambda>_. echo_ok N A pre) (echo_ok N A pre) s"
proof (cases "txt_ack_hash (en_lib N) msg k")
  case (Inl e)
  then show ?thesis using inv by (simp add: accept_txt_def wp)
next
  case (Inr ack)
  have w: "\<forall>q \<in> ran (es_recent_paths s). wf_packet q" using inv by (simp add: echo_ok_def)
  have enc: "encodable (tm_text msg)" using try_decrypt_txt_msg_ok [OF m] by simp
  have "wp (ack_and_spawn N p k shared ack msg new) (\<lambda>_. echo_ok N A pre) (echo_ok N A pre) t" if t: "echo_ok N A pre t" for new t
    unfolding ack_and_spawn_def wp(5) by (rule wp_mono [OF send_txt_ack_ok [OF t]])
      (use p enc k sh in \<open>auto simp: wp task_ok_def echo_task_of_def intro!: spawn_echo_ok\<close>)
  from this [OF after_remember_ok [OF inv p]] show ?thesis
    unfolding wp_def accept_txt_eq [OF p w Inr] .
qed

lemma found_candidate:
  assumes "first_match (open_with C me dec payload \<circ> fst) cs = Inr (Some (c, shared, m))"
  shows "c \<in> set cs" "id_shared_secret C me (fst c) = Inr shared" "dec C payload shared = Inr (Some m)"
  using first_match_Some [OF assms] open_with_Some [of C me dec payload "fst c" shared m] by simp_all

lemma handle_txt_msg_ok:
  assumes inv: "echo_ok N A pre s" and p: "wf_packet p"
  shows "wp (handle_txt_msg N ck p) (\<lambda>_. echo_ok N A pre) (echo_ok N A pre) s"
proof -
  let ?found = "\<lambda>cs. first_match (open_with (en_lib N) (en_identity N) try_decrypt_txt_msg (pkt_payload p) \<circ> fst) cs"
  have "wp (accept_txt N ck p (fst c) shared msg) (\<lambda>_. echo_ok N A pre) (echo_ok N A pre) s"
    if "\<forall>(k, n) \<in> set cs. length k = 32" "?found cs = Inr (Some (c, shared, msg))" for cs c shared msg
    using that(1) found_candidate [OF that(2)] by (intro accept_txt_ok [OF inv p]) auto
  then have "wp (candidates N p) (\<lambda>cs. wp (bindIO (liftR (?found cs)) (\<lambda>found.
        case found of
          None \<Rightarrow> returnIO ()
        | Some ((sender_pub, _), shared, msg) \<Rightarrow> accept_txt N ck p sender_pub shared msg))
      (\<lambda>_. echo_ok N A pre) (echo_ok N A pre)) (echo_ok N A pre) s"
    using inv by (intro candidates_wp [OF inv]) (fastforce simp: wp split: sum.splits option.splits)
  then show ?thesis using inv unfolding handle_txt_msg_def
    by (simp add: wp(1,2,5) wp_if hash_count_wf [OF p])
qed

lemma answer_req_ok:
  "echo_ok N A pre s \<Longrightarrow> wp (answer_req N p shared req) (\<lambda>_. echo_ok N A pre) (echo_ok N A pre) s"
  unfolding answer_req_def wp(5) [of "liftR (hash_count p)"]
  by (cases "hash_count p") (auto simp: wp(1,2) wp_if intro!: publish_lift_ok dest: emitted_built_path)

lemma answer_path_ok:
  "echo_ok N A pre s \<Longrightarrow> wp (answer_path N ck p shared m) (\<lambda>_. echo_ok N A pre) (echo_ok N A pre) s"
  unfolding answer_path_def wp(5) [of "liftR (hash_count p)"]
  by (cases "hash_count p") (auto simp: wp(1,2) wp_if intro!: publish_lift_ok dest: emitted_built_path)

lemma handle_req_msg_ok:
  assumes inv: "echo_ok N A pre s"
  shows "wp (handle_req_msg N p) (\<lambda>_. echo_ok N A pre) (echo_ok N A pre) s"
  unfolding handle_req_msg_def wp(5) [of "candidates N p"]
  by (rule candidates_wp [OF inv]) (use inv answer_req_ok [OF inv] in \<open>auto simp: wp(1,2,5) wp_option wp_pair split: sum.splits option.splits\<close>)

lemma handle_path_msg_ok:
  assumes inv: "echo_ok N A pre s"
  shows "wp (handle_path_msg N ck p) (\<lambda>_. echo_ok N A pre) (echo_ok N A pre) s"
  unfolding handle_path_msg_def wp(5) [of "candidates N p"]
  by (rule candidates_wp [OF inv]) (use inv answer_path_ok [OF inv] in \<open>auto simp: wp(1,2,5) wp_option wp_pair split: sum.splits option.splits\<close>)

lemma handle_grp_txt_ok:
  "echo_ok N A pre s \<Longrightarrow> wp (handle_grp_txt N p) (\<lambda>_. echo_ok N A pre) (echo_ok N A pre) s"
  by (auto simp: handle_grp_txt_def report_channel_def Let_def wp split: sum.splits option.splits)

lemma echo_handle_ack_ok:
  "echo_ok N A pre s \<Longrightarrow> wp (echo_handle_ack p) (\<lambda>_. echo_ok N A pre) (echo_ok N A pre) s"
  by (cases "parse_ack_payload (pkt_payload p)") (simp_all add: echo_handle_ack_def wp wp_def [of "echo_resolve _"] echo_resolve_def)

lemma echo_dispatch_ok:
  assumes inv: "echo_ok N A pre s" and p: "wf_packet p" and A: "\<And>c. announces N p c \<Longrightarrow> c \<in> A"
  shows "wp (echo_dispatch N ck p) (\<lambda>_. echo_ok N A pre) (echo_ok N A pre) s"
  using inv echo_handle_advert_ok [OF inv _ A] echo_handle_ack_ok [OF inv] handle_path_msg_ok [OF inv]
    handle_req_msg_ok [OF inv] handle_txt_msg_ok [OF inv p] handle_grp_txt_ok [OF inv]
  by (cases "pkt_type p") (simp_all add: echo_dispatch_def wp)

section \<open>The receive loop\<close>

lemma echo_receive_total: "fst (echo_receive N x s) = Inr ()"
  using decode_packet_Inl hash_count_wf [OF decode_packet_Inr(1)]
  by (auto simp: echo_receive_def io_defs catching_def caught_by_ValueError_def split: prod.splits sum.splits)

text \<open>The contacts a frame announces.\<close>

definition frame_announces :: "echo_node \<Rightarrow> bytes \<Rightarrow> bytes \<times> ustring \<Rightarrow> bool" where
  "frame_announces N frame c \<longleftrightarrow> (\<exists>p. decode_packet frame = Inr p \<and> announces N p c)"

lemma echo_receive_dispatch:
  assumes "decode_packet frame = Inr p"
  shows "snd (echo_receive N (ck, frame) s) = snd (echo_dispatch N ck p s)"
proof -
  have ne: "frame \<noteq> []" using assms by (auto simp: decode_packet_def)
  show ?thesis using ne assms
    by (simp add: echo_receive_def io_defs catching_def hash_count_wf [OF decode_packet_Inr(1) [OF assms]]
        split: prod.splits sum.splits)
qed

lemma echo_receive_ok:
  assumes inv: "echo_ok N A pre s" and A: "\<And>c. frame_announces N frame c \<Longrightarrow> c \<in> A"
  shows "echo_ok N A pre (snd (echo_receive N (ck, frame) s))"
proof (cases "decode_packet frame")
  case (Inl e)
  then show ?thesis using inv by (auto simp: echo_receive_def io_defs)
next
  case (Inr p)
  have "c \<in> A" if "announces N p c" for c using that Inr by (intro A) (auto simp: frame_announces_def)
  from echo_dispatch_ok [OF inv decode_packet_Inr(1) [OF Inr] this]
  show ?thesis by (simp add: echo_receive_dispatch [OF Inr] wp_snd)
qed

section \<open>Echoes\<close>

lemma emitted_txt: "send_txt C k dest src body ts i a = Inr (wire, ack) \<Longrightarrow> emitted wire"
  by (auto simp: send_txt_def build_txt_msg_packet_def make_packet_def Let_def intro: emitted_packet split: prod.splits)

lemma echo_wait_ok:
  assumes "echo_ok N A pre s" "\<And>u. echo_ok N A pre u \<Longrightarrow> echo_ok N A pre (during u)"
  shows "wp (echo_wait_for_ack during ack t) (\<lambda>_. echo_ok N A pre) (echo_ok N A pre) s"
  using assms by (simp add: wp_def echo_wait_for_ack_def wait_during_def io_defs echo_wait_begin_def echo_wait_end_def)

lemma deliver_echo_ok:
  assumes inv: "echo_ok N A pre s"
    and delay: "\<And>u. echo_ok N A pre u \<Longrightarrow> echo_ok N A pre (in_delay u)" and during: "\<And>u. echo_ok N A pre u \<Longrightarrow> echo_ok N A pre (in_wait u)"
  shows "wp (deliver_echo N ck in_delay in_wait t) (\<lambda>_. echo_ok N A pre) (echo_ok N A pre) s"
proof -
  have deliver: "wp (deliver_txt_msg_with_ack C echo_publish (echo_wait_for_ack in_wait) k dest src body ts path hs da fa timeout)
      (\<lambda>_. echo_ok N A pre) (echo_ok N A pre) u" if u: "echo_ok N A pre u" for C k dest src body ts path hs da fa timeout u
  proof -
    have "wp (deliver_loop (send_txt C k dest src body ts) echo_publish (echo_wait_for_ack in_wait) timeout 0
        (attempt_plan path hs da fa) None) (\<lambda>_. echo_ok N A pre) (echo_ok N A pre) u"
      by (rule wp_deliver_loop [where good = emitted and I = "echo_ok N A pre", OF u]) (auto intro: emitted_txt echo_publish_ok echo_wait_ok during)
    then show ?thesis using u by (auto simp: wp_def deliver_txt_msg_with_ack_def Let_def split: prod.splits)
  qed
  have start: "wp (if b then modifyIO in_delay else returnIO ()) (\<lambda>_. echo_ok N A pre) (echo_ok N A pre) s" for b
    using inv delay by (simp add: wp)
  have tail: "wp (bindIO m (\<lambda>_. returnIO ())) (\<lambda>_. echo_ok N A pre) (echo_ok N A pre) u"
    if "wp m (\<lambda>_. echo_ok N A pre) (echo_ok N A pre) u" for m :: "delivery_result echo_io" and u
    using that by (simp add: wp)
  show ?thesis unfolding deliver_echo_def wp(5) [of "if _ then _ else _"] Let_def
    by (rule wp_mono [OF start]) (auto simp: wp(2,3,5) intro!: tail [unfolded wp(5)] deliver split: sum.splits)
qed

section \<open>The running server\<close>

fun event_frames :: "echo_event \<Rightarrow> bytes list" where
  "event_frames (Frame ck frame) = [frame]"
| "event_frames (Advertise ck) = []"
| "event_frames (Echo ck in_delay in_wait) = concat (map event_frames in_delay) @ concat (map event_frames in_wait)"

lemma advertise_ok: "echo_ok N A pre s \<Longrightarrow> wp (advertise N ck) (\<lambda>_. echo_ok N A pre) (echo_ok N A pre) s"
  unfolding advertise_def
  by (rule publish_lift_ok) (auto simp: echo_self_advert_def Let_def make_packet_def intro: emitted_packet)

lemma run_event_ok:
  "echo_ok N A pre s \<Longrightarrow> \<forall>frame \<in> set (event_frames e). \<forall>c. frame_announces N frame c \<longrightarrow> c \<in> A \<Longrightarrow>
    echo_ok N A pre (run_event N e s)"
  and run_events_ok:
  "echo_ok N A pre s \<Longrightarrow> \<forall>frame \<in> set (concat (map event_frames es)). \<forall>c. frame_announces N frame c \<longrightarrow> c \<in> A \<Longrightarrow>
    echo_ok N A pre (run_events N es s)"
proof (induction N e s and N es s rule: run_event_run_events.induct)
  case (1 N ck frame s)
  then show ?case by (auto intro: echo_receive_ok)
next
  case (2 N ck s)
  then show ?case using advertise_ok [of N A pre s ck] by (simp add: wp_snd)
next
  case (3 N ck in_delay in_wait s)
  show ?case
  proof (cases "es_tasks s")
    case Nil
    then show ?thesis using "3.prems"(1) by simp
  next
    case (Cons t ts)
    have "echo_ok N A pre (s\<lparr>es_tasks := ts\<rparr>)" using "3.prems"(1) Cons by (simp add: echo_ok_def all_contacts_def)
    then have "wp (deliver_echo N ck (run_events N in_delay) (run_events N in_wait) t)
        (\<lambda>_. echo_ok N A pre) (echo_ok N A pre) (s\<lparr>es_tasks := ts\<rparr>)"
      by (rule deliver_echo_ok) (rule "3.IH" [OF Cons]; use "3.prems"(2) in fastforce)+
    then show ?thesis using Cons by (simp add: wp_snd)
  qed
next
  case (5 N e es s)
  have "echo_ok N A pre (run_event N e s)" using "5.IH"(1) "5.prems" by auto
  then show ?case using "5.IH"(2) "5.prems" by auto
qed simp

section \<open>Start-up\<close>

lemma load_entry_ok:
  "echo_ok N UNIV pre s \<Longrightarrow> wp (load_entry N item) (\<lambda>_. echo_ok N UNIV pre) (echo_ok N UNIV pre) s"
  using wp_mono [OF add_contact_ok [of N UNIV pre s]]
  by (auto simp: load_entry_def wp Let_def split: json.splits sum.splits)

lemma start_ok:
  fixes pre defines "pre \<equiv> [] :: bytes list"
  assumes keys: "\<forall>k \<in> set (ec_contact_pub_keys (en_config N)). length k = 32"
  shows "echo_ok N UNIV pre (snd (start_echo N (initial_echo cache cache_fails fails)))"
proof -
  let ?P = "\<lambda>_. echo_ok N UNIV pre"
  have 0: "echo_ok N UNIV pre (initial_echo cache cache_fails fails)"
    by (simp add: echo_ok_def initial_echo_def contacts_ok_def all_contacts_def pre_def)
  have for1: "wp (forIO items (load_entry N)) ?P (echo_ok N UNIV pre) u" if "echo_ok N UNIV pre u" for items u
    using that by (rule wp_for) (rule load_entry_ok)
  have load: "wp (load_contact_cache N) ?P (echo_ok N UNIV pre) u" if "echo_ok N UNIV pre u" for u
    using that for1 [OF that]
    by (auto simp: load_contact_cache_def wp split: option.splits sum.splits)
  have add: "wp (bindIO (add_contact k n) (\<lambda>changed. if changed then save_contact_cache else returnIO ())) ?P (echo_ok N UNIV pre) u"
    if "echo_ok N UNIV pre u" "length k = 32" for k n u
    unfolding wp(5) by (rule wp_mono [OF add_contact_ok [OF that]]) (simp_all add: save_ok wp)
  have "wp (start_echo N) ?P (echo_ok N UNIV pre) (initial_echo cache cache_fails fails)"
    unfolding start_echo_def wp(5) [of "load_contact_cache N"]
    by (rule wp_mono [OF load [OF 0]]) (use keys in \<open>auto intro!: wp_for add\<close>)
  then show ?thesis by (simp add: wp_snd)
qed

end
