(* ===== verification/EchoServer.thy ===== *)
theory EchoServer
  imports EchoInvariant RoomServer
begin

unbundle bit_operations_syntax

text \<open>
  What the echo server does with a message, its copies, an echo and a discovery, the contact cache,
  and its properties.
\<close>

section \<open>What one message does\<close>

text \<open>The contact, secret and message a TXT_MSG packet is matched to.\<close>

definition match_txt :: "echo_node \<Rightarrow> echo_server \<Rightarrow> packet \<Rightarrow> bytes \<Rightarrow> bytes \<Rightarrow> txt_msg \<Rightarrow> bool" where
  "match_txt N s p k shared msg \<longleftrightarrow>
     (\<exists>h n. addressed (en_identity N) p = Inr (Some h) \<and>
        first_match (open_with (en_lib N) (en_identity N) try_decrypt_txt_msg (pkt_payload p) \<circ> fst) (contacts_at s h)
          = Inr (Some ((k, n), shared, msg)))"

lemma match_txt_same:
  assumes "match_txt N s p k shared msg" "pkt_payload p2 = pkt_payload p" "es_contacts s2 = es_contacts s"
  shows "match_txt N s2 p2 k shared msg"
proof -
  have "addressed me p2 = addressed me p" "contacts_at s2 h = contacts_at s h" for me h
    by (simp_all only: addressed_def contacts_at_def assms(2,3))
  then show ?thesis using assms(1) by (simp only: match_txt_def assms(2))
qed

lemma match_txt_open:
  assumes "match_txt N s p k shared msg"
  shows "id_shared_secret (en_lib N) (en_identity N) k = Inr shared"
    "try_decrypt_txt_msg (en_lib N) (pkt_payload p) shared = Inr (Some msg)"
proof -
  obtain h n where "first_match (open_with (en_lib N) (en_identity N) try_decrypt_txt_msg (pkt_payload p) \<circ> fst) (contacts_at s h)
    = Inr (Some ((k, n), shared, msg))" using assms by (auto simp: match_txt_def)
  from found_candidate(2,3) [OF this] show "id_shared_secret (en_lib N) (en_identity N) k = Inr shared"
    "try_decrypt_txt_msg (en_lib N) (pkt_payload p) shared = Inr (Some msg)" by simp_all
qed

lemma match_txt_ack: "match_txt N s p k shared msg \<Longrightarrow> \<exists>ack. txt_ack_hash (en_lib N) msg k = Inr ack"
  using try_decrypt_txt_msg_ok [OF match_txt_open(2)] by (simp add: txt_ack_hash_def ack_hash_for_total)

lemma receive_txt:
  assumes inv: "echo_ok N A pre s" and p: "decode_packet frame = Inr p" "pkt_type p = TXT_MSG"
    and m: "match_txt N s p k shared msg" and ack: "txt_ack_hash (en_lib N) msg k = Inr ack"
  shows "snd (echo_receive N (ck, frame) s) = snd (ack_and_spawn N p k shared ack msg
      (expire (ck_monotonic ck - ec_recent_message_ttl_s (en_config N)) (es_recent_messages s) (tm_src_hash msg, ack) = None)
      (after_remember (en_config N) (ck_monotonic ck) (tm_src_hash msg, ack) p s))"
proof -
  have wf: "wf_packet p" using decode_packet_Inr(1) [OF p(1)] .
  have paths: "\<forall>q \<in> ran (es_recent_paths s). wf_packet q" using inv by (simp add: echo_ok_def)
  obtain h n where h: "addressed (en_identity N) p = Inr (Some h)"
    "first_match (open_with (en_lib N) (en_identity N) try_decrypt_txt_msg (pkt_payload p) \<circ> fst) (contacts_at s h)
      = Inr (Some ((k, n), shared, msg))" using m by (auto simp: match_txt_def)
  have "pkt_payload p \<noteq> []" using h(1) by (auto simp: addressed_def)
  then have "handle_txt_msg N ck p s = accept_txt N ck p k shared msg s"
    using h by (simp add: handle_txt_msg_def candidates_def io_defs hash_count_wf [OF wf])
  then show ?thesis using p(2)
    by (simp add: echo_receive_dispatch [OF p(1)] echo_dispatch_def accept_txt_eq [OF wf paths ack])
qed

text \<open>Sending the ACK touches only the record of the broker.\<close>

definition only_sent :: "echo_server \<Rightarrow> echo_server \<Rightarrow> bool" where
  "only_sent u v \<longleftrightarrow> (\<exists>n l. v = u\<lparr>es_publishes := n, es_sent := l\<rparr>)"

lemma only_sent_refl: "only_sent u u"
  unfolding only_sent_def by (intro exI [of _ "es_publishes u"] exI [of _ "es_sent u"]) simp

lemma publish_only_sent: "wp (echo_publish w) (\<lambda>_. only_sent u) (only_sent u) u"
proof -
  have "only_sent u (u\<lparr>es_publishes := n\<rparr>)" for n
    unfolding only_sent_def by (intro exI [of _ n] exI [of _ "es_sent u"]) simp
  then show ?thesis by (auto simp: wp_def echo_publish_def only_sent_def)
qed

lemma send_txt_ack_only_sent: "wp (send_txt_ack N sh d a q) (\<lambda>_. only_sent u) (only_sent u) u"
proof (cases "is_flood q")
  case True
  have "wp (bindIO (echo_publish w) (\<lambda>_. bindIO (liftR (hash_count q)) (\<lambda>_. returnIO ()))) (\<lambda>_. only_sent u) (only_sent u) u" for w
    unfolding wp(5) [of "echo_publish w"] by (rule wp_mono [OF publish_only_sent]) (simp_all add: wp split: sum.splits)
  then show ?thesis unfolding send_txt_ack_def if_P [OF True] wp(5) [of "liftR _"] wp(2)
    using only_sent_refl by (auto split: sum.splits)
next
  case False
  show ?thesis unfolding send_txt_ack_def if_not_P [OF False] wp(5) [of "liftR _"] wp(2)
    using only_sent_refl publish_only_sent by (auto split: sum.splits)
qed

lemma ack_and_spawn_frame:
  obtains v where "only_sent u v" "snd (ack_and_spawn N p k sh a m new u) = v \<or>
    new \<and> snd (ack_and_spawn N p k sh a m new u) = v\<lparr>es_tasks := es_tasks u @ [echo_task_of k sh a p m]\<rparr>"
proof -
  obtain r v where v: "send_txt_ack N sh (tm_src_hash m) a p u = (r, v)" by (cases "send_txt_ack N sh (tm_src_hash m) a p u")
  have o: "only_sent u v" using send_txt_ack_only_sent [of N sh "tm_src_hash m" a p u] by (simp add: wp_snd v)
  then have "es_tasks v = es_tasks u" by (auto simp: only_sent_def)
  then show thesis using v o by (intro that [of v]) (cases r; simp add: ack_and_spawn_def io_defs)+
qed

text \<open>With a broker that takes it, the reply is one packet that confirms the message.\<close>

lemma ack_and_spawn_sent:
  assumes C: "crypto_laws (en_lib N)" "x25519_law (en_lib N)" and pub: "id_pub_key (en_identity N) \<noteq> []"
    and p: "wf_packet p" and sh: "id_shared_secret (en_lib N) (en_identity N) k = Inr shared"
    and ack: "txt_ack_hash (en_lib N) msg k = Inr ack"
  obtains w q where "decode_packet w = Inr q" "confirms (en_lib N) shared p ack q"
    "\<forall>u new. \<not> es_publish_fails u (es_publishes u) \<longrightarrow>
      snd (ack_and_spawn N p k shared ack msg new u) =
        u\<lparr>es_publishes := Suc (es_publishes u), es_sent := es_sent u @ [w],
          es_tasks := (if new then es_tasks u @ [echo_task_of k shared ack p msg] else es_tasks u)\<rparr>"
proof -
  have k16: "16 \<le> length shared" using shared_secret_length [OF C(2)] sh by (fastforce simp: id_shared_secret_def)
  obtain w q where w: "(if is_flood p
      then bindR (build_path_packet (en_lib N) [] shared (tm_src_hash msg) (id_pub_key (en_identity N)) (pkt_path p)
                    (pkt_hash_size p) (payload_val ACK) (Some ack) FLOOD [] 1) encode_packet
      else bindR (build_ack_packet ack FLOOD) encode_packet) = Inr w"
    and q: "decode_packet w = Inr q" "confirms (en_lib N) shared p ack q"
    using ack_build_ok [OF C(1) k16 txt_ack_length [OF C(1) ack] p pub] by blast
  have send: "send_txt_ack N shared (tm_src_hash msg) ack p u =
      (Inr (), u\<lparr>es_publishes := Suc (es_publishes u), es_sent := es_sent u @ [w]\<rparr>)"
    if "\<not> es_publish_fails u (es_publishes u)" for u
  proof (cases "is_flood p")
    case True
    note b = w [unfolded if_P [OF True]]
    show ?thesis unfolding send_txt_ack_def if_P [OF True] b using that
      by (simp add: io_defs echo_publish_def hash_count_wf [OF p])
  next
    case False
    note b = w [unfolded if_not_P [OF False]]
    show ?thesis unfolding send_txt_ack_def if_not_P [OF False] b using that
      by (simp add: io_defs echo_publish_def)
  qed
  show thesis by (rule that [OF q]) (simp add: ack_and_spawn_def bindIO_def send returnIO_def modifyIO_def)
qed

text \<open>What a matched frame leaves: the tables of \<open>after_remember\<close>, and an echo only of a new message.\<close>

lemma received_txt:
  fixes ck :: clock
  assumes inv: "echo_ok N A pre s" and p: "decode_packet frame = Inr p" "pkt_type p = TXT_MSG"
    and m: "match_txt N s p k shared msg" and ack: "txt_ack_hash (en_lib N) msg k = Inr ack"
  defines "u \<equiv> after_remember (en_config N) (ck_monotonic ck) (tm_src_hash msg, ack) p s"
    and "s1 \<equiv> snd (echo_receive N (ck, frame) s)"
  shows "es_contacts s1 = es_contacts s" "es_recent_messages s1 = es_recent_messages u" "es_recent_paths s1 = es_recent_paths u"
    "expire (ck_monotonic ck - ec_recent_message_ttl_s (en_config N)) (es_recent_messages s) (tm_src_hash msg, ack) \<noteq> None \<Longrightarrow>
      es_tasks s1 = es_tasks s"
proof -
  let ?new = "expire (ck_monotonic ck - ec_recent_message_ttl_s (en_config N)) (es_recent_messages s) (tm_src_hash msg, ack) = None"
  have s1: "s1 = snd (ack_and_spawn N p k shared ack msg ?new u)"
    unfolding s1_def u_def by (rule receive_txt [OF inv p m ack])
  obtain v where v: "only_sent u v" "s1 = v \<or> ?new \<and> s1 = v\<lparr>es_tasks := es_tasks u @ [echo_task_of k shared ack p msg]\<rparr>"
    unfolding s1 by (rule ack_and_spawn_frame)
  have u: "es_contacts u = es_contacts s" "es_tasks u = es_tasks s" by (simp_all add: u_def after_remember_def Let_def)
  show "es_contacts s1 = es_contacts s" "es_recent_messages s1 = es_recent_messages u" "es_recent_paths s1 = es_recent_paths u"
    using v u by (auto simp: only_sent_def)
  show "\<not> ?new \<Longrightarrow> es_tasks s1 = es_tasks s" using v u by (auto simp: only_sent_def)
qed

text \<open>A frame that carries a given TXT_MSG payload.\<close>

definition carries :: "bytes \<Rightarrow> bytes \<Rightarrow> bool" where
  "carries payload frame \<longleftrightarrow>
     (\<exists>p. decode_packet frame = Inr p \<and> pkt_type p = TXT_MSG \<and> pkt_payload p = payload)"

definition receive_all :: "echo_node \<Rightarrow> (clock \<times> bytes) list \<Rightarrow> echo_server \<Rightarrow> echo_server" where
  "receive_all N xs s = fold (\<lambda>x s. snd (echo_receive N x s)) xs s"

lemma receive_all_simps [simp]:
  "receive_all N [] s = s" "receive_all N (x # xs) s = receive_all N xs (snd (echo_receive N x s))"
  by (simp_all add: receive_all_def)

lemma receive_txt_ok: "echo_ok N UNIV pre s \<Longrightarrow> echo_ok N UNIV pre (snd (echo_receive N x s))"
  by (cases x) (simp add: echo_receive_ok)

lemma later_copies:
  assumes "echo_ok N UNIV pre s" "match_txt N s p0 k shared msg" "txt_ack_hash (en_lib N) msg k = Inr ack"
    and "es_recent_messages s (tm_src_hash msg, ack) = Some t0" "es_recent_paths s (tm_src_hash msg, ack) = Some b"
    and "\<forall>x \<in> set xs. carries (pkt_payload p0) (snd x) \<and> ck_monotonic (fst x) - ec_recent_message_ttl_s (en_config N) \<le> t0"
  shows "\<exists>best. es_recent_paths (receive_all N xs s) (tm_src_hash msg, ack) = Some best \<and> hops b \<le> hops best \<and>
    (best = b \<or> (\<exists>x \<in> set xs. decode_packet (snd x) = Inr best)) \<and>
    (\<forall>x \<in> set xs. \<forall>p. decode_packet (snd x) = Inr p \<longrightarrow> hops p \<le> hops best) \<and>
    es_tasks (receive_all N xs s) = es_tasks s"
  using assms
proof (induction xs arbitrary: s b)
  case (Cons x xs)
  let ?key = "(tm_src_hash msg, ack)"
  obtain ck frame where x: "x = (ck, frame)" by (cases x)
  obtain p where p: "decode_packet frame = Inr p" "pkt_type p = TXT_MSG" "pkt_payload p = pkt_payload p0"
    and ttl: "ck_monotonic ck - ec_recent_message_ttl_s (en_config N) \<le> t0"
    using Cons.prems(6) x by (auto simp: carries_def)
  have m: "match_txt N s p k shared msg" by (rule match_txt_same [OF Cons.prems(2) p(3) refl])
  let ?s1 = "snd (echo_receive N x s)"
  note r = received_txt [OF Cons.prems(1) p(1,2) m Cons.prems(3), of ck, folded x]
  have keep: "expire (ck_monotonic ck - ec_recent_message_ttl_s (en_config N)) (es_recent_messages s) ?key = Some t0"
    using Cons.prems(4) ttl by (simp add: expire_def)
  let ?b1 = "if hops p > hops b then p else b"
  have 1: "es_recent_messages ?s1 ?key = Some t0" "es_recent_paths ?s1 ?key = Some ?b1" "es_tasks ?s1 = es_tasks s"
    using r keep Cons.prems(5) by (simp_all add: after_remember_def longer_def Let_def)
  have m1: "match_txt N ?s1 p0 k shared msg" by (rule match_txt_same [OF Cons.prems(2) refl r(1)])
  obtain best where best: "es_recent_paths (receive_all N xs ?s1) ?key = Some best" "hops ?b1 \<le> hops best"
    "best = ?b1 \<or> (\<exists>x \<in> set xs. decode_packet (snd x) = Inr best)"
    "\<forall>x \<in> set xs. \<forall>p. decode_packet (snd x) = Inr p \<longrightarrow> hops p \<le> hops best"
    "es_tasks (receive_all N xs ?s1) = es_tasks ?s1"
    using Cons.IH [OF receive_txt_ok [OF Cons.prems(1)] m1 Cons.prems(3) 1(1,2)] Cons.prems(6) by auto
  have "hops b \<le> hops best" "hops p \<le> hops best" using best(2) by (auto split: if_splits)
  moreover have "best = b \<or> (\<exists>y \<in> set (x # xs). decode_packet (snd y) = Inr best)"
    using best(3) p(1) x by (auto split: if_splits)
  ultimately show ?case using best(1,4,5) 1(3) p(1) x by auto
qed simp

section \<open>Waiting for an acknowledgement\<close>

interpretation echo_waits: ack_waits es_ack_waiters es_resolved es_next_future echo_wait_begin echo_wait_end echo_resolve
  by unfold_locales (auto simp: echo_wait_begin_def echo_wait_end_def echo_resolve_def)

lemma receive_echo_ack:
  assumes "decode_packet frame = Inr p" "pkt_type p = ACK" "parse_ack_payload (pkt_payload p) = Some ack"
  shows "snd (echo_receive N (ck, frame) s) = snd (echo_resolve ack s)"
  using assms(2,3) by (simp add: echo_receive_dispatch [OF assms(1)] echo_dispatch_def echo_handle_ack_def)

text \<open>Handling a returned path touches no waiter.\<close>

definition same_waits :: "echo_server \<Rightarrow> echo_server \<Rightarrow> bool" where
  "same_waits u v \<longleftrightarrow> es_ack_waiters v = es_ack_waiters u \<and> es_resolved v = es_resolved u"

lemma publish_same_waits: "wp (echo_publish w) (\<lambda>_. same_waits u) (same_waits u) u"
  by (simp add: wp_def echo_publish_def same_waits_def)

lemma receive_path_same_waits:
  assumes "decode_packet frame = Inr p" "pkt_type p = PATH"
  shows "same_waits s (snd (echo_receive N (ck, frame) s))"
proof -
  have refl: "same_waits s s" by (simp add: same_waits_def)
  have answer: "wp (answer_path N ck p shared m) (\<lambda>_. same_waits s) (same_waits s) s" for shared m
    unfolding answer_path_def wp using refl publish_same_waits [of _ s] by (simp split: sum.splits)
  have "wp (handle_path_msg N ck p) (\<lambda>_. same_waits s) (same_waits s) s"
    unfolding handle_path_msg_def candidates_def wp using refl answer by (auto split: sum.splits option.splits)
  then show ?thesis using assms(2) by (simp add: echo_receive_dispatch [OF assms(1)] echo_dispatch_def wp_snd)
qed

section \<open>Echoing\<close>

lemma deliver_first:
  fixes pre defines "pre \<equiv> [] :: bytes list"
  assumes inv: "echo_ok N A pre0 u" and during: "\<And>pre v. echo_ok N A pre v \<Longrightarrow> echo_ok N A pre (in_wait v)"
    and attempts: "0 \<le> da" "0 \<le> fa" "path \<noteq> [] \<Longrightarrow> path_ok hs path"
    and plan: "attempt_plan path hs da fa = a # rest" and send: "send_txt C k dest src body ts 0 a = Inr (w, ack)"
    and pub: "\<not> es_publish_fails u (es_publishes u)"
  shows "\<exists>l. es_sent (snd (deliver_txt_msg_with_ack C echo_publish (echo_wait_for_ack in_wait) k dest src body ts path hs da fa timeout u))
    = es_sent u @ w # l"
proof -
  let ?u1 = "u\<lparr>es_publishes := Suc (es_publishes u), es_sent := es_sent u @ [w]\<rparr>"
  let ?I = "echo_ok N A (es_sent u @ [w])"
  let ?next = "\<lambda>acked. if acked then returnIO \<lparr> dr_route = fst a, dr_attempt = 0, dr_ack_hash = ack, dr_acked = acked \<rparr>
      else deliver_loop (send_txt C k dest src body ts) echo_publish (echo_wait_for_ack in_wait) timeout (0 + 1) rest
             (Some \<lparr> dr_route = fst a, dr_attempt = 0, dr_ack_hash = ack, dr_acked = acked \<rparr>)"
  have p: "echo_publish w u = (Inr (), ?u1)" using pub by (simp add: echo_publish_def)
  have 1: "?I ?u1" using echo_publish_ok [OF inv emitted_txt [OF send]] by (auto simp: wp_def p dest: echo_ok_here)
  have loop: "wp (deliver_loop (send_txt C k dest src body ts) echo_publish (echo_wait_for_ack in_wait) timeout i plan r) (\<lambda>_. ?I) ?I v"
    if "?I v" for i plan r v
    by (rule wp_deliver_loop [where good = emitted and I = ?I, OF that])
      (auto intro: emitted_txt echo_publish_ok echo_wait_ok during)
  have "wp (bindIO (echo_wait_for_ack in_wait ack timeout) ?next) (\<lambda>_. ?I) ?I ?u1"
    unfolding wp(5) by (rule wp_mono [OF echo_wait_ok [OF 1 during]]) (simp_all add: wp(1) loop)
  then have "?I (snd (bindIO (echo_wait_for_ack in_wait ack timeout) ?next ?u1))" by (simp add: wp_snd)
  moreover have "deliver_txt_msg_with_ack C echo_publish (echo_wait_for_ack in_wait) k dest src body ts path hs da fa timeout u =
      bindIO (echo_wait_for_ack in_wait ack timeout) ?next ?u1"
  proof -
    have "deliver_txt_msg_with_ack C echo_publish (echo_wait_for_ack in_wait) k dest src body ts path hs da fa timeout u =
        deliver_loop (send_txt C k dest src body ts) echo_publish (echo_wait_for_ack in_wait) timeout 0 (a # rest) None u"
      using deliver_txt_msg_checks [OF attempts] plan by simp
    then show ?thesis unfolding deliver_loop_Cons [where send = "send_txt C k dest src body ts", OF send] bindIO_def [of "echo_publish w"] p
      by simp
  qed
  ultimately show ?thesis by (auto simp: echo_ok_def)
qed

lemma sent_txt_opens:
  assumes C: "crypto_laws C" "16 \<le> length k" and enc: "encodable body" "0 \<notin> set body"
    and a: "r \<in> {DIRECT, FLOOD}" "path_ok hs path" "length path \<le> 64"
    and send: "send_txt C k dest src body ts i (r, path, hs) = Inr (w, ack)"
  obtains q m where "decode_packet w = Inr q" "pkt_type q = TXT_MSG" "pkt_route q = r" "pkt_path q = path"
    "try_decrypt_txt_msg C (pkt_payload q) k = Inr (Some m)" "tm_text m = body"
proof -
  obtain dh sh payload where b: "build_txt_msg_payload C k dh sh (ts + i div 4) (i AND 3) body = Inr payload"
    and w: "encode_packet (make_packet r TXT_MSG path payload hs) = Inr w"
    using send by (auto simp: send_txt_def build_txt_msg_packet_def Let_def)
  obtain tx where tx: "utf8_encode body = Inr tx" using utf8_encode_Inr [OF enc(1)] by blast
  have t: "utf8_decode (before_nul tx) = body"
    using utf8_encode_no_nul [OF tx enc(2)] utf8_decode_encode [OF tx] by (simp add: before_nul_id)
  have "wf_packet (make_packet r TXT_MSG path payload hs)" using a by (intro wf_made_packet) simp_all
  note d = pkt_codec.dec_enc [OF this w]
  obtain m where "try_decrypt_txt_msg C payload k = Inr (Some m)" "tm_text m = body"
    using try_decrypt_built_txt_msg [OF C b tx] t by simp
  then show thesis by (intro that [OF d]) (simp_all add: make_packet_def)
qed

text \<open>The path description is printable ASCII.\<close>

definition printable :: "ustring \<Rightarrow> bool" where
  "printable s \<longleftrightarrow> (\<forall>c \<in> set s. 32 \<le> c \<and> c < 127)"

lemma printable_append [simp]: "printable []" "printable (s @ t) \<longleftrightarrow> printable s \<and> printable t"
  by (auto simp: printable_def)

lemma printable_hex: "printable (bytes_hex b)"
proof -
  have "printable [hex_digit (unat x div 16), hex_digit (unat x mod 16)]" for x :: byte
  proof -
    have "unat x < 2 ^ LENGTH(8)" by (rule unsigned_less)
    then show ?thesis by (auto simp: printable_def hex_digit_def)
  qed
  then show ?thesis by (induction b) (auto simp: bytes_hex_def printable_def)
qed

lemma printable_int: "printable (int_str i)"
  using nat_str_digits by (fastforce simp: printable_def int_str_def ustr_def)

lemma printable_join: "printable sep \<Longrightarrow> \<forall>s \<in> set ss. printable s \<Longrightarrow> printable (str_join sep ss)"
  by (induction sep ss rule: str_join.induct) simp_all

lemma format_path_info_printable:
  assumes "wf_packet p"
  obtains info where "format_path_info p = Inr info" "printable info"
proof -
  have lit: "printable (ustr ''none'')" "printable (ustr ''>'')" "printable (ustr ''route='')" "printable (ustr '' hash_size='')"
    "printable (ustr '' hops='')" "printable (ustr '' path='')" by (simp_all add: printable_def ustr_def)
  have r: "printable (route_name (pkt_route p))"
    by (cases "pkt_route p") (simp_all add: printable_int, simp_all add: printable_def ustr_def)
  show thesis
    by (rule that) (auto simp: format_path_info_def hash_count_wf [OF assms] Let_def lit r printable_int
        intro!: printable_join printable_hex)
qed

lemma printable_text: "printable s \<Longrightarrow> encodable s \<and> 0 \<notin> set s"
  by (auto simp: printable_def encodable_def surrogate_def list_all_iff)

lemma new_message_effect:
  assumes "crypto_laws (en_lib N)" "x25519_law (en_lib N)" "id_pub_key (en_identity N) \<noteq> []"
    and "echo_ok N A pre s" "decode_packet frame = Inr p" "pkt_type p = TXT_MSG" "match_txt N s p k shared msg"
    and "txt_ack_hash (en_lib N) msg k = Inr ack"
    and "expire (ck_monotonic ck - ec_recent_message_ttl_s (en_config N)) (es_recent_messages s) (tm_src_hash msg, ack) = None"
    and "\<not> es_publish_fails s (es_publishes s)"
  shows "\<exists>w q. decode_packet w = Inr q \<and> confirms (en_lib N) shared p ack q \<and>
    es_sent (snd (echo_receive N (ck, frame) s)) = es_sent s @ [w] \<and>
    es_tasks (snd (echo_receive N (ck, frame) s)) = es_tasks s @ [echo_task_of k shared ack p msg]"
proof -
  let ?u = "after_remember (en_config N) (ck_monotonic ck) (tm_src_hash msg, ack) p s"
  obtain w q where w: "decode_packet w = Inr q" "confirms (en_lib N) shared p ack q"
    and sent: "\<forall>u new. \<not> es_publish_fails u (es_publishes u) \<longrightarrow>
      snd (ack_and_spawn N p k shared ack msg new u) =
        u\<lparr>es_publishes := Suc (es_publishes u), es_sent := es_sent u @ [w],
          es_tasks := (if new then es_tasks u @ [echo_task_of k shared ack p msg] else es_tasks u)\<rparr>"
    by (rule ack_and_spawn_sent [OF assms(1-3) decode_packet_Inr(1) [OF assms(5)] match_txt_open(1) [OF assms(7)] assms(8)])
  have "\<not> es_publish_fails ?u (es_publishes ?u)" "es_sent ?u = es_sent s" "es_tasks ?u = es_tasks s"
    using assms(10) by (simp_all add: after_remember_def Let_def)
  then show ?thesis using w receive_txt [OF assms(4-8), of ck] assms(9) by (auto simp: sent)
qed

text \<open>An advert that is not ours, valid and not stale, enters its key and name.\<close>

lemma handled_advert:
  assumes p: "decode_packet frame = Inr p" "pkt_type p = ADVERT" and a: "decode_advert (pkt_payload p) = Inr a"
    and ok: "av_pub_key a \<noteq> id_pub_key (en_identity N)" "signature_valid (en_lib N) a = Inr True"
    and fresh: "pred_option (\<lambda>ts. ts \<le> av_timestamp a) (es_advert_ts s (av_pub_key a))"
    and h: "path_hash (av_pub_key a) = Inr h"
  shows "map_of (contacts_at (snd (echo_receive N (ck, frame) s)) h) (av_pub_key a) = Some (ad_name (av_app_data a))"
proof -
  let ?k = "av_pub_key a" and ?n = "ad_name (av_app_data a)"
  let ?t = "s\<lparr>es_advert_ts := (es_advert_ts s)(?k \<mapsto> av_timestamp a)\<rparr>"
  have stale: "\<not> (case es_advert_ts s ?k of None \<Rightarrow> False | Some last_ts \<Rightarrow> av_timestamp a < last_ts)"
    using fresh by (auto split: option.splits)
  have "snd (echo_receive N (ck, frame) s) =
      snd ((if map_of (contacts_at ?t h) ?k \<noteq> Some ?n then save_contact_cache else returnIO ()) (put_contact h ?k ?n ?t))"
    unfolding echo_receive_dispatch [OF p(1)] using p(2) ok stale
    by (simp add: echo_dispatch_def echo_handle_advert_def a bindIO_def liftR_def getIO_def modifyIO_def add_contact_eq [OF h])
  moreover have "es_contacts (snd ((if b then save_contact_cache else returnIO ()) u)) = es_contacts u" for b u
    by (simp add: save_contact_cache_def io_defs)
  ultimately have "contacts_at (snd (echo_receive N (ck, frame) s)) h = contacts_at (put_contact h ?k ?n ?t) h"
    by (simp add: contacts_at_def)
  then show ?thesis by (simp add: contacts_at_update update_conv)
qed

lemma self_advert_received:
  assumes "crypto_laws (en_lib A)" "en_lib B = en_lib A" "length (id_seed (en_identity A)) = 32"
    and "id_pub_key (en_identity A) = lib_ed25519_pub (en_lib A) (id_seed (en_identity A))"
    and "encodable (ec_display_name (en_config A))" "0 \<notin> set (ec_display_name (en_config A))"
    and "0 \<le> ck_time ck" "ck_time ck < 2 ^ 32"
    and "id_pub_key (en_identity B) \<noteq> id_pub_key (en_identity A)"
    and "pred_option (\<lambda>ts. ts \<le> ck_time ck) (es_advert_ts s (id_pub_key (en_identity A)))"
  shows "\<exists>frame h. echo_self_advert A ck = Inr frame \<and> path_hash (id_pub_key (en_identity A)) = Inr h \<and>
    map_of (contacts_at (snd (echo_receive B (ck2, frame) s)) h) (id_pub_key (en_identity A)) = Some (ec_display_name (en_config A))"
proof -
  let ?d = "\<lparr> ad_type = advert_type_val CHAT, ad_name = ec_display_name (en_config A), ad_lat = None, ad_lon = None,
      ad_feat1 = None, ad_feat2 = None \<rparr>" and ?pub = "id_pub_key (en_identity A)"
  have d: "valid_advert_data ?d" using assms(5,6) by (simp add: valid_advert_data_def)
  obtain payload a where a: "encode_advert (en_lib A) (id_seed (en_identity A)) ?pub (ck_time ck) ?d = Inr payload"
    "decode_advert payload = Inr a" "av_pub_key a = ?pub" "av_timestamp a = ck_time ck" "av_app_data a = as_received ?d"
    "signature_valid (en_lib A) a = Inr True"
    using encoded_advert_opens [OF assms(1,3,7,8) d] unfolding assms(4) by blast
  let ?p = "make_packet (if ec_advert_flood (en_config A) then FLOOD else DIRECT) ADVERT [] payload 1"
  obtain frame where f: "encode_packet ?p = Inr frame" "decode_packet frame = Inr ?p"
    by (rule decode_made [of "if ec_advert_flood (en_config A) then FLOOD else DIRECT" ADVERT 1 "[]" payload]) auto
  have "?pub \<noteq> []" using assms(1,3,4) by (auto simp: crypto_laws_def)
  then obtain h where h: "path_hash ?pub = Inr h" using path_hash_total by blast
  have "echo_self_advert A ck = Inr frame" using a(1) f(1) by (simp add: echo_self_advert_def Let_def)
  moreover have "ad_name (av_app_data a) = ec_display_name (en_config A)" by (simp add: a(5) as_received_def)
  ultimately show ?thesis
    using handled_advert [OF f(2), of a B s h ck2] a h assms(2,9,10) by (auto simp: make_packet_def)
qed

section \<open>A small echo server\<close>

definition demo_node :: echo_node where
  "demo_node = \<lparr> en_lib = demo_lib,
     en_config = \<lparr> ec_display_name = [], ec_advert_flood = False, ec_echo_prefix = [62], ec_ack_reply_delay_s = 2,
       ec_recent_message_ttl_s = 300, ec_reply_ack_timeout_s = 6, ec_reply_direct_attempts = 2,
       ec_reply_flood_attempts = 2, ec_contact_pub_keys = [], ec_monitor_channel_keys = [], ec_monitor_name_filter = [] \<rparr>,
     en_identity = rm_identity demo_room, en_lower = (\<lambda>s. s), en_container_str = (\<lambda>_. []) \<rparr>"

definition demo_echo :: echo_server where
  "demo_echo = (initial_echo None False (\<lambda>_. False))\<lparr>es_contacts := [(5, [(demo_key, [])])]\<rparr>"

lemma demo_echo_ok: "echo_ok demo_node UNIV [] demo_echo"
  using demo_secrets(2,3)
  by (simp add: echo_ok_def demo_echo_def initial_echo_def contacts_ok_def all_contacts_def)

lemma demo_node_sel [simp]:
  "en_lib demo_node = demo_lib" "en_identity demo_node = rm_identity demo_room"
  "ec_recent_message_ttl_s (en_config demo_node) = 300"
  by (simp_all add: demo_node_def)

lemma demo_echo_sel [simp]:
  "es_publish_fails demo_echo = (\<lambda>_. False)" "es_recent_messages demo_echo = (\<lambda>_. None)"
  "es_recent_paths demo_echo = (\<lambda>_. None)" "es_sent demo_echo = []" "es_tasks demo_echo = []"
  "es_next_future demo_echo = 0" "es_resolved demo_echo = []" "es_ack_waiters demo_echo = (\<lambda>_. [])"
  "contacts_at demo_echo 5 = [(demo_key, [])]"
  by (simp_all add: demo_echo_def initial_echo_def contacts_at_def)

lemma demo_at_five:
  assumes "ses \<in> set (sessions_at demo_room h demo_server)"
  shows "h = 5"
  using assms by (auto simp: sessions_at_def List.map_filter_def demo_room_def demo_server_def split: if_splits)

lemma demo_txt_frame:
  obtains frame p msg ack where "decode_packet frame = Inr p" "pkt_type p = TXT_MSG"
    "match_txt demo_node demo_echo p demo_key demo_secret msg" "txt_ack_hash demo_lib msg demo_key = Inr ack"
proof -
  obtain frame p msg ack where f: "decode_packet frame = Inr p" "pkt_type p = TXT_MSG"
    "match_post demo_room demo_server p demo_session demo_secret msg" "txt_ack_hash demo_lib msg (ss_pub_key demo_session) = Inr ack"
    by (rule demo_post_frame)
  have key: "ss_pub_key demo_session = demo_key" by (simp add: demo_session_def)
  obtain h where h: "addressed (rm_identity demo_room) p = Inr (Some h)" "demo_session \<in> set (sessions_at demo_room h demo_server)"
    using f(3) first_match_Some by (fastforce simp: match_post_def)
  then have "addressed (rm_identity demo_room) p = Inr (Some 5)" using demo_at_five by simp
  then have "match_txt demo_node demo_echo p demo_key demo_secret msg"
    using match_post_open [OF f(3)] key by (simp add: match_txt_def open_with_def)
  then show thesis using that f key by simp
qed

definition demo_peer :: echo_node where
  "demo_peer = demo_node\<lparr>en_identity := \<lparr> id_seed = 9 # replicate 31 9, id_pub_key = 9 # replicate 31 9, id_name = [] \<rparr>,
     en_config := (en_config demo_node)\<lparr>ec_display_name := [104]\<rparr>\<rparr>"

lemma demo_peer_sel [simp]:
  "en_lib demo_peer = demo_lib" "id_seed (en_identity demo_peer) = 9 # replicate 31 9"
  "id_pub_key (en_identity demo_peer) = 9 # replicate 31 9" "ec_display_name (en_config demo_peer) = [104]"
  by (simp_all add: demo_peer_def)

lemma demo_peer_facts:
  "id_pub_key (en_identity demo_peer) = lib_ed25519_pub (en_lib demo_peer) (id_seed (en_identity demo_peer))"
  "id_pub_key (en_identity demo_node) \<noteq> id_pub_key (en_identity demo_peer)"
  "es_advert_ts (initial_echo c b f) = (\<lambda>_. None)" "path_hash (9 # replicate 31 9) = Inr 9"
  "start_echo demo_node (initial_echo None False (\<lambda>_. False)) = (Inr (), initial_echo None False (\<lambda>_. False))"
  by (simp_all add: demo_lib_def demo_room_def initial_echo_def path_hash_def demo_node_def start_echo_def
      load_contact_cache_def io_defs)

section \<open>Properties\<close>

text \<open>
  Property (C13): no frame stops the echo server. Start it on any readable contact cache, with configured keys of
  32 bytes, and let frames arrive, adverts fall due and echoes be delivered in any nesting: every frame
  is handled without an exception leaving the loop, the contacts stay grouped by the path hash of their
  distinct 32-byte keys, a path is remembered only for a message that is remembered (so the tables stay
  bounded by the messages of the time to live), and everything published is the image of an ACK, PATH,
  TXT_MSG or ADVERT packet.
\<close>

theorem echo_server_survives:
  assumes "start_echo N (initial_echo cache cache_fails fails) = (Inr (), s0)"
    and "\<forall>k \<in> set (ec_contact_pub_keys (en_config N)). length k = 32"
  shows "fst (echo_receive N x (run_events N events s0)) = Inr () \<and>
    contacts_ok (es_contacts (run_events N events s0)) \<and>
    dom (es_recent_paths (run_events N events s0)) \<subseteq> dom (es_recent_messages (run_events N events s0)) \<and>
    (\<forall>w \<in> set (es_sent (run_events N events s0)). emitted w)"
proof -
  have "echo_ok N UNIV [] s0" using start_ok [OF assms(2), of cache cache_fails fails] assms(1) by simp
  then have "echo_ok N UNIV [] (run_events N events s0)" by (rule run_events_ok) simp
  then show ?thesis by (auto simp: echo_receive_total echo_ok_def list_all_iff)
qed

lemma echo_server_survives_witness:
  "fst (echo_receive demo_node (demo_clock 0, [1, 2, 3])
     (run_events demo_node [Frame (demo_clock 0) [1], Advertise (demo_clock 1), Echo (demo_clock 2) [] []]
        (snd (start_echo demo_node (initial_echo None False (\<lambda>_. False)))))) = Inr ()"
proof -
  have "fst (start_echo demo_node (initial_echo None False (\<lambda>_. False))) = Inr ()"
    using demo_secrets(3)
    by (simp add: start_echo_def demo_node_def load_contact_cache_def initial_echo_def add_contact_def save_contact_cache_def
        put_contact_def io_defs)
  then have "start_echo demo_node (initial_echo None False (\<lambda>_. False)) =
      (Inr (), snd (start_echo demo_node (initial_echo None False (\<lambda>_. False))))" by (simp add: prod_eq_iff)
  from echo_server_survives [OF this, of "(demo_clock 0, [1, 2, 3])"
      "[Frame (demo_clock 0) [1], Advertise (demo_clock 1), Echo (demo_clock 2) [] []]"]
  show ?thesis using demo_secrets(2) by (simp add: demo_node_def)
qed

text \<open>
  Property (C14): contacts are authentic. Whatever arrives, a contact with its name is one the server had
  when it started (from the cache or the configuration), or a frame among those received decodes to an
  advert of this key and this name, of another node, whose signature verifies under the key.
\<close>

theorem contacts_are_authentic:
  assumes "start_echo N (initial_echo cache cache_fails fails) = (Inr (), s0)"
    and "\<forall>k \<in> set (ec_contact_pub_keys (en_config N)). length k = 32"
    and "(k, name) \<in> set (all_contacts (run_events N events s0))" "(k, name) \<notin> set (all_contacts s0)"
  shows "\<exists>frame p a. frame \<in> set (concat (map event_frames events)) \<and>
    decode_packet frame = Inr p \<and> pkt_type p = ADVERT \<and> decode_advert (pkt_payload p) = Inr a \<and>
    av_pub_key a = k \<and> ad_name (av_app_data a) = name \<and> k \<noteq> id_pub_key (en_identity N) \<and>
    signature_valid (en_lib N) a = Inr True"
proof -
  let ?A = "set (all_contacts s0) \<union> {c. \<exists>frame \<in> set (concat (map event_frames events)). frame_announces N frame c}"
  have "echo_ok N UNIV [] s0" using start_ok [OF assms(2), of cache cache_fails fails] assms(1) by simp
  then have "echo_ok N ?A [] s0" by (auto simp: echo_ok_def)
  then have "echo_ok N ?A [] (run_events N events s0)" by (rule run_events_ok) blast
  then have "(k, name) \<in> ?A" using assms(3) by (auto simp: echo_ok_def)
  then obtain frame where "frame \<in> set (concat (map event_frames events))" "frame_announces N frame (k, name)"
    using assms(4) by blast
  then show ?thesis by (auto simp: frame_announces_def announces_def)
qed

lemma contacts_are_authentic_witness:
  "\<exists>frame p a. decode_packet frame = Inr p \<and> decode_advert (pkt_payload p) = Inr a \<and> av_pub_key a = 9 # replicate 31 9 \<and>
     ad_name (av_app_data a) = [104] \<and> signature_valid demo_lib a = Inr True"
proof -
  let ?s0 = "initial_echo None False (\<lambda>_. False)"
  obtain frame where c: "map_of (contacts_at (snd (echo_receive demo_node (demo_clock 0, frame) ?s0)) 9) (9 # replicate 31 9) = Some [104]"
    using self_advert_received [OF _ _ _ demo_peer_facts(1) _ _ _ _ demo_peer_facts(2), of "demo_clock 0" ?s0 "demo_clock 0"]
    by (auto simp: demo_lib_laws encodable_def surrogate_def demo_peer_facts(3,4))
  let ?s1 = "run_events demo_node [Frame (demo_clock 0) frame] ?s0"
  have "echo_ok demo_node UNIV [] ?s0"
    by (simp add: echo_ok_def initial_echo_def contacts_ok_def all_contacts_def)
  then have "contacts_ok (es_contacts ?s1)" using receive_txt_ok [of demo_node "[]" ?s0] by (simp add: echo_ok_def)
  then have "(9 # replicate 31 9, [104]) \<in> set (all_contacts ?s1)"
    using contacts_at_ok(3) [of ?s1 9] map_of_SomeD [OF c] by auto
  moreover have "all_contacts ?s0 = []" by (simp add: all_contacts_def initial_echo_def)
  moreover have "\<forall>k \<in> set (ec_contact_pub_keys (en_config demo_node)). length k = 32" by (simp add: demo_node_def)
  ultimately show ?thesis
    using contacts_are_authentic [OF demo_peer_facts(5), of "9 # replicate 31 9" "[104]" "[Frame (demo_clock 0) frame]"]
    by auto
qed

text \<open>
  Servers find each other. The advert one server broadcasts makes it a contact of every
  other server that receives it, under its own key and display name, unless that server has seen a
  later advert of the key.
\<close>

lemma advert_makes_contact:
  assumes "crypto_laws (en_lib A)" "en_lib B = en_lib A" "length (id_seed (en_identity A)) = 32"
    and "id_pub_key (en_identity A) = lib_ed25519_pub (en_lib A) (id_seed (en_identity A))"
    and "encodable (ec_display_name (en_config A))" "0 \<notin> set (ec_display_name (en_config A))"
    and "0 \<le> ck_time ck" "ck_time ck < 2 ^ 32"
    and "id_pub_key (en_identity B) \<noteq> id_pub_key (en_identity A)"
    and "pred_option (\<lambda>ts. ts \<le> ck_time ck) (es_advert_ts s (id_pub_key (en_identity A)))"
  shows "\<exists>frame h. echo_self_advert A ck = Inr frame \<and> path_hash (id_pub_key (en_identity A)) = Inr h \<and>
    map_of (contacts_at (snd (echo_receive B (ck2, frame) s)) h) (id_pub_key (en_identity A)) = Some (ec_display_name (en_config A))"
  by (rule self_advert_received [OF assms])

lemma advert_makes_contact_witness:
  "\<exists>frame. map_of (contacts_at (snd (echo_receive demo_node (demo_clock 0, frame) (initial_echo None False (\<lambda>_. False)))) 9)
    (9 # replicate 31 9) = Some [104]"
  using advert_makes_contact [OF _ _ _ demo_peer_facts(1) _ _ _ _ demo_peer_facts(2), of "demo_clock 0" "initial_echo None False (\<lambda>_. False)" "demo_clock 0"]
  by (auto simp: demo_lib_laws encodable_def surrogate_def demo_peer_facts(3,4))

text \<open>
  Property (C32): a new message is acknowledged and echoed once. When a message of a known contact
  arrives that is not among the remembered ones, exactly one packet is published, which confirms it to
  the sender, and exactly one echo of its text is started.
\<close>

theorem new_message_is_echoed:
  assumes "crypto_laws (en_lib N)" "x25519_law (en_lib N)" "id_pub_key (en_identity N) \<noteq> []"
    and "echo_ok N A pre s" "decode_packet frame = Inr p" "pkt_type p = TXT_MSG" "match_txt N s p k shared msg"
    and "txt_ack_hash (en_lib N) msg k = Inr ack"
    and "expire (ck_monotonic ck - ec_recent_message_ttl_s (en_config N)) (es_recent_messages s) (tm_src_hash msg, ack) = None"
    and "\<not> es_publish_fails s (es_publishes s)"
  shows "\<exists>w q. decode_packet w = Inr q \<and> confirms (en_lib N) shared p ack q \<and>
    es_sent (snd (echo_receive N (ck, frame) s)) = es_sent s @ [w] \<and>
    es_tasks (snd (echo_receive N (ck, frame) s)) = es_tasks s @ [echo_task_of k shared ack p msg]"
  by (rule new_message_effect [OF assms])

lemma new_message_is_echoed_witness:
  "\<exists>frame w t. es_sent (snd (echo_receive demo_node (demo_clock 0, frame) demo_echo)) = [w] \<and>
    es_tasks (snd (echo_receive demo_node (demo_clock 0, frame) demo_echo)) = [t] \<and> et_sender_pub t = demo_key"
proof -
  obtain frame p msg ack where f: "decode_packet frame = Inr p" "pkt_type p = TXT_MSG"
    "match_txt demo_node demo_echo p demo_key demo_secret msg" "txt_ack_hash demo_lib msg demo_key = Inr ack" by (rule demo_txt_frame)
  then show ?thesis
    using new_message_is_echoed [of demo_node UNIV "[]" demo_echo frame p demo_key demo_secret msg ack "demo_clock 0"]
    by (auto simp: demo_echo_ok demo_lib_laws demo_lib_x25519 expire_def echo_task_of_def)
qed

text \<open>
  Property (C33): the echo goes over the longest path. Let a new message arrive and then further copies
  of it over other routes, all within the time to live. There is one echo task, however many
  copies come, and the packet whose path the echo will take is one of those received, with at least as
  many hops as every other.
\<close>

theorem copies_choose_longest_path:
  assumes "crypto_laws (en_lib N)" "x25519_law (en_lib N)" "id_pub_key (en_identity N) \<noteq> []"
    and "echo_ok N UNIV pre s" "decode_packet frame = Inr p" "pkt_type p = TXT_MSG" "match_txt N s p k shared msg"
    and "txt_ack_hash (en_lib N) msg k = Inr ack" "es_recent_messages s (tm_src_hash msg, ack) = None"
    and "\<not> es_publish_fails s (es_publishes s)"
    and "\<forall>x \<in> set copies. carries (pkt_payload p) (snd x) \<and>
      ck_monotonic (fst x) - ec_recent_message_ttl_s (en_config N) \<le> ck_monotonic ck"
  defines "s1 \<equiv> receive_all N ((ck, frame) # copies) s"
  shows "es_tasks s1 = es_tasks s @ [echo_task_of k shared ack p msg] \<and>
    (\<exists>x \<in> set ((ck, frame) # copies). decode_packet (snd x) = Inr (best_path_packet (tm_src_hash msg) ack p s1)) \<and>
    (\<forall>x \<in> set ((ck, frame) # copies). \<forall>q. decode_packet (snd x) = Inr q \<longrightarrow>
      hops q \<le> hops (best_path_packet (tm_src_hash msg) ack p s1))"
proof -
  let ?key = "(tm_src_hash msg, ack)" and ?s = "snd (echo_receive N (ck, frame) s)"
  have new: "expire (ck_monotonic ck - ec_recent_message_ttl_s (en_config N)) (es_recent_messages s) ?key = None"
    using assms(9) by (simp add: expire_def)
  have none: "es_recent_paths s ?key = None" using assms(4,9) by (auto simp: echo_ok_def dom_def)
  have tasks: "es_tasks ?s = es_tasks s @ [echo_task_of k shared ack p msg]"
    using new_message_effect [OF assms(1-8) new assms(10)] by blast
  note r = received_txt [OF assms(4-8), of ck]
  have 1: "es_recent_messages ?s ?key = Some (ck_monotonic ck)" "es_recent_paths ?s ?key = Some p"
    using r(2,3) new assms(9) none by (simp_all add: after_remember_def longer_def Let_def)
  have m: "match_txt N ?s p k shared msg" by (rule match_txt_same [OF assms(7) refl r(1)])
  obtain best where best: "es_recent_paths s1 ?key = Some best" "hops p \<le> hops best"
    "best = p \<or> (\<exists>x \<in> set copies. decode_packet (snd x) = Inr best)"
    "\<forall>x \<in> set copies. \<forall>q. decode_packet (snd x) = Inr q \<longrightarrow> hops q \<le> hops best" "es_tasks s1 = es_tasks ?s"
    using later_copies [OF receive_txt_ok [OF assms(4)] m assms(8) 1 assms(11)] by (auto simp: s1_def)
  have "best_path_packet (tm_src_hash msg) ack p s1 = best" by (simp add: best_path_packet_def best(1))
  then show ?thesis using best assms(5) tasks by auto
qed

lemma copies_choose_longest_path_witness:
  "\<exists>frame. length (es_tasks (receive_all demo_node [(demo_clock 0, frame), (demo_clock 1, frame)] demo_echo)) = 1"
proof -
  obtain frame p msg ack where f: "decode_packet frame = Inr p" "pkt_type p = TXT_MSG"
    "match_txt demo_node demo_echo p demo_key demo_secret msg" "txt_ack_hash demo_lib msg demo_key = Inr ack" by (rule demo_txt_frame)
  have "carries (pkt_payload p) frame" using f by (auto simp: carries_def)
  then show ?thesis
    using copies_choose_longest_path [of demo_node "[]" demo_echo frame p demo_key demo_secret msg ack "[(demo_clock 1, frame)]" "demo_clock 0"] f
    by (intro exI [of _ frame]) (simp add: demo_echo_ok demo_lib_laws demo_lib_x25519)
qed

text \<open>
  Only an ACK packet ends the echo server's wait. An ACK packet with the awaited hash
  that arrives during the wait makes it return true and leaves no waiter; a returned path never does,
  not even one that carries the awaited ACK: the wait returns false and the message is sent again. (The
  room server takes the bundled ACK, and this is how a flooded message is acknowledged.)
\<close>

lemma bundled_ack_is_ignored:
  assumes "es_next_future s \<notin> set (es_resolved s)" "\<forall>a. es_next_future s \<notin> set (es_ack_waiters s a)"
    and "decode_packet frame1 = Inr p1" "pkt_type p1 = ACK" "parse_ack_payload (pkt_payload p1) = Some ack"
    and "decode_packet frame2 = Inr p2" "pkt_type p2 = PATH"
  shows "fst (echo_wait_for_ack (\<lambda>u. snd (echo_receive N (ck, frame1) u)) ack timeout s) = Inr True \<and>
    es_ack_waiters (snd (echo_wait_for_ack (\<lambda>u. snd (echo_receive N (ck, frame1) u)) ack timeout s)) = (es_ack_waiters s)(ack := []) \<and>
    fst (echo_wait_for_ack (\<lambda>u. snd (echo_receive N (ck, frame2) u)) ack timeout s) = Inr False"
proof -
  have "same_waits u (snd (echo_receive N (ck, frame2) u))" for u by (rule receive_path_same_waits [OF assms(6,7)])
  then show ?thesis unfolding echo_wait_for_ack_def
    using echo_waits.answered [of "\<lambda>u. snd (echo_receive N (ck, frame1) u)" ack s "snd (echo_wait_begin ack s)"]
      echo_waits.unanswered [of s ack "\<lambda>u. snd (echo_receive N (ck, frame2) u)"] assms(1,2)
    by (simp add: receive_echo_ack [OF assms(3-5)] same_waits_def)
qed

lemma bundled_ack_is_ignored_witness:
  "\<exists>frame p m. decode_packet frame = Inr p \<and> try_decrypt_path_msg demo_lib (pkt_payload p) demo_secret = Inr (Some m) \<and>
    pm_extra_type m = payload_val ACK \<and> parse_ack_payload (take 4 (pm_extra m)) \<noteq> None \<and>
    fst (echo_wait_for_ack (\<lambda>u. snd (echo_receive demo_node (demo_clock 0, frame) u)) (take 4 (pm_extra m)) 6 demo_echo) = Inr False"
proof -
  obtain frame p m where f: "decode_packet frame = Inr p" "pkt_type p = PATH" "match_path demo_room demo_server p demo_session m"
    "pm_extra_type m = payload_val ACK" "4 \<le> length (pm_extra m)" "pm_path m \<noteq> []" by (rule demo_path_frame)
  let ?ack = "take 4 (pm_extra m)"
  have a: "length ?ack = 4" using f(5) by simp
  obtain w where w: "decode_packet w = Inr (make_packet FLOOD ACK [] ?ack 1)"
    by (rule decode_made [of FLOOD ACK 1 "[]" ?ack]) simp_all
  have parse: "parse_ack_payload ?ack = Some ?ack" using a by (simp add: parse_ack_payload_def msg_consts)
  have "fst (echo_wait_for_ack (\<lambda>u. snd (echo_receive demo_node (demo_clock 0, frame) u)) ?ack 6 demo_echo) = Inr False"
    using bundled_ack_is_ignored [of demo_echo w "make_packet FLOOD ACK [] ?ack 1" ?ack frame p demo_node "demo_clock 0" 6] w f parse
    by (simp add: make_packet_def)
  moreover have "try_decrypt_path_msg demo_lib (pkt_payload p) demo_secret = Inr (Some m)"
    using f(3) demo_secrets(5) by (auto simp: match_path_def open_with_def demo_session_def dest!: first_match_Some split: option.splits)
  ultimately show ?thesis using f(1,4) parse by (intro exI [of _ frame] exI [of _ p] exI [of _ m]) simp
qed

text \<open>The state in which an echo reads the path, after its delay.\<close>

definition after_delay :: "echo_node \<Rightarrow> echo_event list \<Rightarrow> echo_server \<Rightarrow> echo_server" where
  "after_delay N in_delay s = (if ec_ack_reply_delay_s (en_config N) > 0 then run_events N in_delay s else s)"

lemma after_delay_ok: "echo_ok N UNIV pre s \<Longrightarrow> echo_ok N UNIV pre (after_delay N in_delay s)"
  by (simp add: after_delay_def run_events_ok)

lemma echo_route_ok:
  assumes "wf_packet best"
  obtains route where "echo_route best = Inr route" "route \<noteq> [] \<Longrightarrow> path_ok (pkt_hash_size best) route" "length route \<le> 64"
proof (cases "pkt_path best = []")
  case False
  have "path_ok (pkt_hash_size best) (pkt_path best)" "length (pkt_path best) \<le> 64" using assms by (simp_all add: wf_packet_def)
  then show thesis using that False by (metis echo_route_def reverse_path_ok)
qed (use that in \<open>simp add: echo_route_def\<close>)

text \<open>The first packet of a plan, whatever its route.\<close>

lemma first_packet:
  assumes C: "crypto_laws C" "16 \<le> length k" and keys: "dest \<noteq> []" "src \<noteq> []"
    and body: "encodable body" "0 \<notin> set body" and time: "0 \<le> ts" "ts < 2 ^ 32"
    and attempts: "0 \<le> da" "0 < fa" and route: "route \<noteq> [] \<Longrightarrow> path_ok hs route" "length route \<le> 64"
  obtains a rest w ack q m where "attempt_plan route hs da fa = a # rest" "send_txt C k dest src body ts 0 a = Inr (w, ack)"
    "decode_packet w = Inr q" "pkt_type q = TXT_MSG"
    "(pkt_route q, pkt_path q) = (if route \<noteq> [] \<and> 0 < da then (DIRECT, route) else (FLOOD, []))"
    "try_decrypt_txt_msg C (pkt_payload q) k = Inr (Some m)" "tm_text m = body"
proof -
  obtain r path h where a: "(if route \<noteq> [] \<and> 0 < da then (DIRECT, route, hs) else (FLOOD, [], 1)) = (r, path, h)"
    by (rule prod_cases3)
  obtain rest where plan: "attempt_plan route hs da fa = (r, path, h) # rest"
    using attempt_plan_first [OF attempts, of route hs] unfolding a by blast
  have ok: "r \<in> {DIRECT, FLOOD}" "path_ok h path" "length path \<le> 64" using a route by (auto split: if_splits)
  have "\<exists>wa. send_txt C k dest src body ts (int 0) (r, path, h) = Inr wa"
    by (rule send_txt_total [OF C(2) keys body(1) time(1) _ ok(1,2)]) (use time(2) in simp)
  then obtain w ack where send: "send_txt C k dest src body ts 0 (r, path, h) = Inr (w, ack)" by auto
  obtain q m where "decode_packet w = Inr q" "pkt_type q = TXT_MSG" "pkt_route q = r" "pkt_path q = path"
    "try_decrypt_txt_msg C (pkt_payload q) k = Inr (Some m)" "tm_text m = body"
    by (rule sent_txt_opens [OF C body ok send])
  moreover from this(3,4) have "(pkt_route q, pkt_path q) = (if route \<noteq> [] \<and> 0 < da then (DIRECT, route) else (FLOOD, []))"
    using a by (auto split: if_splits)
  ultimately show thesis using that [OF plan send] by blast
qed

text \<open>What an echo publishes is what its delivery publishes, after the delay.\<close>

lemma echo_event_sent:
  fixes N :: echo_node and in_delay :: "echo_event list"
  assumes "es_tasks s = t # ts"
  defines "u \<equiv> after_delay N in_delay (s\<lparr>es_tasks := ts\<rparr>)"
  defines "best \<equiv> best_path_packet (et_src_hash t) (et_inbound_ack t) (et_inbound_packet t) u"
  assumes "echo_text N best (et_original_text t) = Inr reply" "echo_route best = Inr route"
  shows "run_event N (Echo ck in_delay in_wait) s = snd (deliver_txt_msg_with_ack (en_lib N) echo_publish
      (echo_wait_for_ack (run_events N in_wait)) (et_shared t) (et_sender_pub t) (id_pub_key (en_identity N)) reply (ck_time ck)
      route (pkt_hash_size best) (ec_reply_direct_attempts (en_config N)) (ec_reply_flood_attempts (en_config N))
      (ec_reply_ack_timeout_s (en_config N)) u)"
  using assms(4,5) unfolding best_def u_def
  by (auto simp: assms(1) deliver_echo_def Let_def io_defs after_delay_def split: sum.splits prod.splits)



definition match_req :: "echo_node \<Rightarrow> echo_server \<Rightarrow> packet \<Rightarrow> bytes \<Rightarrow> req_msg \<Rightarrow> bool" where
  "match_req N s p shared req \<longleftrightarrow>
     (\<exists>h c. addressed (en_identity N) p = Inr (Some h) \<and>
        first_match (open_with (en_lib N) (en_identity N) try_decrypt_req_msg (pkt_payload p) \<circ> fst) (contacts_at s h)
          = Inr (Some (c, shared, req)))"

lemma req_timestamp: "try_decrypt_req_msg C payload k = Inr (Some req) \<Longrightarrow> \<exists>tag. to_bytes_le 4 (rq_timestamp req) = Inr tag"
proof -
  assume "try_decrypt_req_msg C payload k = Inr (Some req)"
  then obtain b where "rq_timestamp req = from_bytes_le (take 4 b)" "4 \<le> length b"
    by (auto simp: try_decrypt_req_msg_def msg_consts split: if_splits option.splits)
  then show ?thesis using to_from_bytes_le [of "take 4 b" 4] by simp
qed

text \<open>
  A path discovery is answered. A flooded telemetry request of a known contact is
  answered by one flooded PATH packet that the contact's secret opens to the path the request took,
  with a bundled response that is the request's tag (trailing zero bytes are not kept in transit).
\<close>

lemma discovery_is_answered:
  assumes C: "crypto_laws (en_lib N)" "x25519_law (en_lib N)" and pub: "id_pub_key (en_identity N) \<noteq> []"
    and p: "decode_packet frame = Inr p" "pkt_type p = REQ" "is_flood p"
    and m: "match_req N s p shared req" "rq_data req = 3 # args"
    and net: "\<not> es_publish_fails s (es_publishes s)"
  shows "\<exists>w q m tag. es_sent (snd (echo_receive N (ck, frame) s)) = es_sent s @ [w] \<and> decode_packet w = Inr q \<and>
    pkt_type q = PATH \<and> is_flood q \<and> try_decrypt_path_msg (en_lib N) (pkt_payload q) shared = Inr (Some m) \<and>
    pm_path m = pkt_path p \<and> pm_hash_size m = pkt_hash_size p \<and> pm_extra_type m = payload_val RESPONSE \<and>
    to_bytes_le 4 (rq_timestamp req) = Inr tag \<and> pm_extra m = rstrip0 tag"
proof -
  have wf: "wf_packet p" using decode_packet_Inr(1) [OF p(1)] .
  obtain h c where h: "addressed (en_identity N) p = Inr (Some h)"
    and f: "first_match (open_with (en_lib N) (en_identity N) try_decrypt_req_msg (pkt_payload p) \<circ> fst) (contacts_at s h)
      = Inr (Some (c, shared, req))" using m(1) by (auto simp: match_req_def)
  note o = found_candidate [OF f]
  have k16: "16 \<le> length shared" using shared_secret_length [OF C(2)] o(2) by (fastforce simp: id_shared_secret_def)
  obtain tag where tag: "to_bytes_le 4 (rq_timestamp req) = Inr tag" using req_timestamp [OF o(3)] by blast
  obtain w q m where w: "bindR (build_path_packet (en_lib N) [] shared (rq_src_hash req) (id_pub_key (en_identity N))
      (pkt_path p) (pkt_hash_size p) (payload_val RESPONSE) (Some (tag @ [0])) FLOOD [] 1) encode_packet = Inr w"
    "decode_packet w = Inr q" "pkt_type q = PATH" "pkt_route q = FLOOD" "pkt_path q = []"
    "try_decrypt_path_msg (en_lib N) (pkt_payload q) shared = Inr (Some m)" "pm_path m = pkt_path p" "pm_hash_size m = pkt_hash_size p"
    "pm_extra_type m = payload_val RESPONSE mod 16"
    "pm_extra m = (if payload_val RESPONSE mod 16 = payload_val ACK then take 4 (tag @ [0]) else rstrip0 (tag @ [0]))"
    by (rule path_build_ok [OF C(1) k16 wf pub, of "payload_val RESPONSE" "tag @ [0]" FLOOD 1 "[]"]) simp_all
  have a: "answer_req N p shared req s = echo_publish w s"
    using p(3) m(2) tag w(1) unfolding answer_req_def
    by (auto simp: bindIO_def liftR_def hash_count_wf [OF wf] REQ_TYPE_GET_TELEMETRY_DATA_def)
  have "snd (echo_receive N (ck, frame) s) = snd (echo_publish w s)"
    unfolding echo_receive_dispatch [OF p(1)] using p(2) h f
    by (simp add: echo_dispatch_def handle_req_msg_def candidates_def io_defs a [unfolded io_defs])
  then have "es_sent (snd (echo_receive N (ck, frame) s)) = es_sent s @ [w]" using net by (simp add: echo_publish_def)
  moreover have "rstrip0 (tag @ [0]) = rstrip0 tag" using rstrip0_append_zeros [of tag 1] by simp
  ultimately show ?thesis using w tag by (auto simp: is_flood_def)
qed

lemma demo_req_frame:
  obtains frame p req where "decode_packet frame = Inr p" "pkt_type p = REQ" "is_flood p"
    "match_req demo_node demo_echo p demo_secret req" "rq_data req = 3 # []"
proof -
  have k: "16 \<le> length demo_secret" using demo_secrets(1) by simp
  let ?b = "[9, 0, 0, 0, 3] :: bytes"
  obtain e where e: "encrypt_then_mac demo_lib demo_secret ?b = Inr e" using encrypt_then_mac_total [OF k] by blast
  obtain n where n: "\<not> too_short 2 (hash_header 2 5 @ e)" "mac_then_decrypt demo_lib demo_secret e = Inr (Some (?b @ replicate n 0))"
    by (rule open_hash_datagram [OF demo_lib_laws k _ e, of 2 5]) simp_all
  have z: "rstrip0 (3 # replicate n 0) = [3 :: byte]" using rstrip0_append_zeros [of "[3]" n] by (simp add: rstrip0_def)
  obtain req where req: "try_decrypt_req_msg demo_lib (hash_header 2 5 @ e) demo_secret = Inr (Some req)" "rq_data req = 3 # []"
    using n z by (simp add: try_decrypt_req_msg_def msg_consts)
  let ?p = "make_packet FLOOD REQ [] (hash_header 2 5 @ e) 1"
  obtain w where w: "decode_packet w = Inr ?p"
    by (rule decode_made [of FLOOD REQ 1 "[]" "hash_header 2 5 @ e"]) simp_all
  have "addressed (rm_identity demo_room) ?p = Inr (Some 5)" by (rule demo_addressed) (simp add: make_packet_def)
  then have "match_req demo_node demo_echo ?p demo_secret req"
    using req(1) demo_secrets(5) by (simp add: match_req_def open_with_def make_packet_def)
  then show thesis using that [OF w _ _ _ req(2)] by (simp add: make_packet_def is_flood_def)
qed

lemma discovery_is_answered_witness:
  "\<exists>frame w q. es_sent (snd (echo_receive demo_node (demo_clock 0, frame) demo_echo)) = [w] \<and> decode_packet w = Inr q \<and> pkt_type q = PATH"
proof -
  obtain frame p req where f: "decode_packet frame = Inr p" "pkt_type p = REQ" "is_flood p"
    "match_req demo_node demo_echo p demo_secret req" "rq_data req = 3 # []" by (rule demo_req_frame)
  show ?thesis
    using discovery_is_answered [OF _ _ _ f, of "demo_clock 0"] by (auto simp: demo_lib_laws demo_lib_x25519)
qed

end
