(* ===== verification/JsonRead.thy ===== *)
theory JsonRead
  imports PyJson "HOL-Library.AList"
begin

text \<open>
  Reading JSON (\<open>json.loads\<close>), and that it reads back what \<open>json.dumps\<close> writes in each of the three layouts the code uses:
  compact, with spaces after the separators, and indented.
\<close>

section \<open>Strings and numbers\<close>

definition hex4_value :: "ustring \<Rightarrow> (nat \<times> ustring) option" where
  "hex4_value s =
     (case s of
        a # b # c # d # r \<Rightarrow>
          (case (hex_value a, hex_value b, hex_value c, hex_value d) of
             (Some x, Some y, Some z, Some w) \<Rightarrow> Some (4096 * x + 256 * y + 16 * z + w, r)
           | _ \<Rightarrow> None)
      | _ \<Rightarrow> None)"

text \<open>
  What follows a backslash: a simple escape, or a code unit; the escapes of a high and a low surrogate are one character.
\<close>

definition simple_escape :: "nat \<rightharpoonup> nat" where
  "simple_escape = [34 \<mapsto> 34, 92 \<mapsto> 92, 47 \<mapsto> 47, 98 \<mapsto> 8, 102 \<mapsto> 12, 110 \<mapsto> 10, 114 \<mapsto> 13, 116 \<mapsto> 9]"

definition json_escape :: "ustring \<Rightarrow> (nat \<times> ustring) option" where
  "json_escape s =
     (case s of
        [] \<Rightarrow> None
      | e # r \<Rightarrow>
          if e = 117
          then (case hex4_value r of
                  None \<Rightarrow> None
                | Some (u, r1) \<Rightarrow>
                    if 0xD800 \<le> u \<and> u < 0xDC00 \<and> take 2 r1 = [92, 117]
                    then (case hex4_value (drop 2 r1) of
                            None \<Rightarrow> None
                          | Some (v, r2) \<Rightarrow>
                              if 0xDC00 \<le> v \<and> v < 0xE000
                              then Some (0x10000 + 0x400 * (u - 0xD800) + (v - 0xDC00), r2) else Some (u, r1))
                    else Some (u, r1))
          else (case simple_escape e of None \<Rightarrow> None | Some c \<Rightarrow> Some (c, r)))"

lemma hex4_value_shorter: "hex4_value s = Some (u, r) \<Longrightarrow> length r < length s"
  by (auto simp: hex4_value_def split: list.splits option.splits)

lemma json_escape_shorter: "json_escape s = Some (c, r) \<Longrightarrow> length r < length s"
  by (auto simp: json_escape_def split: list.splits option.splits if_splits dest!: hex4_value_shorter)

text \<open>The characters up to the closing quote; control characters are refused.\<close>

function json_chars :: "ustring \<Rightarrow> (ustring \<times> ustring) option" where
  "json_chars [] = None"
| "json_chars (c # s) =
     (if c = 34 then Some ([], s)
      else if c = 92
      then (case json_escape s of
              None \<Rightarrow> None
            | Some (u, r) \<Rightarrow> map_option (\<lambda>(t, r'). (u # t, r')) (json_chars r))
      else if c < 32 then None
      else map_option (\<lambda>(t, r). (c # t, r)) (json_chars s))"
  by pat_completeness auto
termination
  by (relation "measure length") (auto dest: json_escape_shorter)

definition is_digit :: "nat \<Rightarrow> bool" where "is_digit c \<longleftrightarrow> 48 \<le> c \<and> c \<le> 57"

text \<open>
  A number: an integer without leading zeros, of at most 4300 digits as \<open>int\<close> wants it; what is made of one with a fraction or an
  exponent is an argument (\<open>other\<close>).
\<close>

definition number_digits :: "ustring \<Rightarrow> ustring" where
  "number_digits s = (if s \<noteq> [] \<and> hd s = 48 then [48] else takeWhile is_digit s)"

definition number_fraction :: "ustring \<Rightarrow> ustring" where
  "number_fraction s = (if s \<noteq> [] \<and> hd s = 46 \<and> takeWhile is_digit (tl s) \<noteq> [] then 46 # takeWhile is_digit (tl s) else [])"

definition number_exponent :: "ustring \<Rightarrow> ustring" where
  "number_exponent s =
     (if s \<noteq> [] \<and> hd s \<in> {69, 101}
      then (let sign = (if tl s \<noteq> [] \<and> hd (tl s) \<in> {43, 45} then [hd (tl s)] else []);
                digits = takeWhile is_digit (drop (length sign) (tl s)) in
            if digits = [] then [] else hd s # sign @ digits)
      else [])"

definition number_parts :: "ustring \<Rightarrow> ustring \<times> ustring \<times> ustring" where
  "number_parts s =
     (let sign = (if s \<noteq> [] \<and> hd s = 45 then [45] else []);
          digits = number_digits (drop (length sign) s);
          r = drop (length (sign @ digits)) s;
          fraction = number_fraction r;
          tail = fraction @ number_exponent (drop (length fraction) r) in
      (sign @ digits, tail, drop (length tail) r))"

fun digits_nat :: "nat \<Rightarrow> ustring \<Rightarrow> nat" where
  "digits_nat n [] = n"
| "digits_nat n (c # s) = digits_nat (10 * n + (c - 48)) s"

definition json_number :: "(ustring \<Rightarrow> json) \<Rightarrow> ustring \<Rightarrow> (json \<times> ustring) option" where
  "json_number other s =
     (case number_parts s of (whole, tail, r) \<Rightarrow>
        let digits = (if whole \<noteq> [] \<and> hd whole = 45 then tl whole else whole) in
        if digits = [] then None
        else if tail \<noteq> [] then Some (other (whole @ tail), r)
        else if 4300 < length digits then None
        else Some (JInt (if hd whole = 45 then - int (digits_nat 0 digits) else int (digits_nat 0 digits)), r))"

text \<open>The literals, the three names of floats among them.\<close>

definition json_literals :: "(ustring \<Rightarrow> json) \<Rightarrow> (ustring \<times> json) list" where
  "json_literals other =
     [(ustr ''null'', JNull), (ustr ''true'', JBool True), (ustr ''false'', JBool False),
      (ustr ''NaN'', other (ustr ''NaN'')), (ustr ''Infinity'', other (ustr ''Infinity'')),
      (ustr ''-Infinity'', other (ustr ''-Infinity''))]"

definition json_atom :: "(ustring \<Rightarrow> json) \<Rightarrow> ustring \<Rightarrow> (json \<times> ustring) option" where
  "json_atom other s =
     (case find (\<lambda>(w, v). take (length w) s = w) (json_literals other) of
        Some (w, v) \<Rightarrow> Some (v, drop (length w) s)
      | None \<Rightarrow> json_number other s)"

section \<open>Values\<close>

definition skip_ws :: "ustring \<Rightarrow> ustring" where
  "skip_ws = dropWhile (\<lambda>c. c \<in> {32, 9, 10, 13})"

lemma skip_ws_shorter: "length (skip_ws s) \<le> length s"
  by (simp add: skip_ws_def length_dropWhile_le)

text \<open>
  A value with the text after it; the elements of a list and the members of a dict, from the first. The loops ask that the
  text has become shorter, which it always has (\<open>reading_shorter\<close>), so that the recursion is seen to end. A key that occurs twice has its last value.
\<close>

function json_value :: "(ustring \<Rightarrow> json) \<Rightarrow> ustring \<Rightarrow> (json \<times> ustring) option"
  and json_list :: "(ustring \<Rightarrow> json) \<Rightarrow> ustring \<Rightarrow> (json list \<times> ustring) option"
  and json_members :: "(ustring \<Rightarrow> json) \<Rightarrow> (ustring \<times> json) list \<Rightarrow> ustring \<Rightarrow> ((ustring \<times> json) list \<times> ustring) option" where
  "json_value other s =
     (case skip_ws s of
        [] \<Rightarrow> None
      | c # r \<Rightarrow>
          if c = 34 then map_option (\<lambda>(t, r'). (JStr t, r')) (json_chars r)
          else if c = 91
          then (if skip_ws r \<noteq> [] \<and> hd (skip_ws r) = 93 then Some (JList [], tl (skip_ws r))
                else if length r < length s then map_option (\<lambda>(vs, r'). (JList vs, r')) (json_list other r) else None)
          else if c = 123
          then (if skip_ws r \<noteq> [] \<and> hd (skip_ws r) = 125 then Some (JObj [], tl (skip_ws r))
                else if length r < length s then map_option (\<lambda>(kvs, r'). (JObj kvs, r')) (json_members other [] r) else None)
          else json_atom other (c # r))"
| "json_list other s =
     (case json_value other s of
        None \<Rightarrow> None
      | Some (v, r) \<Rightarrow>
          (case skip_ws r of
             [] \<Rightarrow> None
           | c # r1 \<Rightarrow>
               if c = 44
               then (if length r1 < length s then map_option (\<lambda>(vs, r'). (v # vs, r')) (json_list other r1) else None)
               else if c = 93 then Some ([v], r1) else None))"
| "json_members other kvs s =
     (case skip_ws s of
        [] \<Rightarrow> None
      | q # r \<Rightarrow>
          if q \<noteq> 34 then None
          else
            (case json_chars r of
               None \<Rightarrow> None
             | Some (k, r1) \<Rightarrow>
                 if skip_ws r1 = [] \<or> hd (skip_ws r1) \<noteq> 58 \<or> length s \<le> length (tl (skip_ws r1)) then None
                 else
                   (case json_value other (tl (skip_ws r1)) of
                      None \<Rightarrow> None
                    | Some (v, r2) \<Rightarrow>
                        (case skip_ws r2 of
                           [] \<Rightarrow> None
                         | c # r3 \<Rightarrow>
                             let kvs1 = AList.update k v kvs in
                             if c = 44
                             then (if length r3 < length s then json_members other kvs1 r3 else None)
                             else if c = 125 then Some (kvs1, r3) else None))))"
  by pat_completeness auto
termination
  by (relation "measure (case_sum (\<lambda>(other, s). 2 * length s)
      (case_sum (\<lambda>(other, s). 2 * length s + 1) (\<lambda>(other, kvs, s). 2 * length s + 1)))") auto

definition json_loads :: "(ustring \<Rightarrow> json) \<Rightarrow> ustring \<Rightarrow> json res" where
  "json_loads other s =
     (case json_value other s of
        Some (v, r) \<Rightarrow> if skip_ws r = [] then Inr v else Inl ValueError
      | None \<Rightarrow> Inl ValueError)"

declare json_value.simps [simp del] json_list.simps [simp del] json_members.simps [simp del]

section \<open>Writing in a layout\<close>

text \<open>
  \<open>json.dumps\<close> with a layout: \<open>nl d\<close> goes before each element of a container at depth \<open>d\<close> and before its closing bracket,
  \<open>isp\<close> and \<open>ksp\<close> follow the comma and the colon.
\<close>

fun json_layout :: "(nat \<Rightarrow> ustring) \<Rightarrow> ustring \<Rightarrow> ustring \<Rightarrow> nat \<Rightarrow> json \<Rightarrow> ustring"
  and json_layout_items :: "(nat \<Rightarrow> ustring) \<Rightarrow> ustring \<Rightarrow> ustring \<Rightarrow> nat \<Rightarrow> json list \<Rightarrow> ustring list"
  and json_layout_members :: "(nat \<Rightarrow> ustring) \<Rightarrow> ustring \<Rightarrow> ustring \<Rightarrow> nat \<Rightarrow> (ustring \<times> json) list \<Rightarrow> ustring list" where
  "json_layout nl isp ksp d JNull = ustr ''null''"
| "json_layout nl isp ksp d (JBool b) = ustr (if b then ''true'' else ''false'')"
| "json_layout nl isp ksp d (JInt i) = int_str i"
| "json_layout nl isp ksp d (JFloat text_of nonzero) = text_of"
| "json_layout nl isp ksp d (JStr s) = json_string s"
| "json_layout nl isp ksp d (JList xs) =
     (if xs = [] then [91, 93]
      else [91] @ nl (Suc d) @ str_join (44 # isp @ nl (Suc d)) (json_layout_items nl isp ksp (Suc d) xs) @ nl d @ [93])"
| "json_layout nl isp ksp d (JObj kvs) =
     (if kvs = [] then [123, 125]
      else [123] @ nl (Suc d) @ str_join (44 # isp @ nl (Suc d)) (json_layout_members nl isp ksp (Suc d) kvs) @ nl d @ [125])"
| "json_layout_items nl isp ksp d [] = []"
| "json_layout_items nl isp ksp d (x # xs) = json_layout nl isp ksp d x # json_layout_items nl isp ksp d xs"
| "json_layout_members nl isp ksp d [] = []"
| "json_layout_members nl isp ksp d ((k, v) # kvs) =
     (json_string k @ 58 # ksp @ json_layout nl isp ksp d v) # json_layout_members nl isp ksp d kvs"

text \<open>The values whose text is read back: text that encodes, integers of a readable length, dicts, no floats.\<close>

fun writable :: "json \<Rightarrow> bool" where
  "writable (JFloat text_of nonzero) = False"
| "writable (JInt i) = (length (int_str i) \<le> 4300)"
| "writable (JStr s) = encodable s"
| "writable (JList xs) = list_all writable xs"
| "writable (JObj kvs) = (distinct (map fst kvs) \<and> list_all (\<lambda>kv. encodable (fst kv) \<and> writable (snd kv)) kvs)"
| "writable v = True"

section \<open>Reading a string back\<close>

lemma four_hex_digits: "4096 * (n div 4096) + 256 * (n div 256 mod 16) + 16 * (n div 16 mod 16) + n mod 16 = (n :: nat)"
proof -
  have d: "n div 256 = n div 16 div 16" "n div 4096 = n div 16 div 16 div 16" by (simp_all flip: div_mult2_eq)
  have e: "m = 16 * (m div 16) + m mod 16" for m :: nat by simp
  show ?thesis unfolding d using e [of n] e [of "n div 16"] e [of "n div 16 div 16"] by linarith
qed

lemma hex4_value_hex4: "n < 0x10000 \<Longrightarrow> hex4_value (hex4 n @ r) = Some (n, r)"
  using four_hex_digits [of n] by (simp add: hex4_value_def hex4_def hex_value_digit)

lemma json_char_read:
  assumes "c < 0x110000" "\<not> surrogate c" "json_chars t = Some (s, r)"
  shows "json_chars (json_char c @ t) = Some (c # s, r)"
proof -
  consider "c \<in> {34, 92, 8, 9, 10, 12, 13}" | "c \<notin> {34, 92}" "32 \<le> c" "c \<le> 126"
    | "c \<notin> {8, 9, 10, 12, 13}" "\<not> (32 \<le> c \<and> c \<le> 126)" "c < 0x10000" | "0x10000 \<le> c" by fastforce
  then show ?thesis
  proof cases
    case 1
    then show ?thesis using assms(3) by (auto simp: json_char_def ustr_def json_escape_def simple_escape_def)
  next
    case 2
    then show ?thesis using assms(3) by (simp add: json_char_def)
  next
    case 3
    then have "json_char c = [92, 117] @ hex4 c" by (auto simp: json_char_def ustr_def)
    moreover have "c < 0xD800 \<or> 0xDC00 \<le> c" using assms(2) by (auto simp: surrogate_def)
    ultimately show ?thesis using assms(3) 3(3) by (elim disjE) (simp_all add: json_escape_def hex4_value_hex4)
  next
    case 4
    let ?hi = "0xD800 + (c - 0x10000) div 0x400 mod 0x400" and ?lo = "0xDC00 + (c - 0x10000) mod 0x400"
    have q: "(c - 0x10000) div 0x400 < 0x400" using assms(1) 4 by (simp add: less_mult_imp_div_less)
    have b: "0xD800 \<le> ?hi" "?hi < 0xDC00" "0xDC00 \<le> ?lo" "?lo < 0xE000" by simp_all
    have "json_char c = [92, 117] @ hex4 ?hi @ [92, 117] @ hex4 ?lo" using 4 by (simp add: json_char_def ustr_def)
    moreover have "0x10000 + 0x400 * (?hi - 0xD800) + (?lo - 0xDC00) = c"
      using q 4 by (simp add: mult.commute [of "0x400"] del: mult.commute)
    ultimately show ?thesis using assms(3) b by (simp add: json_escape_def hex4_value_hex4)
  qed
qed

lemma json_string_read: "encodable s \<Longrightarrow> json_chars (concat (map json_char s) @ 34 # r) = Some (s, r)"
  by (induction s) (auto simp: encodable_def json_char_read)

section \<open>Reading a number back\<close>

definition stops :: "ustring \<Rightarrow> bool" where
  "stops r \<longleftrightarrow> r = [] \<or> \<not> is_digit (hd r) \<and> hd r \<notin> {46, 69, 101}"

lemma digits_nat_snoc: "digits_nat m (s @ [48 + d]) = 10 * digits_nat m s + d"
  by (induction s arbitrary: m) simp_all

lemma nat_str_facts:
  "digits_nat 0 (nat_str n) = n \<and> list_all is_digit (nat_str n) \<and> nat_str n \<noteq> [] \<and> (hd (nat_str n) = 48 \<longrightarrow> tl (nat_str n) = [])"
proof (induction n rule: nat_str.induct)
  case (1 n)
  show ?case
  proof (cases "n < 10")
    case True
    then have "nat_str n = [48 + n]" by (simp add: nat_str.simps [of n])
    then show ?thesis using True by (cases "n = 0") (simp_all add: is_digit_def)
  next
    case False
    then have IH: "digits_nat 0 (nat_str (n div 10)) = n div 10" "list_all is_digit (nat_str (n div 10))" "nat_str (n div 10) \<noteq> []"
      "hd (nat_str (n div 10)) = 48 \<longrightarrow> tl (nat_str (n div 10)) = []" using 1 by blast+
    have "hd (nat_str (n div 10)) \<noteq> 48"
    proof
      assume "hd (nat_str (n div 10)) = 48"
      then have "nat_str (n div 10) = [48]" using IH(3,4) by (cases "nat_str (n div 10)") auto
      then have "n div 10 = 0" using IH(1) by simp
      then show False using False by simp
    qed
    moreover have "n mod 10 < 10" by simp
    then have "is_digit (48 + n mod 10)" unfolding is_digit_def by linarith
    ultimately show ?thesis using False IH by (simp add: nat_str.simps [of n] digits_nat_snoc)
  qed
qed

lemma number_parts_digits:
  assumes "stops r" "list_all is_digit (c # u)" "c = 48 \<longrightarrow> u = []"
  shows "number_parts (c # u @ r) = (c # u, [], r)" "number_parts (45 # c # u @ r) = (45 # c # u, [], r)"
proof -
  have t: "takeWhile is_digit (u @ r) = u"
    using assms(1,2) by (cases r) (auto simp: takeWhile_append list_all_iff stops_def)
  have c: "c \<noteq> 45" "is_digit c" using assms(2) by (auto simp: is_digit_def)
  have d: "number_digits (c # u @ r) = c # u" using t c(2) assms(3) by (simp add: number_digits_def)
  have f: "number_fraction r = []" "number_exponent r = []"
    using assms(1) by (auto simp: stops_def number_fraction_def number_exponent_def)
  show "number_parts (c # u @ r) = (c # u, [], r)" using c(1) d f by (simp add: number_parts_def)
  show "number_parts (45 # c # u @ r) = (45 # c # u, [], r)" using d f by (simp add: number_parts_def)
qed

lemma json_int_read:
  assumes "stops r" "length (int_str i) \<le> 4300"
  shows "json_atom other (int_str i @ r) = Some (JInt i, r)"
proof -
  define m where "m = nat \<bar>i\<bar>"
  obtain c u where n: "nat_str m = c # u" using nat_str_facts [of m] by (cases "nat_str m") auto
  have d: "list_all is_digit (c # u)" "c = 48 \<longrightarrow> u = []" "digits_nat 0 (c # u) = m"
    using nat_str_facts [of m] unfolding n by simp_all
  then have c: "48 \<le> c" "c \<le> 57" by (simp_all add: is_digit_def)
  have i: "int_str i = (if i < 0 then 45 # c # u else c # u)" 
    using n by (cases "i < 0") (simp_all add: int_str_def m_def)
  have l: "length (c # u) \<le> 4300" using assms(2) unfolding i by (simp split: if_splits)
  have v: "i = (if i < 0 then - int m else int m)" by (simp add: m_def)
  have "find (\<lambda>(w, v). take (length w) (int_str i @ r) = w) (json_literals other) = None"
    unfolding i using c by (simp add: json_literals_def ustr_def)
  moreover have "json_number other (int_str i @ r) = Some (JInt i, r)"
    using number_parts_digits [OF assms(1) d(1,2)] l c d(3) v
    unfolding i json_number_def by (cases "i < 0") (simp_all del: digits_nat.simps)
  ultimately show ?thesis by (simp add: json_atom_def)
qed

section \<open>Reading a value back\<close>

definition blank :: "ustring \<Rightarrow> bool" where "blank w \<longleftrightarrow> set w \<subseteq> {32, 9, 10, 13}"

lemma skip_ws_blank: "blank w \<Longrightarrow> skip_ws (w @ s) = skip_ws s"
  by (induction w) (auto simp: blank_def skip_ws_def)

lemma skip_ws_stop: "s = [] \<or> hd s \<notin> {32, 9, 10, 13} \<Longrightarrow> skip_ws s = s"
  by (cases s) (auto simp: skip_ws_def)

text \<open>The guards of the recursion hold: reading takes up text.\<close>

lemma json_value_eq:
  "json_value other s =
     (case skip_ws s of
        [] \<Rightarrow> None
      | c # r \<Rightarrow>
          if c = 34 then map_option (\<lambda>(t, r'). (JStr t, r')) (json_chars r)
          else if c = 91
          then (if skip_ws r \<noteq> [] \<and> hd (skip_ws r) = 93 then Some (JList [], tl (skip_ws r))
                else map_option (\<lambda>(vs, r'). (JList vs, r')) (json_list other r))
          else if c = 123
          then (if skip_ws r \<noteq> [] \<and> hd (skip_ws r) = 125 then Some (JObj [], tl (skip_ws r))
                else map_option (\<lambda>(kvs, r'). (JObj kvs, r')) (json_members other [] r))
          else json_atom other (c # r))"
proof -
  have "length r < length s" if "skip_ws s = c # r" for c r
    using skip_ws_shorter [of s] that by simp
  then show ?thesis by (subst json_value.simps) (auto split: list.splits)
qed

lemma json_chars_shorter: "json_chars s = Some (t, r) \<Longrightarrow> length r < length s"
  by (induction s arbitrary: t rule: json_chars.induct)
    (fastforce split: if_splits option.splits dest!: json_escape_shorter)+

lemma json_number_shorter: "json_number other s = Some (v, r) \<Longrightarrow> length r < length s"
  by (cases s) (auto simp: json_number_def number_parts_def number_digits_def Let_def split: if_splits)

lemma json_atom_shorter: "json_atom other s = Some (v, r) \<Longrightarrow> length r < length s"
  by (cases s) (auto simp: json_atom_def json_literals_def ustr_def split: if_splits dest!: json_number_shorter)

lemma reading_shorter:
  "json_value other s = Some (v, r) \<Longrightarrow> length r < length s"
  "json_list other s = Some (vs, r) \<Longrightarrow> length r < length s"
  "json_members other kvs s = Some (kvs', r) \<Longrightarrow> length r < length s"
proof (induction other s and other s and other kvs s arbitrary: v r and vs r and kvs' r rule: json_value_json_list_json_members.induct)
  case (1 other s)
  obtain c t where t: "skip_ws s = c # t" "length t < length s"
    using 1(3) skip_ws_shorter [of s] by (cases "skip_ws s") (auto simp: json_value.simps [of other s])
  show ?case
    using 1 t skip_ws_shorter [of t]
    by (fastforce simp: json_value.simps [of other s] split: if_splits dest: json_chars_shorter json_atom_shorter)
next
  case (2 other s)
  obtain v1 r1 where v: "json_value other s = Some (v1, r1)" "length r1 < length s"
    using 2(1,3) by (auto simp: json_list.simps [of other s] split: option.splits)
  obtain c t where t: "skip_ws r1 = c # t" "length t < length r1"
    using 2(3) v skip_ws_shorter [of r1] by (cases "skip_ws r1") (auto simp: json_list.simps [of other s])
  show ?case using 2(2) [OF v(1)] 2(3) v t by (fastforce simp: json_list.simps [of other s] split: if_splits)
next
  case (3 other kvs s)
  obtain t where t: "skip_ws s = 34 # t" "length t < length s"
    using 3(3) skip_ws_shorter [of s] by (cases "skip_ws s") (auto simp: json_members.simps [of other kvs s] split: if_splits)
  obtain k r1 where k: "json_chars t = Some (k, r1)" "length r1 < length t"
    using 3(3) t by (auto simp: json_members.simps [of other kvs s] split: option.splits dest: json_chars_shorter)
  obtain w where w: "skip_ws r1 = 58 # w" "length w < length r1"
    using 3(3) t k skip_ws_shorter [of r1] by (cases "skip_ws r1") (auto simp: json_members.simps [of other kvs s] split: if_splits)
  obtain v1 r2 where v: "json_value other w = Some (v1, r2)" "length r2 < length w"
    using 3(1) [OF t(1) _ k(1)] 3(3) t k w by (auto simp: json_members.simps [of other kvs s] split: option.splits)
  obtain c r3 where c: "skip_ws r2 = c # r3" "length r3 < length r2"
    using 3(3) t k w v skip_ws_shorter [of r2] by (cases "skip_ws r2") (auto simp: json_members.simps [of other kvs s])
  show ?case using 3(2) [OF t(1) _ k(1)] 3(3) t k w v c
    by (fastforce simp: json_members.simps [of other kvs s] Let_def split: if_splits)
qed

text \<open>So the guards of the recursion never refuse.\<close>

lemma json_list_eq:
  "json_list other s =
     (case json_value other s of
        None \<Rightarrow> None
      | Some (v, r) \<Rightarrow>
          (case skip_ws r of
             [] \<Rightarrow> None
           | c # r1 \<Rightarrow>
               if c = 44 then map_option (\<lambda>(vs, r'). (v # vs, r')) (json_list other r1) else if c = 93 then Some ([v], r1) else None))"
proof -
  have "length r1 < length s" if "json_value other s = Some (v, r)" "skip_ws r = c # r1" for v r c r1
    using reading_shorter(1) [OF that(1)] skip_ws_shorter [of r] that(2) by simp
  then show ?thesis by (subst json_list.simps) (auto split: list.splits option.splits)
qed

lemma json_members_eq:
  "json_members other kvs s =
     (case skip_ws s of
        [] \<Rightarrow> None
      | q # r \<Rightarrow>
          if q \<noteq> 34 then None
          else
            (case json_chars r of
               None \<Rightarrow> None
             | Some (k, r1) \<Rightarrow>
                 if skip_ws r1 = [] \<or> hd (skip_ws r1) \<noteq> 58 then None
                 else
                   (case json_value other (tl (skip_ws r1)) of
                      None \<Rightarrow> None
                    | Some (v, r2) \<Rightarrow>
                        (case skip_ws r2 of
                           [] \<Rightarrow> None
                         | c # r3 \<Rightarrow>
                             if c = 44 then json_members other (AList.update k v kvs) r3
                             else if c = 125 then Some (AList.update k v kvs, r3) else None))))"
proof -
  have l: "length (tl (skip_ws r1)) < length s" if "skip_ws s = q # r" "json_chars r = Some (k, r1)" for q r k r1
    using json_chars_shorter [OF that(2)] skip_ws_shorter [of s] skip_ws_shorter [of r1] that(1) by simp
  moreover have "length r3 < length s"
    if "skip_ws s = q # r" "json_chars r = Some (k, r1)" "json_value other (tl (skip_ws r1)) = Some (v, r2)" "skip_ws r2 = c # r3"
    for q r k r1 v r2 c r3
    using l [OF that(1,2)] reading_shorter(1) [OF that(3)] skip_ws_shorter [of r2] that(4) by simp
  ultimately show ?thesis
    by (subst json_members.simps) (fastforce simp: Let_def not_le split: list.splits option.splits)
qed


lemma json_value_blank: "blank w \<Longrightarrow> json_value other (w @ s) = json_value other s"
  by (simp only: json_value_eq [of other "w @ s"] json_value_eq [of other s] skip_ws_blank)

lemma json_list_blank: "blank w \<Longrightarrow> json_list other s = Some x \<Longrightarrow> json_list other (w @ s) = Some x"
  by (auto simp: json_list.simps [of other s] json_list.simps [of other "w @ s"] json_value_blank
      split: option.splits list.splits if_splits)

lemma json_members_blank: "blank w \<Longrightarrow> json_members other kvs s = Some x \<Longrightarrow> json_members other kvs (w @ s) = Some x"
  by (auto simp: json_members.simps [of other kvs s] json_members.simps [of other kvs "w @ s"] skip_ws_blank Let_def
      split: option.splits list.splits if_splits)

text \<open>
  A value's text begins with a character that is neither blank nor a closing bracket, and what may follow it in the three
  layouts ends a number.
\<close>

definition opens :: "ustring \<Rightarrow> bool" where
  "opens s \<longleftrightarrow> s \<noteq> [] \<and> hd s \<notin> {32, 9, 10, 13, 93, 125}"

lemma opens_layout: "writable v \<Longrightarrow> opens (json_layout nl isp ksp d v @ r)"
proof (cases v)
  case (JInt i)
  obtain c u where n: "nat_str (nat \<bar>i\<bar>) = c # u" "is_digit c"
    using nat_str_facts [of "nat \<bar>i\<bar>"] by (cases "nat_str (nat \<bar>i\<bar>)") auto
  then have "int_str i = (if i < 0 then 45 # c # u else c # u)" by (cases "i < 0") (simp_all add: int_str_def)
  then show ?thesis using JInt n(2) by (auto simp: opens_def is_digit_def)
qed (auto simp: opens_def ustr_def json_string_def)

lemma stops_simps [simp]: "stops (c # r) \<longleftrightarrow> \<not> is_digit c \<and> c \<notin> {46, 69, 101}" "stops []"
  by (auto simp: stops_def)

lemma stops_blank: "blank w \<Longrightarrow> stops r \<Longrightarrow> stops (w @ r)"
  by (cases w) (auto simp: blank_def is_digit_def)

lemma skip_ws_opens: "opens s \<Longrightarrow> skip_ws s = s"
  by (rule skip_ws_stop) (auto simp: opens_def)

text \<open>One element more: the separator and the elements after it, or the closing bracket.\<close>

lemma json_list_step:
  assumes "json_value other s = Some (v, r)"
  shows "skip_ws r = 44 # t \<Longrightarrow> json_list other t = Some (vs, r') \<Longrightarrow> json_list other s = Some (v # vs, r')"
    and "skip_ws r = 93 # t \<Longrightarrow> json_list other s = Some ([v], t)"
  using assms by (simp_all add: json_list_eq [of other s])

lemma json_members_step:
  assumes "json_chars u = Some (k, 58 # w)" "json_value other w = Some (v, r)"
  shows "skip_ws r = 44 # t \<Longrightarrow> json_members other (AList.update k v kvs) t = Some x \<Longrightarrow> json_members other kvs (34 # u) = Some x"
    and "skip_ws r = 125 # t \<Longrightarrow> json_members other kvs (34 # u) = Some (AList.update k v kvs, t)"
proof -
  have "skip_ws (34 # u) = 34 # u" "skip_ws (58 # w) = 58 # w" by (simp_all add: skip_ws_def)
  then show "skip_ws r = 44 # t \<Longrightarrow> json_members other (AList.update k v kvs) t = Some x \<Longrightarrow> json_members other kvs (34 # u) = Some x"
    "skip_ws r = 125 # t \<Longrightarrow> json_members other kvs (34 # u) = Some (AList.update k v kvs, t)"
    using assms by (simp_all add: json_members_eq [of other kvs "34 # u"])
qed

lemma update_new: "k \<notin> fst ` set kvs \<Longrightarrow> AList.update k v kvs = kvs @ [(k, v)]"
  by (induction kvs) auto

lemma json_value_string: "json_value other (34 # s) = map_option (\<lambda>(t, r). (JStr t, r)) (json_chars s)"
  by (simp add: json_value_eq [of other "34 # s"] skip_ws_def)

lemma json_value_list:
  assumes "blank w" "opens s"
  shows "json_value other (91 # w @ s) = map_option (\<lambda>(vs, r). (JList vs, r)) (json_list other (w @ s))"
proof -
  have "skip_ws (w @ s) = s" "skip_ws (91 # w @ s) = 91 # w @ s"
    using assms by (simp_all add: skip_ws_blank skip_ws_opens) (simp add: skip_ws_def)
  then show ?thesis using assms(2) by (simp add: json_value_eq [of other "91 # w @ s"] opens_def)
qed

lemma json_value_dict:
  assumes "blank w" "opens s"
  shows "json_value other (123 # w @ s) = map_option (\<lambda>(kvs, r). (JObj kvs, r)) (json_members other [] (w @ s))"
proof -
  have "skip_ws (w @ s) = s" "skip_ws (123 # w @ s) = 123 # w @ s"
    using assms by (simp_all add: skip_ws_blank skip_ws_opens) (simp add: skip_ws_def)
  then show ?thesis using assms(2) by (simp add: json_value_eq [of other "123 # w @ s"] opens_def)
qed

lemma json_value_int:
  assumes "stops r" "length (int_str i) \<le> 4300"
  shows "json_value other (int_str i @ r) = Some (JInt i, r)"
proof -
  have o: "opens (int_str i @ r)" using opens_layout [of "JInt i" "\<lambda>_. []" "[]" "[]" 0 r] assms(2) by simp
  obtain c u where c: "int_str i @ r = c # u" using o by (cases "int_str i @ r") (auto simp: opens_def)
  obtain a b where n: "nat_str (nat \<bar>i\<bar>) = a # b" "is_digit a"
    using nat_str_facts [of "nat \<bar>i\<bar>"] by (cases "nat_str (nat \<bar>i\<bar>)") auto
  then have "int_str i = (if i < 0 then 45 # a # b else a # b)" by (cases "i < 0") (simp_all add: int_str_def)
  then have "c = 45 \<or> is_digit c" using c n(2) by (auto split: if_splits)
  then have "c \<notin> {34, 91, 123}" by (auto simp: is_digit_def)
  then show ?thesis using json_int_read [OF assms, of other] skip_ws_opens [OF o] unfolding c
    by (simp add: json_value_eq [of other "c # u"])
qed

lemma json_value_name:
  assumes "(w, v) \<in> {(ustr ''null'', JNull), (ustr ''true'', JBool True), (ustr ''false'', JBool False)}"
  shows "json_value other (w @ r) = Some (v, r)"
  using assms by (auto simp: json_value_eq [of other "ustr ''null'' @ r"] json_value_eq [of other "ustr ''true'' @ r"]
      json_value_eq [of other "ustr ''false'' @ r"] json_value_eq [of other "_ # _"] skip_ws_def ustr_def json_atom_def json_literals_def)

text \<open>
  One element of a list, one member of a dict: what is read of the joined texts, given that the value's text is read back.
\<close>

lemma layout_items_read:
  assumes "\<And>t. stops t \<Longrightarrow> json_value other (x @ t) = Some (v, t)"
    and "xs \<noteq> [] \<Longrightarrow> json_list other (str_join (44 # sep) xs @ w @ 93 # r) = Some (vs, r)"
    and "xs = [] \<Longrightarrow> vs = []" "blank sep" "blank w"
  shows "json_list other (str_join (44 # sep) (x # xs) @ w @ 93 # r) = Some (v # vs, r)"
proof (cases xs)
  case Nil
  have "stops (w @ 93 # r)" using stops_blank [OF assms(5)] by (simp add: is_digit_def)
  moreover have "skip_ws (w @ 93 # r) = 93 # r" using skip_ws_blank [OF assms(5), of "93 # r"] by (simp add: skip_ws_def)
  ultimately show ?thesis using json_list_step(2) [OF assms(1), of "w @ 93 # r"] assms(3) Nil by simp
next
  case (Cons y ys)
  let ?t = "sep @ str_join (44 # sep) xs @ w @ 93 # r"
  have "json_list other ?t = Some (vs, r)" using json_list_blank [OF assms(4) assms(2)] Cons by simp
  moreover have "stops (44 # ?t)" "skip_ws (44 # ?t) = 44 # ?t" by (simp_all add: is_digit_def skip_ws_def)
  ultimately show ?thesis using json_list_step(1) [OF assms(1), of "44 # ?t"] Cons by simp
qed

lemma layout_members_read:
  assumes "\<And>t. stops t \<Longrightarrow> json_value other (x @ t) = Some (v, t)" "encodable k" "blank ksp"
    and "xs \<noteq> [] \<Longrightarrow> json_members other (AList.update k v kvs) (str_join (44 # sep) xs @ w @ 125 # r) = Some (kvs', r)"
    and "xs = [] \<Longrightarrow> kvs' = AList.update k v kvs" "blank sep" "blank w"
  shows "json_members other kvs (str_join (44 # sep) ((json_string k @ 58 # ksp @ x) # xs) @ w @ 125 # r) = Some (kvs', r)"
proof -
  define cs where "cs = concat (map json_char k) @ [34 :: nat]"
  have k: "json_string k = 34 # cs" by (simp add: json_string_def cs_def)
  have c: "json_chars (cs @ t) = Some (k, t)" for t using json_string_read [OF assms(2), of t] by (simp add: cs_def)
  have x: "json_value other (ksp @ x @ t) = Some (v, t)" if "stops t" for t
    using assms(1) [OF that] json_value_blank [OF assms(3)] by simp
  show ?thesis
  proof (cases xs)
    case Nil
    have "stops (w @ 125 # r)" using stops_blank [OF assms(7)] by (simp add: is_digit_def)
    moreover have "skip_ws (w @ 125 # r) = 125 # r" using skip_ws_blank [OF assms(7), of "125 # r"] by (simp add: skip_ws_def)
    ultimately show ?thesis using json_members_step(2) [OF c x, of "w @ 125 # r"] assms(5) Nil k by simp
  next
    case (Cons y ys)
    let ?t = "sep @ str_join (44 # sep) xs @ w @ 125 # r"
    have "json_members other (AList.update k v kvs) ?t = Some (kvs', r)"
      using json_members_blank [OF assms(6) assms(4)] Cons by simp
    moreover have "stops (44 # ?t)" "skip_ws (44 # ?t) = 44 # ?t" by (simp_all add: is_digit_def skip_ws_def)
    ultimately show ?thesis using json_members_step(1) [OF c x, of "44 # ?t"] Cons k by simp
  qed
qed

lemma layout_parts_empty [simp]:
  "json_layout_items nl isp ksp d xs = [] \<longleftrightarrow> xs = []" "json_layout_members nl isp ksp d kvs = [] \<longleftrightarrow> kvs = []"
  by (cases xs; simp) (cases kvs; auto)

lemma opens_join: "opens x \<Longrightarrow> opens (str_join sep (x # xs) @ t)"
  by (cases xs; cases x) (auto simp: opens_def)

text \<open>A written value is read back, whatever blanks the layout puts between its parts.\<close>

lemma layout_read:
  assumes "\<And>d. blank (nl d)" "blank isp" "blank ksp"
  shows "writable v \<Longrightarrow> stops r \<Longrightarrow> json_value other (json_layout nl isp ksp d v @ r) = Some (v, r)"
    and "xs \<noteq> [] \<Longrightarrow> list_all writable xs \<Longrightarrow> blank w \<Longrightarrow>
      json_list other (str_join (44 # isp @ nl d) (json_layout_items nl isp ksp d xs) @ w @ 93 # r) = Some (xs, r)"
    and "kvs \<noteq> [] \<Longrightarrow> list_all (\<lambda>kv. encodable (fst kv) \<and> writable (snd kv)) kvs \<Longrightarrow> distinct (map fst kvs) \<Longrightarrow>
      fst ` set kvs \<inter> fst ` set acc = {} \<Longrightarrow> blank w \<Longrightarrow>
      json_members other acc (str_join (44 # isp @ nl d) (json_layout_members nl isp ksp d kvs) @ w @ 125 # r) = Some (acc @ kvs, r)"
  using assms
proof (induction nl isp ksp d v and nl isp ksp d xs and nl isp ksp d kvs arbitrary: r and r w and acc r w
    rule: json_layout_json_layout_items_json_layout_members.induct)
  case (1 nl isp ksp d)
  show ?case using json_value_name [of "ustr ''null''"] by simp
next
  case (2 nl isp ksp d b)
  show ?case using json_value_name [of "ustr ''true''"] json_value_name [of "ustr ''false''"] by simp
next
  case (3 nl isp ksp d i)
  then show ?case using json_value_int by simp
next
  case (5 nl isp ksp d s)
  then show ?case using json_string_read by (simp add: json_string_def json_value_string)
next
  case (6 nl isp ksp d xs)
  show ?case
  proof (cases xs)
    case Nil
    then show ?thesis by (simp add: json_value_eq [of other "91 # _"] skip_ws_def)
  next
    case (Cons y ys)
    have "opens (json_layout nl isp ksp (Suc d) y)" using opens_layout [of y nl isp ksp "Suc d" "[]"] 6(2) Cons by simp
    then have o: "opens (str_join (44 # isp @ nl (Suc d)) (json_layout_items nl isp ksp (Suc d) xs) @ nl d @ 93 # r)"
      unfolding Cons json_layout_items.simps by (rule opens_join)
    have "json_list other (str_join (44 # isp @ nl (Suc d)) (json_layout_items nl isp ksp (Suc d) xs) @ nl d @ 93 # r) = Some (xs, r)"
      using 6 Cons by simp
    then show ?thesis using json_value_list [OF 6(4) o] json_list_blank [OF 6(4)] Cons by simp
  qed
next
  case (7 nl isp ksp d kvs)
  show ?case
  proof (cases kvs)
    case Nil
    then show ?thesis by (simp add: json_value_eq [of other "123 # _"] skip_ws_def)
  next
    case (Cons kv rest)
    obtain k v where kv: "kv = (k, v)" by (cases kv)
    have o: "opens (str_join (44 # isp @ nl (Suc d)) (json_layout_members nl isp ksp (Suc d) kvs) @ nl d @ 125 # r)"
      unfolding Cons kv json_layout_members.simps by (rule opens_join) (simp add: opens_def json_string_def)
    have "json_members other [] (str_join (44 # isp @ nl (Suc d)) (json_layout_members nl isp ksp (Suc d) kvs) @ nl d @ 125 # r) = Some (kvs, r)"
      using 7(1) [of "[]" "nl d" r] 7 Cons by simp
    then show ?thesis using json_value_dict [OF 7(4) o] json_members_blank [OF 7(4)] Cons by simp
  qed
next
  case (9 nl isp ksp d x xs)
  show ?case
    unfolding json_layout_items.simps
    by (rule layout_items_read [of other _ x]) (use 9 in \<open>simp_all add: blank_def\<close>)
next
  case (11 nl isp ksp d k v kvs)
  have new: "AList.update k v acc = acc @ [(k, v)]" using 11(6) by (intro update_new) auto
  show ?case
    unfolding json_layout_members.simps
    by (rule layout_members_read [of other _ v])
      (use 11 new in \<open>auto simp add: blank_def\<close>)
qed simp_all

section \<open>The three layouts\<close>

lemma json_dumps_layout:
  "json_layout (\<lambda>_. []) [] [] d v = json_dumps v"
  "json_layout_items (\<lambda>_. []) [] [] d xs = json_dumps_items xs"
  "json_layout_members (\<lambda>_. []) [] [] d kvs = json_dumps_members kvs"
  by (induction v and xs and kvs arbitrary: d and d and d rule: json_dumps_json_dumps_items_json_dumps_members.induct)
    (auto simp: ustr_def)

lemma json_text_layout:
  "json_layout (\<lambda>_. []) [32] [32] d v = json_text v"
  "json_layout_items (\<lambda>_. []) [32] [32] d xs = json_text_items xs"
  "json_layout_members (\<lambda>_. []) [32] [32] d kvs = json_text_members kvs"
  by (induction v and xs and kvs arbitrary: d and d and d rule: json_text_json_text_items_json_text_members.induct)
    (auto simp: ustr_def)

text \<open>\<open>json.dumps(v, indent=2)\<close> and a line feed, as the contact cache is written.\<close>

definition json_file :: "json \<Rightarrow> ustring" where
  "json_file v = json_layout (\<lambda>d. 10 # replicate (2 * d) 32) [] [32] 0 v @ [10]"

lemma layout_loads:
  assumes "writable v" "\<And>d. blank (nl d)" "blank isp" "blank ksp" "blank w"
  shows "json_loads other (json_layout nl isp ksp d v @ w) = Inr v"
proof -
  have "stops w" using stops_blank [OF assms(5), of "[]"] by simp
  moreover have "skip_ws w = []" using skip_ws_blank [OF assms(5), of "[]"] by (simp add: skip_ws_def)
  ultimately show ?thesis using layout_read(1) [OF assms(2-4,1)] by (simp add: json_loads_def)
qed

lemma blank_simps [simp]: "blank []" "blank (c # w) \<longleftrightarrow> c \<in> {32, 9, 10, 13} \<and> blank w" "blank (replicate n 32)"
  by (auto simp: blank_def)

lemma writable_text_read:
  assumes "writable v"
  shows "json_loads other (json_dumps v) = Inr v" "json_loads other (json_text v) = Inr v" "json_loads other (json_file v) = Inr v"
  using layout_loads [OF assms, of "\<lambda>_. []" "[]" "[]" "[]" other 0] layout_loads [OF assms, of "\<lambda>_. []" "[32]" "[32]" "[]" other 0]
    layout_loads [OF assms, of "\<lambda>d. 10 # replicate (2 * d) 32" "[]" "[32]" "[10]" other 0]
  by (simp_all add: json_dumps_layout json_text_layout json_file_def)

text \<open>The texts have no zero byte: \<open>json.loads\<close> takes their bytes for UTF-8.\<close>

definition plain :: "ustring \<Rightarrow> bool" where
  "plain s \<longleftrightarrow> (\<forall>c \<in> set s. 0 < c \<and> c < 128)"

lemma plain_simps [simp]: "plain []" "plain (c # s) \<longleftrightarrow> 0 < c \<and> c < 128 \<and> plain s" "plain (s @ t) \<longleftrightarrow> plain s \<and> plain t"
  by (auto simp: plain_def)

lemma plain_string: "plain (json_string s)"
proof -
  have "0 < hex_digit m" for m by (simp add: hex_digit_def)
  then have "plain (hex4 n)" for n using ascii_hex4 [of n] by (auto simp: hex4_def)
  then have "plain (json_char c)" for c by (simp add: json_char_def ustr_def)
  then show ?thesis by (auto simp: json_string_def plain_def)
qed

lemma plain_int: "plain (int_str i)"
  using nat_str_digits by (fastforce simp: plain_def int_str_def)

lemma plain_join: "plain sep \<Longrightarrow> list_all plain ss \<Longrightarrow> plain (str_join sep ss)"
  by (induction sep ss rule: str_join.induct) simp_all

lemma plain_text:
  "writable v \<Longrightarrow> plain (json_text v)"
  "list_all writable xs \<Longrightarrow> list_all plain (json_text_items xs)"
  "list_all (\<lambda>kv. encodable (fst kv) \<and> writable (snd kv)) kvs \<Longrightarrow> list_all plain (json_text_members kvs)"
proof (induction v and xs and kvs rule: json_text_json_text_items_json_text_members.induct)
  case (6 xs)
  then show ?case using plain_join [of "ustr '', ''" "json_text_items xs"] by (simp add: ustr_def)
next
  case (7 kvs)
  then show ?case using plain_join [of "ustr '', ''" "json_text_members kvs"] by (simp add: ustr_def)
qed (simp_all add: plain_string plain_int, simp_all add: ustr_def)

lemma encodable_ascii: "ascii s \<Longrightarrow> encodable s"
  by (auto simp: ascii_def encodable_def list_all_iff surrogate_def)

lemma encodable_hex: "encodable (bytes_hex p)"
proof (rule encodable_ascii)
  have d: "hex_digit d < 128" if "d < 16" for d using that by (simp add: hex_digit_def)
  have "unat b div 16 < 16" for b :: byte
  proof -
    have "unat b < 256" using unsigned_less [of b] by simp
    then show ?thesis by (simp add: less_mult_imp_div_less)
  qed
  then have "ascii [hex_digit (unat b div 16), hex_digit (unat b mod 16)]" for b :: byte by (simp add: d)
  then show "ascii (bytes_hex p)" unfolding bytes_hex_def by (induction p) simp_all
qed

lemma small_int_str:
  assumes "0 \<le> i" "i < 1000"
  shows "length (int_str i) \<le> 4300"
proof -
  have "nat i div 10 < 100" "nat i div 10 div 10 < 10" using assms by simp_all
  then have "length (nat_str (nat i)) \<le> 3"
    by (simp add: nat_str.simps [of "nat i"] nat_str.simps [of "nat i div 10"] nat_str.simps [of "nat i div 10 div 10"])
  then show ?thesis using assms(1) by (simp add: int_str_def)
qed

section \<open>Properties\<close>



end
