(* ===== verification/ContactCache.thy ===== *)
theory ContactCache
  imports EchoInvariant JsonRead
begin

unbundle bit_operations_syntax

text \<open>
  The echo server's contact cache: what \<open>save_contact_cache\<close> writes, \<open>load_contact_cache\<close> reads back,
  and what a damaged file does to the start of the server.
\<close>

section \<open>Loading what was saved\<close>

definition cached_name :: "ustring \<Rightarrow> ustring" where
  "cached_name n = (if n = [] then ustr ''cached-contact'' else n)"

lemma load_cache_entry:
  assumes "length k = 32" "path_hash k = Inr h"
  shows "load_entry N (cache_entry (k, n)) s = (Inr (), put_contact h k (cached_name n) s)"
  using assms
  by (simp add: load_entry_def cache_entry_def json_get_def ustr_def cached_name_def io_defs add_contact_eq [OF assms(2), unfolded io_defs])

lemma update_absent: "k \<notin> fst ` set al \<Longrightarrow> AList.update k v al = al @ [(k, v)]"
  by (induction al) auto

lemma update_snoc: "k \<notin> fst ` set al \<Longrightarrow> AList.update k v (al @ [(k, w)]) = al @ [(k, v)]"
  by (induction al) auto

text \<open>Loading the contacts of one group after the other rebuilds the groups.\<close>

lemma load_group:
  assumes "\<forall>(k, n) \<in> set g. length k = 32 \<and> path_hash k = Inr h" "distinct (map fst g)" "h \<notin> fst ` set cs"
    and "es_contacts s = (if done = [] then cs else cs @ [(h, done)])" "fst ` set done \<inter> fst ` set g = {}"
  shows "forIO (map cache_entry g) (load_entry N) s =
    (Inr (), s\<lparr>es_contacts := (if done = [] \<and> g = [] then cs
       else cs @ [(h, done @ map (\<lambda>(k, n). (k, cached_name n)) g)])\<rparr>)"
  using assms
proof (induction g arbitrary: s "done")
  case Nil
  then show ?case by (simp add: returnIO_def)
next
  case (Cons c g)
  obtain k n where c: "c = (k, n)" by (cases c)
  have k: "length k = 32" "path_hash k = Inr h" using Cons.prems(1) c by auto
  let ?s1 = "put_contact h k (cached_name n) s"
  have at: "contacts_at s h = done"
  proof -
    have "map_of cs h = None" using Cons.prems(3) by (simp add: map_of_eq_None_iff)
    then show ?thesis using Cons.prems(4) by (simp add: contacts_at_def map_add_def)
  qed
  have "k \<notin> fst ` set done" using Cons.prems(5) c by auto
  then have s1: "es_contacts ?s1 = cs @ [(h, done @ [(k, cached_name n)])]"
    using Cons.prems(3,4) by (auto simp: put_contact_def at update_absent update_snoc)
  have "forIO (map cache_entry g) (load_entry N) ?s1 = (Inr (), ?s1\<lparr>es_contacts :=
      (if done @ [(k, cached_name n)] = [] \<and> g = [] then cs
       else cs @ [(h, (done @ [(k, cached_name n)]) @ map (\<lambda>(k, n). (k, cached_name n)) g)])\<rparr>)"
    by (rule Cons.IH) (use Cons.prems c s1 in auto)
  then show ?case using k by (simp add: c bindIO_def load_cache_entry put_contact_def)
qed

lemma forIO_append: "forIO (xs @ ys) body = bindIO (forIO xs body) (\<lambda>_. forIO ys body)"
  by (induction xs) (auto simp: fun_eq_iff bindIO_def returnIO_def split: prod.splits sum.splits)

lemma load_groups:
  assumes "contacts_ok (es_contacts s @ gs)"
  shows "forIO (map cache_entry (concat (map snd gs))) (load_entry N) s =
    (Inr (), s\<lparr>es_contacts := es_contacts s @ map (\<lambda>(h, g). (h, map (\<lambda>(k, n). (k, cached_name n)) g)) gs\<rparr>)"
  using assms
proof (induction gs arbitrary: s)
  case Nil
  then show ?case by (simp add: returnIO_def)
next
  case (Cons hg gs)
  obtain h g where hg: "hg = (h, g)" by (cases hg)
  let ?g = "map (\<lambda>(k, n). (k, cached_name n)) g"
  let ?s1 = "s\<lparr>es_contacts := es_contacts s @ [(h, ?g)]\<rparr>"
  have g: "g \<noteq> []" "distinct (map fst g)" "\<forall>(k, n) \<in> set g. length k = 32 \<and> path_hash k = Inr h"
    using contacts_okD [OF Cons.prems, of h g] hg by auto
  have new: "h \<notin> fst ` set (es_contacts s)" using Cons.prems hg by (auto simp: contacts_ok_def)
  have one: "forIO (map cache_entry g) (load_entry N) s = (Inr (), ?s1)"
    using load_group [OF g(3,2) new, of s "[]" N] g(1) by simp
  have fst_g: "map fst ?g = map fst g" by (auto simp: comp_def case_prod_beta)
  have "contacts_ok (es_contacts ?s1 @ gs)"
  proof -
    have all: "\<forall>(h, g) \<in> set (es_contacts s @ (h, g) # gs). g \<noteq> [] \<and> distinct (map fst g) \<and>
        (\<forall>(k, n) \<in> set g. length k = 32 \<and> path_hash k = Inr h)"
      and d: "distinct (map fst (es_contacts s @ (h, g) # gs))"
      using Cons.prems hg unfolding contacts_ok_def by auto
    have "?g \<noteq> [] \<and> distinct (map fst ?g) \<and> (\<forall>(k, n) \<in> set ?g. length k = 32 \<and> path_hash k = Inr h)"
      unfolding fst_g using g by auto
    then show ?thesis using all d unfolding contacts_ok_def by auto
  qed
  from Cons.IH [OF this] show ?case by (simp add: hg forIO_append bindIO_def one)
qed

section \<open>Loading a damaged file\<close>

lemma fromhex_raises: "bytes_fromhex s = Inl e \<Longrightarrow> e = ValueError"
  by (induction s rule: bytes_fromhex.induct) (auto split: if_splits option.splits list.splits)

lemma load_entry_raises: "fst (load_entry N item s) = Inr () \<or> fst (load_entry N item s) = Inl ValueError"
proof -
  have add: "fst (bindIO (add_contact k n) (\<lambda>_. returnIO ()) u) = Inr ()" if "length k = 32" for k n and u :: echo_server
  proof -
    have "k \<noteq> []" using that by auto
    then obtain h where "path_hash k = Inr h" using path_hash_total by blast
    then show ?thesis by (simp add: bindIO_def add_contact_eq returnIO_def)
  qed
  show ?thesis
  proof (cases item)
    case (JObj kvs)
    then show ?thesis using add
      by (cases "bytes_fromhex (case json_get (ustr ''pub_key'') kvs of None \<Rightarrow> [] | Some v \<Rightarrow> json_str (en_container_str N) v)")
        (auto simp: load_entry_def bindIO_def [of "liftR _"] liftR_def Let_def returnIO_def dest: fromhex_raises)
  qed (simp_all add: load_entry_def returnIO_def)
qed

lemma load_entries_raise: "fst (forIO items (load_entry N) s) = Inr () \<or> fst (forIO items (load_entry N) s) = Inl ValueError"
proof (induction items arbitrary: s)
  case (Cons item items)
  obtain r u where e: "load_entry N item s = (r, u)" by fastforce
  show ?case using load_entry_raises [of N item s] Cons.IH [of u]
    by (cases r) (simp_all add: bindIO_def e)
qed (simp add: returnIO_def)

lemma load_contact_cache_result:
  "fst (load_contact_cache N s) =
     (if \<exists>kvs v. es_cache s = Some (Some (JObj kvs)) \<and> json_get (ustr ''contacts'') kvs = Some v \<and>
           (\<nexists>xs. v = JList xs) \<and> (\<nexists>kvs. v = JObj kvs) \<and> (\<nexists>t. v = JStr t)
      then Inl TypeError else Inr ())"
proof -
  have loop: "fst (catching (\<lambda>e. e = OSError \<or> caught_by_ValueError e) (bindIO (liftR (json_items v)) (\<lambda>xs. forIO xs (load_entry N))) s) =
      (if (\<nexists>xs. v = JList xs) \<and> (\<nexists>kvs. v = JObj kvs) \<and> (\<nexists>t. v = JStr t) then Inl TypeError else Inr ())" for v
  proof (cases "json_items v")
    case (Inl e)
    then show ?thesis by (cases v) (auto simp: catching_def bindIO_def liftR_def caught_by_ValueError_def)
  next
    case (Inr xs)
    then have "\<not> ((\<nexists>xs. v = JList xs) \<and> (\<nexists>kvs. v = JObj kvs) \<and> (\<nexists>t. v = JStr t))" by (cases v) auto
    then show ?thesis using Inr load_entries_raise [of xs N s]
      by (auto simp: catching_def bindIO_def liftR_def caught_by_ValueError_def split: prod.splits sum.splits)
  qed
  show ?thesis
  proof (cases "es_cache s")
    case None
    then show ?thesis by (simp add: load_contact_cache_def io_defs)
  next
    case (Some content)
    show ?thesis
    proof (cases content)
      case None
      then show ?thesis using Some
        by (simp add: load_contact_cache_def io_defs catching_def caught_by_ValueError_def)
    next
      case raw: (Some j)
      have "fst (load_contact_cache N s) = fst (catching (\<lambda>e. e = OSError \<or> caught_by_ValueError e) (bindIO (liftR (json_items (case j of
          JObj kvs \<Rightarrow> (case json_get (ustr ''contacts'') kvs of None \<Rightarrow> JList [] | Some v \<Rightarrow> v) | _ \<Rightarrow> JList [])))
          (\<lambda>xs. forIO xs (load_entry N))) s)"
        using Some raw by (simp add: load_contact_cache_def bindIO_def [of getIO] getIO_def)
      then show ?thesis unfolding loop using Some raw by (auto split: json.splits option.splits)
    qed
  qed
qed

section \<open>Properties\<close>

text \<open>
  Property (C36): contacts survive a restart. When the cache file can be written, a server that starts
  from it has the contacts of the one that saved it, in the same groups and order, with their names; only an empty
  name comes back as \<open>cached-contact\<close>.
\<close>

theorem contact_cache_roundtrip:
  assumes "echo_ok N A pre s" "\<not> es_cache_fails s"
  shows "load_contact_cache N' (initial_echo (es_cache (snd (save_contact_cache s))) b fails) =
    (Inr (), (initial_echo (es_cache (snd (save_contact_cache s))) b fails)\<lparr>es_contacts :=
       map (\<lambda>(h, g). (h, map (\<lambda>(k, n). (k, if n = [] then ustr ''cached-contact'' else n)) g)) (es_contacts s)\<rparr>)"
proof -
  have "contacts_ok (es_contacts s)" using assms(1) by (simp add: echo_ok_def)
  then have "contacts_ok (es_contacts (initial_echo c b fails) @ es_contacts s)" for c by (simp add: initial_echo_def)
  note l = load_groups [OF this]
  let ?json = "JObj [(ustr ''contacts'', JList (map cache_entry (concat (map snd (es_contacts s)))))]"
  have c: "es_cache (snd (save_contact_cache s)) = Some (Some ?json)"
    using assms(2) by (simp add: save_contact_cache_def io_defs)
  show ?thesis using l unfolding c
    by (simp add: load_contact_cache_def io_defs catching_def json_get_def initial_echo_def cached_name_def [abs_def])
qed

lemma contact_cache_roundtrip_witness:
  "\<forall>N. es_contacts (snd (load_contact_cache N (initial_echo (es_cache (snd (save_contact_cache
      ((initial_echo None False (\<lambda>_. False))\<lparr>es_contacts := [(5, [(5 # replicate 31 5, [104]), (5 # replicate 31 6, [])])]\<rparr>))))
      False (\<lambda>_. False)))) = [(5, [(5 # replicate 31 5, [104]), (5 # replicate 31 6, ustr ''cached-contact'')])]"
proof -
  let ?s = "(initial_echo None False (\<lambda>_. False))\<lparr>es_contacts := [(5, [(5 # replicate 31 5, [104]), (5 # replicate 31 6, [])])]\<rparr>"
  have "replicate 31 5 ! 0 \<noteq> replicate 31 (6 :: byte) ! 0" by simp
  then have "replicate 31 5 \<noteq> replicate 31 (6 :: byte)" by metis
  then have "echo_ok N UNIV [] ?s"
    for N by (simp add: echo_ok_def initial_echo_def contacts_ok_def path_hash_def)
  then show ?thesis
    using contact_cache_roundtrip [of _ UNIV "[]" ?s _ False "\<lambda>_. False"] by (simp add: initial_echo_def)
qed

text \<open>The saved document is the value that is read from the file's text, if the names encode.\<close>

lemma saved_cache_text_is_read:
  assumes "\<not> es_cache_fails s" "\<forall>(h, g) \<in> set (es_contacts s). \<forall>(k, n) \<in> set g. encodable n"
  shows "\<exists>v. es_cache (snd (save_contact_cache s)) = Some (Some v) \<and> json_loads other (json_file v) = Inr v"
proof -
  let ?v = "JObj [(ustr ''contacts'', JList (map cache_entry (concat (map snd (es_contacts s)))))]"
  have "writable (cache_entry c)" if "c \<in> set (concat (map snd (es_contacts s)))" for c
    using that assms(2) encodable_hex by (fastforce simp: cache_entry_def ustr_def encodable_def surrogate_def)
  then have "writable ?v" by (auto simp: list_all_iff ustr_def encodable_def surrogate_def)
  then have "json_loads other (json_file ?v) = Inr ?v" by (rule writable_text_read(3))
  then show ?thesis using assms(1) by (simp add: save_contact_cache_def io_defs)
qed

text \<open>
  A damaged cache can keep the server from starting. A missing file, text that is not
  JSON, a document of another shape, entries without a key of 32 bytes and bad hexadecimal are at most logged;
  but a \<open>contacts\<close> member that is \<open>null\<close>, a truth value or a number raises the \<open>TypeError\<close> of
  iterating it, which nothing catches.
\<close>

lemma null_contacts_stop_start:
  "fst (load_contact_cache N s) =
     (if \<exists>kvs v. es_cache s = Some (Some (JObj kvs)) \<and> json_get (ustr ''contacts'') kvs = Some v \<and>
           (\<nexists>xs. v = JList xs) \<and> (\<nexists>kvs. v = JObj kvs) \<and> (\<nexists>t. v = JStr t)
      then Inl TypeError else Inr ())"
  by (rule load_contact_cache_result)

end
