(* ===== verification/EchoConfig.thy ===== *)
theory EchoConfig
  imports PyStr Crypto Identity
begin

text \<open>
  The two lists of keys in the echo server's environment (\<open>home_auto_client/config.py\<close>): the public keys
  of configured contacts, and the channels it watches.
\<close>

section \<open>Reading the lists\<close>

text \<open>\<open>s.split(sep)\<close> on one character.\<close>

fun str_split :: "nat \<Rightarrow> ustring \<Rightarrow> ustring list" where
  "str_split sep [] = [[]]"
| "str_split sep (c # s) =
     (if c = sep then [] # str_split sep s
      else (case str_split sep s of x # xs \<Rightarrow> (c # x) # xs | [] \<Rightarrow> [[c]]))"

definition parse_pub_keys :: "ustring \<Rightarrow> bytes list res" where
  "parse_pub_keys raw =
     bindR (mapR (\<lambda>item.
        let hex_key = removeprefix (ustr ''0x'') (str_strip item) in
        if hex_key = [] then Inr []
        else bindR (bytes_fromhex hex_key) (\<lambda>pub_key. if length pub_key \<noteq> 32 then Inl ValueError else Inr [pub_key]))
       (str_split 44 (map (\<lambda>c. if c = 59 then 44 else c) raw))) (\<lambda>keys. Inr (concat keys))"

definition parse_monitor_keys :: "crypto_lib \<Rightarrow> ustring \<Rightarrow> bytes list res" where
  "parse_monitor_keys C raw =
     (if str_strip raw = [] then Inr []
      else
        mapR (\<lambda>item.
          let entry = str_strip item in
          if entry = [] then Inr (sha256 C [])
          else
            let stripped = removeprefix (ustr ''0x'') entry in
            if length stripped = 64 \<and> list_all (\<lambda>c. hex_value c \<noteq> None) stripped then bytes_fromhex stripped
            else bindR (utf8_encode entry) (\<lambda>p. Inr (sha256 C p)))
          (str_split 44 raw))"

section \<open>Facts\<close>

lemma str_split_join:
  assumes "xs \<noteq> []" "\<And>x. x \<in> set xs \<Longrightarrow> sep \<notin> set x"
  shows "str_split sep (str_join [sep] xs) = xs"
proof -
  have one: "sep \<notin> set x \<Longrightarrow> str_split sep x = [x]" for x by (induction x) auto
  have two: "sep \<notin> set x \<Longrightarrow> str_split sep (x @ sep # s) = x # str_split sep s" for x s by (induction x) auto
  show ?thesis using assms by (induction "[sep]" xs rule: str_join.induct) (simp_all add: one two)
qed

lemma bytes_hex_chars: "c \<in> set (bytes_hex p) \<Longrightarrow> 48 \<le> c \<and> c \<le> 57 \<or> 97 \<le> c \<and> c \<le> 102"
proof -
  have d: "d < 16 \<Longrightarrow> 48 \<le> hex_digit d \<and> hex_digit d \<le> 57 \<or> 97 \<le> hex_digit d \<and> hex_digit d \<le> 102" for d
    by (auto simp: hex_digit_def)
  have u: "unat (b :: byte) div 16 < 16" "unat b mod 16 < 16" for b
  proof -
    have "unat b < 256" using unsigned_less [of b] by simp
    then show "unat b div 16 < 16" "unat b mod 16 < 16" by auto
  qed
  note digit = d [OF u(1)] d [OF u(2)]
  show "c \<in> set (bytes_hex p) \<Longrightarrow> 48 \<le> c \<and> c \<le> 57 \<or> 97 \<le> c \<and> c \<le> 102"
    using digit by (auto simp: bytes_hex_def)
qed

lemma str_strip_hex [simp]: "str_strip (bytes_hex p) = bytes_hex p"
proof -
  have s: "\<forall>c \<in> set q. \<not> py_space c \<Longrightarrow> dropWhile py_space q = q" for q by (induction q) auto
  have "\<forall>c \<in> set (bytes_hex p). \<not> py_space c" using bytes_hex_chars by (fastforce simp: py_space_def)
  then show ?thesis by (simp add: str_strip_def s)
qed

lemma removeprefix_hex [simp]: "removeprefix (ustr ''0x'') (bytes_hex p) = bytes_hex p"
proof -
  have "take 2 (bytes_hex p) \<noteq> [48, 120]"
  proof
    assume "take 2 (bytes_hex p) = [48, 120]"
    then have "120 \<in> set (bytes_hex p)" by (metis in_set_takeD list.set_intros)
    then show False using bytes_hex_chars by fastforce
  qed
  moreover have "ustr ''0x'' = [48, 120]" "length (ustr ''0x'') = 2" by (simp_all add: ustr_def)
  ultimately show ?thesis unfolding removeprefix_def by presburger
qed

text \<open>Keys written as hexadecimal text, separated by commas, are read back.\<close>

lemma pub_keys_roundtrip:
  assumes "\<forall>k \<in> set ks. length k = 32"
  shows "parse_pub_keys (str_join [44] (map bytes_hex ks)) = Inr ks"
proof (cases "ks = []")
  case True
  then show ?thesis by (simp add: parse_pub_keys_def str_strip_def removeprefix_def)
next
  case False
  let ?raw = "str_join [44] (map bytes_hex ks)"
  have sep: "44 \<notin> set (bytes_hex k)" "59 \<notin> set (bytes_hex k)" for k using bytes_hex_chars [of _ k] by fastforce+
  have "59 \<notin> set (str_join [44] xs)" if "\<forall>x \<in> set xs. 59 \<notin> set x" for xs :: "ustring list"
    using that by (induction "[44 :: nat]" xs rule: str_join.induct) auto
  then have "59 \<notin> set ?raw" using sep by simp
  then have m: "map (\<lambda>c. if c = 59 then 44 else c) ?raw = ?raw" by (intro map_idI) auto
  have sp: "str_split 44 ?raw = map bytes_hex ks" by (rule str_split_join) (use False sep in auto)
  have ne: "bytes_hex k \<noteq> []" if "k \<in> set ks" for k using that assms length_bytes_hex [of k] by (metis list.size(3) mult_eq_0_iff zero_neq_numeral)
  have "mapR (\<lambda>item. let hex_key = removeprefix (ustr ''0x'') (str_strip item) in
        if hex_key = [] then Inr []
        else bindR (bytes_fromhex hex_key) (\<lambda>pub_key. if length pub_key \<noteq> 32 then Inl ValueError else Inr [pub_key]))
      (map bytes_hex ks) = Inr (map (\<lambda>k. [k]) ks)"
    using assms ne by (induction ks) auto
  then show ?thesis unfolding parse_pub_keys_def m sp by (simp del: bindR_eq_Inr_iff)
qed

text \<open>A channel key written as hexadecimal text is used as it is; every other entry is hashed.\<close>

lemma monitor_keys_hex:
  assumes "length k = 32"
  shows "parse_monitor_keys C (bytes_hex k) = Inr [k]"
proof -
  have l: "bytes_hex k \<noteq> []" using length_bytes_hex [of k] assms by (metis list.size(3) mult_eq_0_iff zero_neq_numeral)
  have "44 \<notin> set (bytes_hex k)" using bytes_hex_chars by fastforce
  then have sp: "str_split 44 (bytes_hex k) = [bytes_hex k]" using str_split_join [of "[bytes_hex k]" 44] by simp
  have "list_all (\<lambda>c. hex_value c \<noteq> None) (bytes_hex k)"
  proof -
    have "hex_value c \<noteq> None" if "c \<in> set (bytes_hex k)" for c
      using bytes_hex_chars [OF that] by (auto simp: hex_value_def)
    then show ?thesis by (simp add: list_all_iff)
  qed
  then show ?thesis using l assms by (simp add: parse_monitor_keys_def sp)
qed

end
