(* ===== verification/MqttConf.thy ===== *)
theory MqttConf
  imports PyStr
begin

text \<open>
  The broker settings every service reads from its environment (\<open>softmesh_stack/mqtt.py\<close>): the URL,
  the variables that override its parts, and the arguments of the client built from them. The environment
  is a map; the third-party client is only given its arguments.
\<close>

section \<open>Reading URLs and numbers\<close>

text \<open>\<open>_parse_bool\<close>. Lower case is that of ASCII: no other character becomes a letter of the four words.\<close>

definition ascii_lower :: "ustring \<Rightarrow> ustring" where
  "ascii_lower s = map (\<lambda>c. if 65 \<le> c \<and> c \<le> 90 then c + 32 else c) s"

definition parse_bool :: "ustring option \<Rightarrow> bool \<Rightarrow> bool" where
  "parse_bool raw default_value =
     (case raw of
        None \<Rightarrow> default_value
      | Some r \<Rightarrow>
          if str_strip r = [] then default_value
          else ascii_lower (str_strip r) \<in> {ustr ''1'', ustr ''true'', ustr ''yes'', ustr ''on''})"

text \<open>\<open>int(s)\<close> on a text of ASCII characters: white space around it, a sign, digits with single underscores between.\<close>

fun digits_value :: "nat \<Rightarrow> ustring \<Rightarrow> nat option" where
  "digits_value n [] = Some n"
| "digits_value n (c # s) =
     (if 48 \<le> c \<and> c \<le> 57 then digits_value (10 * n + (c - 48)) s
      else if c = 95
      then (case s of
              d # s' \<Rightarrow> if 48 \<le> d \<and> d \<le> 57 then digits_value (10 * n + (d - 48)) s' else None
            | [] \<Rightarrow> None)
      else None)"

definition int_of_str :: "ustring \<Rightarrow> int res" where
  "int_of_str s =
     (let t = str_strip s;
          digits = (if t \<noteq> [] \<and> hd t \<in> {43, 45} then tl t else t) in
      if digits = [] \<or> hd digits = 95 then Inl ValueError
      else (case digits_value 0 digits of
              None \<Rightarrow> Inl ValueError
            | Some n \<Rightarrow> Inr (if hd t = 45 then - int n else int n)))"

text \<open>\<open>s.partition(c)\<close> and \<open>s.rpartition(c)\<close>: the text before and after the first (last) \<open>c\<close>.\<close>

definition str_partition :: "nat \<Rightarrow> ustring \<Rightarrow> ustring \<times> bool \<times> ustring" where
  "str_partition c s = (takeWhile (\<lambda>x. x \<noteq> c) s, c \<in> set s, tl (dropWhile (\<lambda>x. x \<noteq> c) s))"

definition str_rpartition :: "nat \<Rightarrow> ustring \<Rightarrow> ustring \<times> bool \<times> ustring" where
  "str_rpartition c s =
     (rev (tl (dropWhile (\<lambda>x. x \<noteq> c) (rev s))), c \<in> set s, rev (takeWhile (\<lambda>x. x \<noteq> c) (rev s)))"

text \<open>
  What the standard library's \<open>urlparse\<close> gives for the schemes the code accepts. \<open>netloc_ok\<close> stands for
  its checks of bracketed and non-ASCII hosts, which raise \<open>ValueError\<close>.
\<close>

record url =
  url_scheme :: ustring
  url_netloc :: ustring
  url_path :: ustring

definition is_alpha :: "nat \<Rightarrow> bool" where
  "is_alpha c \<longleftrightarrow> (65 \<le> c \<and> c \<le> 90) \<or> (97 \<le> c \<and> c \<le> 122)"

definition scheme_char :: "nat \<Rightarrow> bool" where
  "scheme_char c \<longleftrightarrow> is_alpha c \<or> (48 \<le> c \<and> c \<le> 57) \<or> c \<in> {43, 45, 46}"

definition urlparse :: "(ustring \<Rightarrow> bool) \<Rightarrow> ustring \<Rightarrow> url res" where
  "urlparse netloc_ok text_of_url =
     (let s = filter (\<lambda>c. c \<notin> {9, 10, 13}) (dropWhile (\<lambda>c. c \<le> 32) text_of_url);
          (before, found, after) = str_partition 58 s;
          (scheme, rest) =
            (if found \<and> before \<noteq> [] \<and> is_alpha (hd before) \<and> list_all scheme_char before
             then (ascii_lower before, after) else ([], s));
          (netloc, rest) =
            (if take 2 rest = ustr ''//''
             then (takeWhile (\<lambda>c. c \<notin> {47, 63, 35}) (drop 2 rest), dropWhile (\<lambda>c. c \<notin> {47, 63, 35}) (drop 2 rest))
             else ([], rest)) in
      if (91 \<in> set netloc) \<noteq> (93 \<in> set netloc) \<or> \<not> netloc_ok netloc then Inl ValueError
      else Inr \<lparr> url_scheme = scheme, url_netloc = netloc,
                url_path = takeWhile (\<lambda>c. c \<noteq> 63) (takeWhile (\<lambda>c. c \<noteq> 35) rest) \<rparr>)"

definition url_hostinfo :: "url \<Rightarrow> ustring \<times> ustring option" where
  "url_hostinfo u =
     (let (_, _, hostinfo) = str_rpartition 64 (url_netloc u);
          (_, bracket, bracketed) = str_partition 91 hostinfo;
          (hostname, _, port) =
            (if bracket
             then let (h, _, p) = str_partition 93 bracketed; (_, colon, q) = str_partition 58 p in (h, colon, q)
             else str_partition 58 hostinfo) in
      (hostname, if port = [] then None else Some port))"

definition url_hostname :: "url \<Rightarrow> ustring option" where
  "url_hostname u =
     (let hostname = fst (url_hostinfo u); (name, percent, zone) = str_partition 37 hostname in
      if hostname = [] then None else Some (ascii_lower name @ (if percent then 37 # zone else [])))"

definition url_port :: "url \<Rightarrow> int option res" where
  "url_port u =
     (case snd (url_hostinfo u) of
        None \<Rightarrow> Inr None
      | Some p \<Rightarrow>
          if list_all (\<lambda>c. 48 \<le> c \<and> c \<le> 57) p
          then bindR (int_of_str p) (\<lambda>n. if 0 \<le> n \<and> n \<le> 65535 then Inr (Some n) else Inl ValueError)
          else Inl ValueError)"

definition url_userinfo :: "url \<Rightarrow> ustring option \<times> ustring option" where
  "url_userinfo u =
     (let (userinfo, have_info, _) = str_rpartition 64 (url_netloc u);
          (username, have_password, password) = str_partition 58 userinfo in
      if have_info then (Some username, if have_password then Some password else None) else (None, None))"

section \<open>The settings\<close>

datatype transport = Tcp | Websockets

record mqtt_config =
  mq_host :: ustring
  mq_port :: int
  mq_username :: "ustring option"
  mq_password :: "ustring option"
  mq_use_tls :: bool
  mq_transport :: transport
  mq_websocket_path :: "ustring option"
  mq_tls_ca_cert :: "ustring option"
  mq_tls_certfile :: "ustring option"
  mq_tls_keyfile :: "ustring option"
  mq_tls_insecure :: bool

text \<open>\<open>x or y\<close> on optional texts, and \<open>env.get(key, default)\<close>.\<close>

definition or_else :: "ustring option \<Rightarrow> ustring option \<Rightarrow> ustring option" where
  "or_else x y = (case x of None \<Rightarrow> y | Some s \<Rightarrow> if s = [] then y else Some s)"

definition env_get :: "(ustring \<rightharpoonup> ustring) \<Rightarrow> ustring \<Rightarrow> ustring option \<Rightarrow> ustring option" where
  "env_get env key default_value = (case env key of None \<Rightarrow> default_value | Some v \<Rightarrow> Some v)"

text \<open>\<open>MqttConfig.from_env\<close>; \<open>env_port\<close> is the expression for the port, whose parts are evaluated in turn.\<close>

definition env_port :: "ustring option \<Rightarrow> url \<Rightarrow> int \<Rightarrow> int res" where
  "env_port var parsed default_port =
     (case or_else var None of
        Some p \<Rightarrow> int_of_str p
      | None \<Rightarrow> bindR (url_port parsed) (\<lambda>port.
          Inr (case port of None \<Rightarrow> default_port | Some n \<Rightarrow> if n = 0 then default_port else n)))"

definition from_env ::
    "(ustring \<Rightarrow> bool) \<Rightarrow> (ustring \<rightharpoonup> ustring) \<Rightarrow> ustring \<Rightarrow> ustring \<Rightarrow> mqtt_config res" where
  "from_env netloc_ok env prefix default_url =
     (let var = (\<lambda>name. env (prefix @ ustr name));
          url_text = (case var ''_MQTT_URL'' of None \<Rightarrow> default_url | Some v \<Rightarrow> v) in
      bindR (urlparse netloc_ok url_text) (\<lambda>parsed.
      if url_scheme parsed \<notin> {ustr ''mqtt'', ustr ''mqtts'', ustr ''ws'', ustr ''wss''} then Inl ValueError
      else
        let transport = (if url_scheme parsed \<in> {ustr ''ws'', ustr ''wss''} then Websockets else Tcp);
            use_tls = parse_bool (var ''_MQTT_TLS'') (url_scheme parsed \<in> {ustr ''mqtts'', ustr ''wss''});
            host = (case or_else (or_else (var ''_MQTT_HOST'') (url_hostname parsed)) None of
                      None \<Rightarrow> ustr ''localhost'' | Some h \<Rightarrow> h);
            default_port = (if transport = Websockets then if use_tls then 443 else 80
                            else if use_tls then 8883 else 1883) in
        bindR (env_port (var ''_MQTT_PORT'') parsed default_port) (\<lambda>port.
        Inr \<lparr> mq_host = host, mq_port = port,
              mq_username = or_else (env_get env (prefix @ ustr ''_MQTT_USERNAME'') (fst (url_userinfo parsed))) None,
              mq_password = or_else (env_get env (prefix @ ustr ''_MQTT_PASSWORD'') (snd (url_userinfo parsed))) None,
              mq_use_tls = use_tls, mq_transport = transport,
              mq_websocket_path = or_else (var ''_MQTT_WS_PATH'') (or_else (Some (url_path parsed)) None),
              mq_tls_ca_cert = or_else (var ''_MQTT_CA_CERT'') None,
              mq_tls_certfile = or_else (var ''_MQTT_CLIENT_CERT'') None,
              mq_tls_keyfile = or_else (var ''_MQTT_CLIENT_KEY'') None,
              mq_tls_insecure = parse_bool (var ''_MQTT_TLS_INSECURE'') False \<rparr>)))"

text \<open>The arguments of the client: \<open>tls_params\<close> and \<open>client(**overrides)\<close>.\<close>

record tls_parameters =
  tls_ca_certs :: "ustring option"
  tls_cert :: "ustring option"
  tls_key :: "ustring option"
  tls_cert_required :: bool

datatype client_arg =
    StrArg "ustring option"
  | IntArg int
  | BoolArg bool
  | TransportArg transport
  | TlsArg "tls_parameters option"
  | WillArg ustring bytes

definition tls_params :: "mqtt_config \<Rightarrow> tls_parameters option" where
  "tls_params c =
     (if \<not> mq_use_tls c then None
      else Some \<lparr> tls_ca_certs = mq_tls_ca_cert c, tls_cert = mq_tls_certfile c, tls_key = mq_tls_keyfile c,
                 tls_cert_required = (\<not> mq_tls_insecure c) \<rparr>)"

definition client_kwargs :: "mqtt_config \<Rightarrow> (ustring \<rightharpoonup> client_arg) \<Rightarrow> (ustring \<rightharpoonup> client_arg)" where
  "client_kwargs c overrides =
     (map_of ([(ustr ''hostname'', StrArg (Some (mq_host c))), (ustr ''port'', IntArg (mq_port c)),
       (ustr ''username'', StrArg (mq_username c)), (ustr ''password'', StrArg (mq_password c)),
       (ustr ''tls_params'', TlsArg (tls_params c)), (ustr ''transport'', TransportArg (mq_transport c))] @
       (if mq_use_tls c \<and> mq_tls_insecure c then [(ustr ''tls_insecure'', BoolArg True)] else []) @
       (if mq_transport c = Websockets \<and> mq_websocket_path c \<noteq> None \<and> mq_websocket_path c \<noteq> Some []
        then [(ustr ''websocket_path'', StrArg (mq_websocket_path c))] else [])) ++ overrides)"

section \<open>Properties\<close>

text \<open>
  The variables win over the URL, so that a secret need not be in it. When a service's
  settings are read at all, a host, port, user name or password given as a variable of its own is the one
  used, whatever the URL says; and without the TLS variable encryption follows the scheme.
\<close>

lemma variables_override_url:
  assumes "from_env netloc_ok env prefix default_url = Inr c"
  shows "(\<forall>h. env (prefix @ ustr ''_MQTT_HOST'') = Some h \<and> h \<noteq> [] \<longrightarrow> mq_host c = h) \<and>
    (\<forall>p. env (prefix @ ustr ''_MQTT_PORT'') = Some p \<and> p \<noteq> [] \<longrightarrow> int_of_str p = Inr (mq_port c)) \<and>
    (\<forall>u. env (prefix @ ustr ''_MQTT_USERNAME'') = Some u \<and> u \<noteq> [] \<longrightarrow> mq_username c = Some u) \<and>
    (\<forall>w. env (prefix @ ustr ''_MQTT_PASSWORD'') = Some w \<and> w \<noteq> [] \<longrightarrow> mq_password c = Some w) \<and>
    (env (prefix @ ustr ''_MQTT_TLS'') = None \<longrightarrow>
       (\<exists>u. urlparse netloc_ok (case env (prefix @ ustr ''_MQTT_URL'') of None \<Rightarrow> default_url | Some v \<Rightarrow> v) = Inr u \<and>
            (mq_use_tls c \<longleftrightarrow> url_scheme u = ustr ''mqtts'' \<or> url_scheme u = ustr ''wss'')))"
  using assms by (auto simp: from_env_def Let_def or_else_def env_get_def env_port_def parse_bool_def split: if_splits)

lemma demo_settings:
  "from_env (\<lambda>_. True) [ustr ''R_MQTT_URL'' \<mapsto> ustr ''wss://u:p@Host:9/q'', ustr ''R_MQTT_PASSWORD'' \<mapsto> ustr ''s'']
     (ustr ''R'') (ustr ''mqtt://localhost'') =
   Inr \<lparr> mq_host = ustr ''host'', mq_port = 9, mq_username = Some (ustr ''u''), mq_password = Some (ustr ''s''),
     mq_use_tls = True, mq_transport = Websockets, mq_websocket_path = Some (ustr ''/q''), mq_tls_ca_cert = None,
     mq_tls_certfile = None, mq_tls_keyfile = None, mq_tls_insecure = False \<rparr>"
  by code_simp

lemma variables_override_url_witness:
  "\<exists>c. from_env (\<lambda>_. True) [ustr ''R_MQTT_URL'' \<mapsto> ustr ''wss://u:p@Host:9/q'', ustr ''R_MQTT_PASSWORD'' \<mapsto> ustr ''s'']
     (ustr ''R'') (ustr ''mqtt://localhost'') = Inr c \<and> mq_password c = Some (ustr ''s'')"
  using variables_override_url [OF demo_settings] demo_settings
  by (intro exI conjI) (assumption, simp add: ustr_def)

end
