(* ===== verification/Token.thy ===== *)
theory Token
  imports PyJson Identity
begin

text \<open>
  The token with which the observer proves to the collectors that it owns its key
  (\<open>observer/auth.py\<close>), and the reading of it that a collector does.
\<close>

section \<open>Base 64\<close>

text \<open>The 6-bit digits of a byte string and the URL-safe alphabet; the padding is stripped.\<close>

fun b64_digits :: "nat list \<Rightarrow> nat list" where
  "b64_digits [] = []"
| "b64_digits [a] = [a div 4, a mod 4 * 16]"
| "b64_digits [a, b] = [a div 4, a mod 4 * 16 + b div 16, b mod 16 * 4]"
| "b64_digits (a # b # c # rest) =
     [a div 4, a mod 4 * 16 + b div 16, b mod 16 * 4 + c div 64, c mod 64] @ b64_digits rest"

definition b64_char :: "nat \<Rightarrow> nat" where
  "b64_char d = (if d < 26 then 65 + d else if d < 52 then 71 + d else if d < 62 then d - 4 else if d = 62 then 45 else 95)"

definition b64url :: "bytes \<Rightarrow> ustring" where
  "b64url p = map b64_char (b64_digits (map unat p))"

text \<open>How a reader decodes it.\<close>

definition b64_value :: "nat \<Rightarrow> nat" where
  "b64_value c = (if c = 45 then 62 else if c = 95 then 63 else if c < 58 then c + 4 else if c < 91 then c - 65 else c - 71)"

fun b64_undigits :: "nat list \<Rightarrow> nat list" where
  "b64_undigits (x # y # z # w # rest) =
     [x * 4 + y div 16, y mod 16 * 16 + z div 4, z mod 4 * 64 + w] @ b64_undigits rest"
| "b64_undigits [x, y, z] = [x * 4 + y div 16, y mod 16 * 16 + z div 4]"
| "b64_undigits [x, y] = [x * 4 + y div 16]"
| "b64_undigits _ = []"

definition b64url_decode :: "ustring \<Rightarrow> bytes" where
  "b64url_decode s = map of_nat (b64_undigits (map b64_value s))"

lemma digit_bounds:
  fixes a b :: nat
  assumes "a < 256" "b < 256"
  shows "a div 4 < 64" "a mod 4 * 16 < 64" "a mod 4 * 16 + b div 16 < 64" "a mod 16 * 4 < 64"
    "a mod 16 * 4 + b div 64 < 64" "a mod 64 < 64"
proof -
  have "a mod 4 < 4" "a mod 16 < 16" "b div 16 < 16" "b div 64 < 4" "a mod 64 < 64" using assms by auto
  then show "a div 4 < 64" "a mod 4 * 16 < 64" "a mod 4 * 16 + b div 16 < 64" "a mod 16 * 4 < 64"
    "a mod 16 * 4 + b div 64 < 64" "a mod 64 < 64" using assms(1) by linarith+
qed

lemma quarter_bound: "a < 256 \<Longrightarrow> a div 4 < (64::nat)"
  using digit_bounds(1) [of a a] by simp

lemma b64_digits_less: "\<forall>a \<in> set as. a < 256 \<Longrightarrow> \<forall>d \<in> set (b64_digits as). d < 64"
  by (induction "as" rule: b64_digits.induct) (simp_all add: digit_bounds quarter_bound)

lemma byte_back:
  fixes b :: nat
  assumes "b < 256"
  shows "b div 16 div 16 = 0" "b div 64 div 4 = 0" "b div 16 mod 16 * 16 + b mod 16 = b"
    "b div 64 mod 4 * 64 + b mod 64 = b"
proof -
  have "b div 16 < 16" "b div 64 < 4" using assms by auto
  then show "b div 16 div 16 = 0" "b div 64 div 4 = 0" "b div 16 mod 16 * 16 + b mod 16 = b"
    "b div 64 mod 4 * 64 + b mod 64 = b" by simp_all
qed

lemma b64_undigits_digits: "\<forall>a \<in> set as. a < 256 \<Longrightarrow> b64_undigits (b64_digits as) = as"
  by (induction "as" rule: b64_digits.induct) (simp_all add: byte_back del: mult_Suc mult_Suc_right)

lemma b64_value_char: "d < 64 \<Longrightarrow> b64_value (b64_char d) = d"
  by (auto simp: b64_value_def b64_char_def)

lemma unat_bytes: "\<forall>a \<in> set (map unat (p :: bytes)). a < 256"
proof -
  have "unat b < 256" for b :: byte using unsigned_less [of b] by simp
  then show ?thesis by auto
qed

lemma b64url_decode_b64url [simp]: "b64url_decode (b64url p) = p"
proof -
  have "map b64_value (b64url p) = b64_digits (map unat p)"
    using b64_digits_less [OF unat_bytes] by (auto simp: b64url_def comp_def b64_value_char intro!: map_idI)
  then show ?thesis by (simp add: b64url_decode_def b64_undigits_digits [OF unat_bytes] comp_def)
qed

lemma b64url_chars: "c \<in> set (b64url p) \<Longrightarrow> c < 128 \<and> c \<noteq> 46"
  using b64_digits_less [OF unat_bytes, of p] by (auto simp: b64url_def b64_char_def)

section \<open>The token\<close>

text \<open>\<open>str.upper\<close> on hexadecimal digits.\<close>

definition hex_upper :: "ustring \<Rightarrow> ustring" where
  "hex_upper s = map (\<lambda>c. if 97 \<le> c \<and> c \<le> 102 then c - 32 else c) s"

definition auth_username :: "identity \<Rightarrow> ustring" where
  "auth_username i = ustr ''v1_'' @ hex_upper (bytes_hex (id_pub_key i))"

definition DEFAULT_TOKEN_LIFETIME_S :: int where "DEFAULT_TOKEN_LIFETIME_S = 86400"

definition token_header :: json where
  "token_header = JObj [(ustr ''alg'', JStr (ustr ''Ed25519'')), (ustr ''typ'', JStr (ustr ''JWT''))]"

definition token_claims :: "identity \<Rightarrow> ustring option \<Rightarrow> int \<Rightarrow> int \<Rightarrow> json" where
  "token_claims i aud issued expires =
     JObj ([(ustr ''publicKey'', JStr (hex_upper (bytes_hex (id_pub_key i)))), (ustr ''iat'', JInt issued), (ustr ''exp'', JInt expires)] @
           (case aud of None \<Rightarrow> [] | Some a \<Rightarrow> [(ustr ''aud'', JStr a)]))"

text \<open>\<open>s.encode("ascii")\<close>.\<close>

definition ascii_encode :: "ustring \<Rightarrow> bytes res" where
  "ascii_encode s = (if list_all (\<lambda>c. c < 128) s then Inr (map of_nat s) else Inl UnicodeEncodeError)"

text \<open>\<open>build_auth_token\<close>; \<open>now\<close> is what \<open>int(time.time())\<close> returns.\<close>

definition build_auth_token ::
    "crypto_lib \<Rightarrow> identity \<Rightarrow> ustring option \<Rightarrow> int option \<Rightarrow> int option \<Rightarrow> int \<Rightarrow> int \<Rightarrow> ustring res" where
  "build_auth_token C i aud exp_claim iat lifetime_seconds now =
     (let issued = (case iat of None \<Rightarrow> now | Some t \<Rightarrow> t);
          payload = token_claims i aud issued (case exp_claim of None \<Rightarrow> issued + lifetime_seconds | Some t \<Rightarrow> t) in
      bindR (utf8_encode (json_dumps token_header)) (\<lambda>header_bytes.
      bindR (utf8_encode (json_dumps payload)) (\<lambda>payload_bytes.
      let header_enc = b64url header_bytes; payload_enc = b64url payload_bytes in
      bindR (ascii_encode (header_enc @ ustr ''.'' @ payload_enc)) (\<lambda>signing_input.
      bindR (id_sign C i signing_input) (\<lambda>signature.
      Inr (header_enc @ ustr ''.'' @ payload_enc @ ustr ''.'' @ bytes_hex signature))))))"

lemma token_texts: "ascii (json_dumps token_header)" "ascii (json_dumps (token_claims i aud issued expires))"
  by (rule ascii_json_dumps(1); simp add: token_header_def token_claims_def split: option.splits)+

lemma token_parts:
  assumes "length (id_seed i) = 32"
  shows "\<exists>h c m. utf8_encode (json_dumps token_header) = Inr h \<and> utf8_encode (json_dumps (token_claims i aud issued expires)) = Inr c \<and>
    ascii_encode (b64url h @ [46] @ b64url c) = Inr m"
  using utf8_ascii [OF token_texts(1)] utf8_ascii [OF token_texts(2)] b64url_chars by (auto simp: ascii_encode_def list_all_iff)

lemma token_total:
  assumes "length (id_seed i) = 32"
  shows "\<exists>t. build_auth_token C i aud exp_claim iat lifetime now = Inr t"
proof -
  have dot: "ustr ''.'' = [46]" by (simp add: ustr_def)
  show ?thesis
    using token_parts [OF assms, of aud "case iat of None \<Rightarrow> now | Some t \<Rightarrow> t"
        "case exp_claim of None \<Rightarrow> (case iat of None \<Rightarrow> now | Some t \<Rightarrow> t) + lifetime | Some t \<Rightarrow> t"] assms
    by (auto simp: build_auth_token_def Let_def dot id_sign_def sign_def crypto_consts)
qed

section \<open>Properties\<close>



end
