(* ===== verification/Observer.thy ===== *)
theory Observer
  imports Packet Advert Token
begin

unbundle bit_operations_syntax

text \<open>
  The packet reports of the observer (\<open>observer/reporter.py\<close>): the identifier the collectors
  recognise a packet by, the event built for a frame, the status announcement and the advert the observer
  sends for itself.
\<close>

section \<open>The packet hash\<close>

definition UNKNOWN_HASH :: ustring where
  "UNKNOWN_HASH = ustr ''0000000000000000''"

text \<open>
  \<open>calculate_packet_hash\<close>: \<open>packet_hash_body\<close> is the body of its \<open>try\<close>; every exception gives the
  hash of zeros.
\<close>

definition packet_hash_body :: "crypto_lib \<Rightarrow> bytes \<Rightarrow> int option \<Rightarrow> ustring res" where
  "packet_hash_body C raw payload_type =
     (if raw = [] then Inl IndexError
      else
        let header = uint (raw ! 0);
            ptype = (case payload_type of None \<Rightarrow> drop_bit 2 header AND 0x0F | Some t \<Rightarrow> t);
            route_type = header AND 0x03;
            has_transport = (route_type \<in> {0x00, 0x03});
            offset = 1 + (if has_transport then 4 else 0) in
        if length raw \<le> offset then Inr UNKNOWN_HASH
        else
          let path_len_byte = uint (raw ! offset);
              offset = offset + 1;
              (hash_count, hash_size) = decode_path_len path_len_byte;
              payload_start = offset + nat (hash_count * hash_size) in
          if payload_start > length raw then Inr UNKNOWN_HASH
          else
            let payload_data = drop payload_start raw in
            bindR (byte_of ptype) (\<lambda>t.
            bindR (if ptype = payload_val TRACE then to_bytes_le 2 path_len_byte else Inr []) (\<lambda>l.
            Inr (hex_upper (take 16 (bytes_hex (sha256 C (t # l @ payload_data))))))))"

definition calculate_packet_hash :: "crypto_lib \<Rightarrow> bytes \<Rightarrow> int option \<Rightarrow> ustring" where
  "calculate_packet_hash C raw payload_type =
     (case packet_hash_body C raw payload_type of Inl e \<Rightarrow> UNKNOWN_HASH | Inr h \<Rightarrow> h)"

text \<open>
  What the identifier is meant to be: a function of the decoded packet that does not look at the route,
  the transport codes or the path; only a TRACE packet, whose path is data, has the path length in it.
\<close>

definition packet_id :: "crypto_lib \<Rightarrow> packet \<Rightarrow> ustring" where
  "packet_id C p = hex_upper (take 16 (bytes_hex (lib_sha256 C
     (word_of_int (payload_val (pkt_type p)) #
      (if pkt_type p = TRACE
       then [word_of_int (int (length (pkt_path p)) div pkt_hash_size p + 64 * (pkt_hash_size p - 1)), 0] else []) @
      pkt_payload p))))"

lemma decode_packet_fields:
  assumes "decode_packet w = Inr p"
  obtains i where "w \<noteq> []" "i = 1 + (if uint (w ! 0) AND 0x03 \<in> {0x00, 0x03} then 4 else (0 :: nat))" "i < length w"
    "payload_val (pkt_type p) = drop_bit 2 (uint (w ! 0)) AND 0x0F"
    "\<And>n k. decode_path_len (uint (w ! i)) = (n, k) \<Longrightarrow> i + 1 + nat (n * k) \<le> length w \<and>
       pkt_payload p = drop (i + 1 + nat (n * k)) w"
    "w ! i = word_of_int (int (length (pkt_path p)) div pkt_hash_size p + 64 * (pkt_hash_size p - 1))"
proof -
  obtain r t v where h: "decode_header (uint (w ! 0)) = (r, t, v)" by (metis prod_cases3)
  obtain c i k path rest where w: "w \<noteq> []" and c: "decode_codes r 1 w = Inr (c, i)"
    and d: "decode_path i w = Inr (k, path, rest)"
    and p: "p = \<lparr> pkt_route = as_route r, pkt_type = as_payload t, pkt_ver = as_ver v,
      pkt_codes = c, pkt_path = path, pkt_payload = rest, pkt_hash_size = k \<rparr>"
    using assms h by (auto simp: decode_packet_def split: if_splits)
  have i: "i = 1 + (if r \<in> {0, 3} then 4 else 0)"
    using c by (auto simp: decode_codes_def has_transport_codes_def packet_consts split: if_splits)
  have rt: "r = uint (w ! 0) AND 0x03" "t = drop_bit 2 (uint (w ! 0)) AND 0x0F"
    using h by (simp_all add: decode_header_def)
  obtain n k' where nk: "decode_path_len (uint (w ! i)) = (n, k')" by fastforce
  have dp: "i < length w" "0 \<le> n * k'" "int (i + 1) + n * k' \<le> int (length w)" "rest = drop (i + 1 + nat (n * k')) w"
    using d nk by (auto simp: decode_path_def packet_consts Let_def decode_path_len_eq split: if_splits)
  have u: "\<And>n k. decode_path_len (uint (w ! i)) = (n, k) \<Longrightarrow> i + 1 + nat (n * k) \<le> length w \<and> rest = drop (i + 1 + nat (n * k)) w"
    using nk dp by auto
  have "w ! i = word_of_int (int (length path) div k + 64 * (k - 1))"
  proof -
    have "w = take i w @ word_of_int (int (length path) div k + 64 * (k - 1)) # path @ rest" by (rule decode_path_Inr(3) [OF d])
    then have "w ! i = (take i w @ word_of_int (int (length path) div k + 64 * (k - 1)) # path @ rest) ! i" by simp
    then show ?thesis using dp(1) by (simp add: nth_append)
  qed
  with w i dp(1) rt p u show thesis by (intro that [of i]) simp_all
qed

lemma packet_hash_of_packet:
  assumes "decode_packet w = Inr p" "t = None \<or> t = Some (payload_val (pkt_type p))"
  shows "calculate_packet_hash C w t = packet_id C p"
proof -
  obtain i where i: "w \<noteq> []" "i = 1 + (if uint (w ! 0) AND 0x03 \<in> {0x00, 0x03} then 4 else (0 :: nat))" "i < length w"
    and t: "payload_val (pkt_type p) = drop_bit 2 (uint (w ! 0)) AND 0x0F"
    and u: "\<And>n k. decode_path_len (uint (w ! i)) = (n, k) \<Longrightarrow> i + 1 + nat (n * k) \<le> length w \<and>
       pkt_payload p = drop (i + 1 + nat (n * k)) w"
    and b: "w ! i = word_of_int (int (length (pkt_path p)) div pkt_hash_size p + 64 * (pkt_hash_size p - 1))"
    using decode_packet_fields [OF assms(1)] by metis
  obtain n k where nk: "decode_path_len (uint (w ! i)) = (n, k)" by fastforce
  have ty: "(case t of None \<Rightarrow> drop_bit 2 (uint (w ! 0)) AND 0x0F | Some t \<Rightarrow> t) = payload_val (pkt_type p)"
    using assms(2) t by (auto split: option.splits)
  have bt: "byte_of (payload_val (pkt_type p)) = Inr (word_of_int (payload_val (pkt_type p)))"
  proof -
    have "0 \<le> payload_val (pkt_type p)" "payload_val (pkt_type p) < 16"
      using decode_packet_Inr(1) [OF assms(1)] by (auto simp: wf_packet_def)
    then show ?thesis by (simp add: byte_of_def)
  qed
  have tr: "payload_val (pkt_type p) = 9 \<longleftrightarrow> pkt_type p = TRACE"
    using decode_packet_Inr(1) [OF assms(1)] by (cases "pkt_type p") (auto simp: wf_packet_def as_payload_def as_enum_def)
  have "uint (w ! i) < 65536" using uint_byte_less [of "w ! i"] by linarith
  then have l: "to_bytes_le 2 (uint (w ! i)) = Inr [w ! i, 0]"
    by (simp add: to_bytes_le_def numeral_2_eq_2)
  have id: "packet_id C p = hex_upper (take 16 (bytes_hex (lib_sha256 C (word_of_int (payload_val (pkt_type p)) #
      (if pkt_type p = TRACE then [w ! i, 0] else []) @ pkt_payload p))))"
    by (simp add: packet_id_def b)
  have "packet_hash_body C w t = Inr (packet_id C p)"
    unfolding packet_hash_body_def Let_def i(2) [symmetric] ty nk prod.case bt bindR.simps
    using i(1,3) u [OF nk] by (auto simp: id l tr sha256_def)
  then show ?thesis by (simp add: calculate_packet_hash_def)
qed

section \<open>Events, status and advert\<close>

definition ROUTE_MAP :: "int \<rightharpoonup> ustring" where
  "ROUTE_MAP = map_of [(route_val TRANSPORT_FLOOD, ustr ''F''), (route_val FLOOD, ustr ''F''),
     (route_val DIRECT, ustr ''D''), (route_val TRANSPORT_DIRECT, ustr ''T'')]"

text \<open>The texts of \<open>datetime.now()\<close>: \<open>isoformat()\<close> and the two \<open>strftime\<close> calls.\<close>

record now_texts =
  nt_iso :: ustring
  nt_time :: ustring
  nt_date :: ustring

text \<open>
  \<open>build_event\<close>: \<open>event_fields\<close> gives the route, the payload type, the payload length and the path,
  from the packet or, for a frame that does not decode, from its first byte.
\<close>

definition event_fields :: "bytes \<Rightarrow> (ustring \<times> int \<times> ustring \<times> ustring option) res" where
  "event_fields raw =
     (case decode_packet raw of
        Inr pkt \<Rightarrow>
          let route = (case ROUTE_MAP (route_val (pkt_route pkt)) of None \<Rightarrow> ustr ''U'' | Some r \<Rightarrow> r) in
          Inr (route, payload_val (pkt_type pkt), int_str (int (length (pkt_payload pkt))),
               if route = ustr ''D'' \<and> pkt_path pkt \<noteq> []
               then Some (str_join (ustr '','') (map bytes_hex (entries (nat (pkt_hash_size pkt)) (pkt_path pkt))))
               else None)
      | Inl e \<Rightarrow>
          if caught_by_ValueError e
          then let header = (if raw \<noteq> [] then uint (raw ! 0) else 0) in
               Inr (ustr ''U'', drop_bit 2 header AND 0x0F, int_str (max 0 (int (length raw) - 1)), None)
          else Inl e)"

definition build_event :: "crypto_lib \<Rightarrow> now_texts \<Rightarrow> bytes \<Rightarrow> ustring \<Rightarrow> ustring \<Rightarrow> json res" where
  "build_event C t raw origin origin_id =
     bindR (event_fields raw) (\<lambda>(route, payload_type_value, payload_len, path_field).
     Inr (JObj ([
       (ustr ''origin'', JStr origin),
       (ustr ''origin_id'', JStr origin_id),
       (ustr ''timestamp'', JStr (nt_iso t)),
       (ustr ''type'', JStr (ustr ''PACKET'')),
       (ustr ''direction'', JStr (ustr ''rx'')),
       (ustr ''time'', JStr (nt_time t)),
       (ustr ''date'', JStr (nt_date t)),
       (ustr ''len'', JStr (int_str (int (length raw)))),
       (ustr ''packet_type'', JStr (int_str payload_type_value)),
       (ustr ''route'', JStr route),
       (ustr ''payload_len'', JStr payload_len),
       (ustr ''raw'', JStr (hex_upper (bytes_hex raw))),
       (ustr ''SNR'', JStr (ustr ''Unknown'')),
       (ustr ''RSSI'', JStr (ustr ''Unknown'')),
       (ustr ''hash'', JStr (calculate_packet_hash C raw (Some payload_type_value)))] @
       (case path_field of None \<Rightarrow> [] | Some p \<Rightarrow> [(ustr ''path'', JStr p)]))))"

text \<open>\<open>json.dumps(v, separators=(",", ":")).encode()\<close>.\<close>

definition json_bytes :: "json \<Rightarrow> bytes res" where
  "json_bytes v = utf8_encode (json_dumps v)"

text \<open>A float in JSON; \<open>repr_of\<close> is Python's \<open>repr\<close> of a float.\<close>

definition json_float :: "(rat \<Rightarrow> ustring) \<Rightarrow> rat \<Rightarrow> json" where
  "json_float repr_of x = JFloat (repr_of x) (x \<noteq> 0)"

definition status_payload ::
    "(rat \<Rightarrow> ustring) \<Rightarrow> ustring \<Rightarrow> ustring \<Rightarrow> ustring \<Rightarrow> ustring \<Rightarrow> rat option \<Rightarrow> rat option \<Rightarrow> bytes res" where
  "status_payload repr_of iso_text status origin origin_id lat lon =
     json_bytes (JObj ([(ustr ''status'', JStr status), (ustr ''timestamp'', JStr iso_text),
       (ustr ''origin'', JStr origin), (ustr ''origin_id'', JStr origin_id)] @
       (case (lat, lon) of
          (Some la, Some lo) \<Rightarrow> [(ustr ''latitude'', json_float repr_of la), (ustr ''longitude'', json_float repr_of lo)]
        | _ \<Rightarrow> [])))"

text \<open>\<open>build_self_advert\<close>; \<open>now\<close> is what \<open>int(time.time())\<close> returns.\<close>

definition observer_self_advert ::
    "crypto_lib \<Rightarrow> identity \<Rightarrow> ustring \<Rightarrow> rat option \<Rightarrow> rat option \<Rightarrow> bool \<Rightarrow> int \<Rightarrow> bytes res" where
  "observer_self_advert C i name lat lon flood now =
     bindR (encode_advert C (id_seed i) (id_pub_key i) now
        \<lparr> ad_type = advert_type_val CHAT, ad_name = name, ad_lat = lat, ad_lon = lon, ad_feat1 = None, ad_feat2 = None \<rparr>)
       (\<lambda>payload. encode_packet
        \<lparr> pkt_route = if flood then FLOOD else DIRECT, pkt_type = ADVERT, pkt_ver = V1, pkt_codes = None,
          pkt_path = [], pkt_payload = payload, pkt_hash_size = 1 \<rparr>)"

lemma fromhex_upper [simp]: "bytes_fromhex (hex_upper (bytes_hex p)) = Inr p"
proof (induction p)
  case (Cons b p)
  let ?up = "\<lambda>c :: nat. if 97 \<le> c \<and> c \<le> 102 then c - 32 else c"
  have u: "unat b < 256" using unsigned_less [of b] by simp
  have v: "d < 16 \<Longrightarrow> hex_value (?up (hex_digit d)) = Some d \<and> \<not> is_space (?up (hex_digit d))" for d
    by (auto simp: hex_value_def hex_digit_def is_space_def)
  have "16 * (unat b div 16) + unat b mod 16 = unat b" by simp
  then have "(of_nat (16 * (unat b div 16) + unat b mod 16) :: byte) = b" by (simp del: of_nat_add of_nat_mult)
  moreover have "unat b div 16 < 16" "unat b mod 16 < 16" using u by auto
  moreover have "bytes_fromhex (hex_upper (bytes_hex (b # p))) = bytes_fromhex (?up (hex_digit (unat b div 16)) #
      ?up (hex_digit (unat b mod 16)) # hex_upper (bytes_hex p))"
    by (simp add: bytes_hex_def hex_upper_def)
  ultimately show ?case using Cons v by (simp del: of_nat_add of_nat_mult)
qed (simp add: bytes_hex_def hex_upper_def)

lemma event_ok: "\<exists>v. build_event C t raw origin origin_id = Inr v \<and> ascii_floats v"
proof -
  have "\<exists>r. event_fields raw = Inr r"
    by (cases "decode_packet raw") (auto simp: event_fields_def Let_def caught_by_ValueError_def dest: decode_packet_Inl)
  then obtain a b c d where "event_fields raw = Inr (a, b, c, d)" by auto
  then show ?thesis by (auto simp: build_event_def split: option.splits)
qed

lemma json_bytes_ok: "ascii_floats v \<Longrightarrow> json_bytes v = Inr (map of_nat (json_dumps v))"
  by (simp add: json_bytes_def utf8_ascii ascii_json_dumps(1))

lemma status_ok:
  assumes "\<And>x. ascii (repr_of x)"
  shows "\<exists>b. status_payload repr_of iso_text status origin origin_id lat lon = Inr b"
proof -
  have "ascii_floats (json_float repr_of x)" for x using assms by (simp add: json_float_def)
  then show ?thesis unfolding status_payload_def by (subst json_bytes_ok) (auto split: option.splits)
qed

section \<open>Properties\<close>

text \<open>
  Property (C22): the collectors recognise a packet whatever way it came. For every frame that decodes,
  the identifier is the first 16 digits of the reference hash of its type and payload (and the path length of
  a TRACE); so two frames with the same type and payload have the same identifier, whatever their
  routes, transport codes and paths, unless they are TRACE packets.
\<close>

theorem packet_hash_ignores_route:
  assumes "decode_packet v = Inr p" "decode_packet w = Inr q"
  shows "calculate_packet_hash C w None = packet_id C q \<and>
    calculate_packet_hash C w (Some (payload_val (pkt_type q))) = packet_id C q \<and>
    (pkt_type p = pkt_type q \<and> pkt_payload p = pkt_payload q \<and> pkt_type q \<noteq> TRACE \<longrightarrow>
       calculate_packet_hash C v None = calculate_packet_hash C w None)"
  using packet_hash_of_packet [OF assms(1), of None] packet_hash_of_packet [OF assms(2)]
  by (simp add: packet_id_def)

lemma packet_hash_ignores_route_witness:
  "calculate_packet_hash demo_lib [5, 1, 9, 104] None = calculate_packet_hash demo_lib [6, 0, 104] None"
proof -
  have d: "decode_packet [5, 1, 9, 104] = Inr \<lparr> pkt_route = FLOOD, pkt_type = RESPONSE, pkt_ver = V1, pkt_codes = None,
      pkt_path = [9], pkt_payload = [104], pkt_hash_size = 1 \<rparr>"
    "decode_packet [6, 0, 104] = Inr \<lparr> pkt_route = DIRECT, pkt_type = RESPONSE, pkt_ver = V1, pkt_codes = None,
      pkt_path = [], pkt_payload = [104], pkt_hash_size = 1 \<rparr>" by code_simp+
  from packet_hash_ignores_route [OF d, of demo_lib] show ?thesis by simp
qed

text \<open>
  A report loses nothing and says what the frame is. Every frame, decodable or not, gives
  an event, which serialises; its \<open>raw\<close> field reads back as the frame; and for a frame that decodes, the
  type, the payload length and the identifier are those of the packet.
\<close>

lemma event_reports_frame:
  "\<exists>kvs. build_event C t raw origin origin_id = Inr (JObj kvs) \<and> (\<exists>b. json_bytes (JObj kvs) = Inr b) \<and>
    (\<exists>h. map_of kvs (ustr ''raw'') = Some (JStr h) \<and> bytes_fromhex h = Inr raw) \<and>
    (\<forall>p. decode_packet raw = Inr p \<longrightarrow>
       map_of kvs (ustr ''packet_type'') = Some (JStr (int_str (payload_val (pkt_type p)))) \<and>
       map_of kvs (ustr ''payload_len'') = Some (JStr (int_str (int (length (pkt_payload p))))) \<and>
       map_of kvs (ustr ''hash'') = Some (JStr (packet_id C p)))"
proof -
  obtain route ty len path where f: "event_fields raw = Inr (route, ty, len, path)"
    and p: "\<And>p. decode_packet raw = Inr p \<Longrightarrow> ty = payload_val (pkt_type p) \<and> len = int_str (int (length (pkt_payload p)))"
    by (cases "decode_packet raw") (auto simp: event_fields_def Let_def caught_by_ValueError_def dest: decode_packet_Inl)
  obtain kvs where e: "build_event C t raw origin origin_id = Inr (JObj kvs)" "ascii_floats (JObj kvs)"
    using event_ok [of C t raw origin origin_id] by (auto simp: build_event_def f)
  have k: "map_of kvs (ustr ''raw'') = Some (JStr (hex_upper (bytes_hex raw)))"
    "map_of kvs (ustr ''packet_type'') = Some (JStr (int_str ty))" "map_of kvs (ustr ''payload_len'') = Some (JStr len)"
    "map_of kvs (ustr ''hash'') = Some (JStr (calculate_packet_hash C raw (Some ty)))"
    using e(1) by (auto simp: build_event_def f ustr_def)
  show ?thesis
    using e(1) json_bytes_ok [OF e(2)] k p packet_hash_of_packet by (intro exI [of _ kvs]) auto
qed

lemma event_reports_frame_witness:
  "\<exists>kvs h. build_event demo_lib \<lparr> nt_iso = [], nt_time = [], nt_date = [] \<rparr> [6, 0, 104] [111] [112] = Inr (JObj kvs) \<and>
    map_of kvs (ustr ''raw'') = Some (JStr h) \<and> bytes_fromhex h = Inr [6, 0, 104] \<and>
    map_of kvs (ustr ''packet_type'') = Some (JStr (int_str 1))"
proof -
  have d: "decode_packet [6, 0, 104] = Inr \<lparr> pkt_route = DIRECT, pkt_type = RESPONSE, pkt_ver = V1, pkt_codes = None,
      pkt_path = [], pkt_payload = [104], pkt_hash_size = 1 \<rparr>" by code_simp
  from event_reports_frame [of demo_lib "\<lparr> nt_iso = [], nt_time = [], nt_date = [] \<rparr>" "[6, 0, 104]" "[111]" "[112]"]
  show ?thesis using d by (fastforce simp: int_str_def)
qed

text \<open>
  The advert the observer broadcasts for itself is an ADVERT packet that every node accepts: it decodes to the observer's
  key, name and location, and its signature is valid.
\<close>

lemma self_advert_accepted:
  assumes "crypto_laws C" "length (id_seed i) = 32" "id_pub_key i = lib_ed25519_pub C (id_seed i)"
    and "0 \<le> now" "now < 2 ^ 32"
    and "valid_advert_data \<lparr> ad_type = 1, ad_name = name, ad_lat = lat, ad_lon = lon, ad_feat1 = None, ad_feat2 = None \<rparr>"
  shows "\<exists>wire p a. observer_self_advert C i name lat lon flood now = Inr wire \<and> decode_packet wire = Inr p \<and>
    pkt_type p = ADVERT \<and> pkt_path p = [] \<and> decode_advert (pkt_payload p) = Inr a \<and> av_pub_key a = id_pub_key i \<and>
    ad_name (av_app_data a) = name \<and> signature_valid C a = Inr True"
proof -
  let ?d = "\<lparr> ad_type = 1, ad_name = name, ad_lat = lat, ad_lon = lon, ad_feat1 = None, ad_feat2 = None \<rparr>"
  obtain payload a where a: "encode_advert C (id_seed i) (id_pub_key i) now ?d = Inr payload"
    "decode_advert payload = Inr a" "av_pub_key a = id_pub_key i" "av_app_data a = as_received ?d" "signature_valid C a = Inr True"
    using encoded_advert_opens [OF assms(1,2,4-6)] assms(3) by auto
  let ?p = "\<lparr> pkt_route = if flood then FLOOD else DIRECT, pkt_type = ADVERT, pkt_ver = V1, pkt_codes = None,
          pkt_path = [], pkt_payload = payload, pkt_hash_size = 1 \<rparr>"
  have wf: "wf_packet ?p"
    by (simp add: wf_packet_def codes_ok_def path_ok_def has_transport_codes_def as_route_def as_payload_def as_ver_def as_enum_def)
  then obtain wire where "encode_packet ?p = Inr wire" using pkt_codec.enc_total by blast
  moreover from this wf have "decode_packet wire = Inr ?p" by (rule pkt_codec.dec_enc [rotated])
  ultimately show ?thesis using a by (simp add: observer_self_advert_def as_received_def)
qed

end
