(* ===== verification/Forwarder.thy ===== *)
theory Forwarder
  imports Observer MqttConf "HOL-Library.Sublist"
begin

text \<open>
  How the observer forwards its reports (\<open>observer/reporter.py\<close>): one target per collector broker, which
  connects when it has something to publish, waits longer after every failed attempt and drops what it
  cannot send; and the loop over the frames of the local broker. What the brokers answer is an input.
\<close>

section \<open>A collector broker\<close>

text \<open>
  What the world gives to one call of \<open>publish\<close>: the time of the event loop, the wall clock, the texts of
  \<open>datetime.now()\<close> in the two status messages, and how each call of the MQTT client ends
  (\<open>None\<close>: it returns): making it, connecting, announcing, publishing, closing.
\<close>

record moment =
  mo_loop_time :: rat
  mo_wall :: int
  mo_iso_will :: ustring
  mo_iso_online :: ustring
  mo_client :: "exn option"
  mo_connect :: "exn option"
  mo_announce :: "exn option"
  mo_publish :: "exn option"
  mo_close :: "exn option"

text \<open>The calls a target makes, with how they ended.\<close>

datatype broker_call =
    Connect rat "(ustring \<rightharpoonup> client_arg)" "exn option"
  | Publish ustring bytes bool "exn option"
  | Disconnect "exn option"

text \<open>
  \<open>_ForwardTarget\<close>. The client is there or not (\<open>ft_client\<close>); \<open>ft_auth\<close> is what the closure
  \<open>auth_factory\<close> captured, the identity and the audience; \<open>ft_calls\<close> records what the broker has
  seen.
\<close>

record forward_target =
  ft_config :: mqtt_config
  ft_topic :: ustring
  ft_status_topic :: ustring
  ft_origin :: ustring
  ft_origin_id :: ustring
  ft_lat :: "rat option"
  ft_lon :: "rat option"
  ft_auth :: "(identity \<times> ustring) option"
  ft_client :: bool
  ft_backoff :: rat
  ft_next_retry :: rat
  ft_calls :: "broker_call list"

definition new_target ::
    "mqtt_config \<Rightarrow> ustring \<Rightarrow> ustring \<Rightarrow> ustring \<Rightarrow> ustring \<Rightarrow> rat option \<Rightarrow> rat option
       \<Rightarrow> (identity \<times> ustring) option \<Rightarrow> forward_target" where
  "new_target config topic status_topic origin origin_id lat lon auth_factory =
     \<lparr> ft_config = config, ft_topic = topic, ft_status_topic = status_topic, ft_origin = origin,
       ft_origin_id = origin_id, ft_lat = lat, ft_lon = lon,
       ft_auth = (if mq_username config = None then auth_factory else None),
       ft_client = False, ft_backoff = 5, ft_next_retry = 0, ft_calls = [] \<rparr>"

text \<open>A call of the client: it is recorded and ends as given. \<open>MqttError\<close> is the package's exception.\<close>

definition ask :: "broker_call \<Rightarrow> exn option \<Rightarrow> (forward_target, unit) io" where
  "ask call answer =
     bindIO (modifyIO (\<lambda>f. f\<lparr>ft_calls := ft_calls f @ [call]\<rparr>)) (\<lambda>_.
       liftR (case answer of None \<Rightarrow> Inr () | Some e \<Rightarrow> Inl e))"

definition mqtt_error :: "exn \<Rightarrow> bool" where
  "mqtt_error e \<longleftrightarrow> e = LibraryError"

text \<open>\<open>try: m except MqttError: h else: n\<close>.\<close>

definition try_mqtt ::
    "('w, unit) io \<Rightarrow> ('w, 'a) io \<Rightarrow> ('w, 'a) io \<Rightarrow> ('w, 'a) io" where
  "try_mqtt m handler orelse w =
     (case m w of
        (Inl e, w1) \<Rightarrow> if mqtt_error e then handler w1 else (Inl e, w1)
      | (Inr _, w1) \<Rightarrow> orelse w1)"

text \<open>The status message of a target, and the arguments \<open>_connect\<close> adds to those of the configuration.\<close>

definition target_status :: "(rat \<Rightarrow> ustring) \<Rightarrow> ustring \<Rightarrow> ustring \<Rightarrow> forward_target \<Rightarrow> bytes res" where
  "target_status repr_of iso_text status f =
     status_payload repr_of iso_text status (ft_origin f) (ft_origin_id f) (ft_lat f) (ft_lon f)"

definition connect_overrides ::
    "crypto_lib \<Rightarrow> (rat \<Rightarrow> ustring) \<Rightarrow> moment \<Rightarrow> forward_target \<Rightarrow> (ustring \<rightharpoonup> client_arg) res" where
  "connect_overrides C repr_of m f =
     bindR (case ft_auth f of
              None \<Rightarrow> Inr Map.empty
            | Some (i, audience) \<Rightarrow>
                bindR (build_auth_token C i (Some audience) None None DEFAULT_TOKEN_LIFETIME_S (mo_wall m)) (\<lambda>token.
                Inr [ustr ''username'' \<mapsto> StrArg (Some (auth_username i)), ustr ''password'' \<mapsto> StrArg (Some token)]))
       (\<lambda>overrides.
     bindR (target_status repr_of (mo_iso_will m) (ustr ''offline'') f) (\<lambda>will.
     Inr (overrides(ustr ''will'' \<mapsto> WillArg (ft_status_topic f) will))))"

definition connect :: "crypto_lib \<Rightarrow> (rat \<Rightarrow> ustring) \<Rightarrow> moment \<Rightarrow> (forward_target, bool) io" where
  "connect C repr_of m =
     bindIO getIO (\<lambda>f.
     if mo_loop_time m < ft_next_retry f then returnIO False
     else
       bindIO (liftR (connect_overrides C repr_of m f)) (\<lambda>overrides.
       bindIO (liftR (case mo_client m of None \<Rightarrow> Inr () | Some e \<Rightarrow> Inl e)) (\<lambda>_.
       try_mqtt (ask (Connect (mo_loop_time m) (client_kwargs (ft_config f) overrides) (mo_connect m)) (mo_connect m))
         (bindIO (modifyIO (\<lambda>f. f\<lparr>ft_next_retry := fl (mo_loop_time m + ft_backoff f),
                                 ft_backoff := min (fl (ft_backoff f * 2)) 300\<rparr>)) (\<lambda>_.
          returnIO False))
         (bindIO (modifyIO (\<lambda>f. f\<lparr>ft_client := True, ft_backoff := 5, ft_next_retry := 0\<rparr>)) (\<lambda>_.
          try_mqtt
            (bindIO (liftR (target_status repr_of (mo_iso_online m) (ustr ''online'') f)) (\<lambda>online.
             ask (Publish (ft_status_topic f) online True (mo_announce m)) (mo_announce m)))
            (returnIO True)
            (returnIO True))))))"

text \<open>\<open>close\<close>, \<open>_publish_event\<close> and \<open>publish\<close>.\<close>

definition close_target :: "exn option \<Rightarrow> (forward_target, unit) io" where
  "close_target answer =
     bindIO getIO (\<lambda>f.
     if ft_client f
     then bindIO (ask (Disconnect answer) answer) (\<lambda>_. modifyIO (\<lambda>f. f\<lparr>ft_client := False\<rparr>))
     else returnIO ())"

definition publish_event :: "moment \<Rightarrow> json \<Rightarrow> (forward_target, unit) io" where
  "publish_event m event =
     bindIO (liftR (json_bytes event)) (\<lambda>payload.
     bindIO getIO (\<lambda>f. ask (Publish (ft_topic f) payload False (mo_publish m)) (mo_publish m)))"

definition publish_to :: "crypto_lib \<Rightarrow> (rat \<Rightarrow> ustring) \<Rightarrow> moment \<Rightarrow> json \<Rightarrow> (forward_target, unit) io" where
  "publish_to C repr_of m event =
     bindIO getIO (\<lambda>f.
     bindIO (if ft_client f then returnIO True else connect C repr_of m) (\<lambda>ready.
     if \<not> ready then returnIO ()
     else
       bindIO getIO (\<lambda>f.
       if \<not> ft_client f then liftR (Inl AssertionError)
       else try_mqtt (publish_event m event) (close_target (mo_close m)) (returnIO ()))))"

section \<open>The loops of the observer\<close>

text \<open>
  The observer's tasks: an MQTT message from the local broker, which \<open>forward_loop\<close> handles (its payload,
  \<open>None\<close> when it is not bytes; the texts of the clock; the moment of each target), and a tick of
  \<open>upload_stats_loop\<close>, which reports the counter and resets it. \<open>ob_reports\<close> records the reports.
\<close>

record observer =
  ob_targets :: "forward_target list"
  ob_uploaded :: int
  ob_reports :: "int list"

datatype observer_input =
    Message "bytes option" now_texts "nat \<Rightarrow> moment"
  | StatsTick

text \<open>
  \<open>asyncio.gather\<close> over the targets: they share nothing, so each runs on its own; when some raise, one of
  their exceptions ends the loop (which one depends on the timing; here the first in the list).
\<close>

definition gather_publish ::
    "crypto_lib \<Rightarrow> (rat \<Rightarrow> ustring) \<Rightarrow> (nat \<Rightarrow> moment) \<Rightarrow> json \<Rightarrow> forward_target list
       \<Rightarrow> unit res \<times> forward_target list" where
  "gather_publish C repr_of moments event targets =
     (let results = map (\<lambda>(j, f). publish_to C repr_of (moments j) event f) (List.enumerate 0 targets) in
      (bindR (mapR fst results) (\<lambda>_. Inr ()), map snd results))"

definition observer_event ::
    "crypto_lib \<Rightarrow> (rat \<Rightarrow> ustring) \<Rightarrow> ustring \<Rightarrow> ustring \<Rightarrow> observer_input \<Rightarrow> (observer, unit) io" where
  "observer_event C repr_of origin origin_id ev =
     (case ev of
        StatsTick \<Rightarrow> modifyIO (\<lambda>s. s\<lparr>ob_reports := ob_reports s @ [ob_uploaded s], ob_uploaded := 0\<rparr>)
      | Message data texts moments \<Rightarrow>
          (let payload = (case data of None \<Rightarrow> [] | Some b \<Rightarrow> b) in
           if payload = [] then returnIO ()
           else
             bindIO (liftR (build_event C texts payload origin origin_id)) (\<lambda>event.
             bindIO getIO (\<lambda>s.
             if ob_targets s = [] then returnIO ()
             else
               (let (result, targets) = gather_publish C repr_of moments event (ob_targets s) in
                bindIO (modifyIO (\<lambda>s. s\<lparr>ob_targets := targets\<rparr>)) (\<lambda>_.
                bindIO (liftR result) (\<lambda>_.
                modifyIO (\<lambda>s. s\<lparr>ob_uploaded := ob_uploaded s + 1\<rparr>))))))))"

definition observer_run ::
    "crypto_lib \<Rightarrow> (rat \<Rightarrow> ustring) \<Rightarrow> ustring \<Rightarrow> ustring \<Rightarrow> observer_input list \<Rightarrow> (observer, unit) io" where
  "observer_run C repr_of origin origin_id evs = forIO evs (observer_event C repr_of origin origin_id)"

section \<open>Starting and stopping\<close>

text \<open>
  The part of \<open>ObserverConfig\<close> that \<open>run\<close> makes its targets from; the topics are what \<open>str.format\<close>
  gives for the configured templates.
\<close>

record observer_config =
  oc_name :: "ustring option"
  oc_token_audience :: "ustring option"
  oc_mqtt_cornmeister :: mqtt_config
  oc_mqtt_radar :: mqtt_config
  oc_enable_cornmeister :: bool
  oc_enable_radar :: bool
  oc_cornmeister_topic :: ustring
  oc_radar_topic :: ustring
  oc_status_topic :: ustring
  oc_lat :: "rat option"
  oc_lon :: "rat option"

definition observer_origin :: "observer_config \<Rightarrow> identity \<Rightarrow> ustring" where
  "observer_origin c i =
     (case or_else (or_else (oc_name c) (Some (id_name i))) None of
        None \<Rightarrow> ustr ''softmesh-observer'' | Some n \<Rightarrow> n)"

definition audience :: "observer_config \<Rightarrow> mqtt_config \<Rightarrow> ustring" where
  "audience c broker = (case or_else (oc_token_audience c) None of None \<Rightarrow> mq_host broker | Some a \<Rightarrow> a)"

definition make_forwarders :: "observer_config \<Rightarrow> identity \<Rightarrow> forward_target list" where
  "make_forwarders c i =
     (let target = (\<lambda>broker topic.
            new_target broker topic (oc_status_topic c) (observer_origin c i) (hex_upper (bytes_hex (id_pub_key i)))
              (oc_lat c) (oc_lon c) (Some (i, audience c broker))) in
      (if oc_enable_cornmeister c then [target (oc_mqtt_cornmeister c) (oc_cornmeister_topic c)] else []) @
      (if oc_enable_radar c then [target (oc_mqtt_radar c) (oc_radar_topic c)] else []))"

definition start_observer :: "observer_config \<Rightarrow> identity \<Rightarrow> observer" where
  "start_observer c i = \<lparr> ob_targets = make_forwarders c i, ob_uploaded = 0, ob_reports = [] \<rparr>"

text \<open>The \<open>finally\<close> of \<open>run\<close>: the targets are closed in turn; one that cannot be closed ends the sweep.\<close>

fun close_all :: "(nat \<Rightarrow> exn option) \<Rightarrow> nat \<Rightarrow> forward_target list \<Rightarrow> unit res \<times> forward_target list" where
  "close_all answers j [] = (Inr (), [])"
| "close_all answers j (f # fs) =
     (case close_target (answers j) f of
        (Inl e, f') \<Rightarrow> (Inl e, f' # fs)
      | (Inr _, f') \<Rightarrow> let (r, fs') = close_all answers (Suc j) fs in (r, f' # fs'))"

section \<open>The calls, one by one\<close>

definition called :: "broker_call \<Rightarrow> forward_target \<Rightarrow> forward_target" where
  "called c f = f\<lparr>ft_calls := ft_calls f @ [c]\<rparr>"

lemma called_simps [simp]:
  "ft_calls (called c f) = ft_calls f @ [c]" "ft_client (called c f) = ft_client f"
  "ft_auth (called c f) = ft_auth f" "ft_backoff (called c f) = ft_backoff f"
  "ft_next_retry (called c f) = ft_next_retry f" "ft_topic (called c f) = ft_topic f"
  by (simp_all add: called_def)

lemma wp_ask [wp]:
  "wp (ask c a) Q E f = (case a of None \<Rightarrow> Q () (called c f) | Some e \<Rightarrow> E (called c f))"
  by (simp add: ask_def wp called_def split: option.splits)

lemma wp_try [wp]:
  shows "wp (try_mqtt (ask c a) h n) Q E f =
      (case a of None \<Rightarrow> wp n Q E (called c f)
       | Some e \<Rightarrow> if mqtt_error e then wp h Q E (called c f) else E (called c f))"
    and "wp (try_mqtt (bindIO (liftR r) k) h2 n2) Q2 E2 w =
      (case r of Inl e \<Rightarrow> if mqtt_error e then wp h2 Q2 E2 w else E2 w | Inr x \<Rightarrow> wp (try_mqtt (k x) h2 n2) Q2 E2 w)"
    and "wp (try_mqtt (bindIO getIO k3) h2 n2) Q2 E2 w = wp (try_mqtt (k3 w) h2 n2) Q2 E2 w"
  by (auto simp: wp_def try_mqtt_def ask_def io_defs called_def split: option.splits sum.splits)

section \<open>The retry schedule\<close>

text \<open>The delay after \<open>n + 1\<close> failures in a row.\<close>

fun delay :: "nat \<Rightarrow> rat" where
  "delay 0 = 5"
| "delay (Suc n) = min (2 * delay n) 300"

lemma delay_bounds: "5 \<le> delay n \<and> delay n \<le> 300"
  by (induction n) auto

lemma delay_int: "\<exists>k :: int. delay n = of_int k"
proof (induction n)
  case 0
  have "delay 0 = of_int 5" by simp
  then show ?case by blast
next
  case (Suc n)
  then obtain k :: int where k: "delay n = of_int k" by blast
  have "delay (Suc n) = of_int (min (2 * k) 300)" by (simp add: k of_int_min)
  then show ?case by blast
qed

lemma fl_delay: "fl (2 * delay n) = 2 * delay n"
proof -
  obtain k :: int where k: "delay n = of_int k" using delay_int by blast
  have "\<bar>2 * k\<bar> < 2 ^ 53" using delay_bounds [of n] by (simp add: k)
  from fl_int [OF this] show ?thesis by (simp add: k)
qed

text \<open>The attempts to connect, newest first, and the number of failures since the last success.\<close>

definition attempts :: "forward_target \<Rightarrow> (rat \<times> exn option) list" where
  "attempts f = rev (concat (map (\<lambda>c. case c of Connect t _ a \<Rightarrow> [(t, a)] | _ \<Rightarrow> []) (ft_calls f)))"

fun failures :: "(rat \<times> exn option) list \<Rightarrow> nat" where
  "failures [] = 0"
| "failures ((t, None) # as) = 0"
| "failures ((t, Some e) # as) = (if mqtt_error e then Suc (failures as) else failures as)"

text \<open>After a failed attempt the next one comes no sooner than its delay after it.\<close>

fun spaced :: "(rat \<times> exn option) list \<Rightarrow> bool" where
  "spaced ((t, a) # (t0, Some e) # as) =
     ((mqtt_error e \<longrightarrow> fl (t0 + delay (failures as)) \<le> t) \<and> spaced ((t0, Some e) # as))"
| "spaced (_ # as) = spaced as"
| "spaced [] = True"

definition scheduled :: "forward_target \<Rightarrow> bool" where
  "scheduled f \<longleftrightarrow> spaced (attempts f) \<and> ft_backoff f = delay (failures (attempts f)) \<and>
     (\<forall>t e as. attempts f = (t, Some e) # as \<and> mqtt_error e \<longrightarrow> ft_next_retry f = fl (t + delay (failures as)))"

lemma attempts_simps [simp]:
  "attempts (called (Connect t k a) f) = (t, a) # attempts f"
  "attempts (called (Publish p b r a) f) = attempts f" "attempts (called (Disconnect a) f) = attempts f"
  "attempts (f\<lparr>ft_next_retry := x, ft_backoff := y\<rparr>) = attempts f"
  "attempts (f\<lparr>ft_client := z, ft_backoff := y, ft_next_retry := x\<rparr>) = attempts f"
  "attempts (f\<lparr>ft_client := z\<rparr>) = attempts f"
  by (simp_all add: attempts_def)

lemma spaced_Cons:
  assumes "spaced as" "\<And>t0 e rest. as = (t0, Some e) # rest \<Longrightarrow> mqtt_error e \<Longrightarrow> fl (t0 + delay (failures rest)) \<le> t"
  shows "spaced ((t, a) # as)"
  using assms by (cases "((t, a) # as)" rule: spaced.cases) auto

lemma scheduled_attempt:
  assumes "scheduled f" "\<not> mo_loop_time m < ft_next_retry f"
  shows "spaced ((mo_loop_time m, a) # attempts f)"
proof (rule spaced_Cons)
  show "spaced (attempts f)" using assms(1) by (simp add: scheduled_def)
  fix t0 e rest assume "attempts f = (t0, Some e) # rest" "mqtt_error e"
  then have "ft_next_retry f = fl (t0 + delay (failures rest))" using assms(1) unfolding scheduled_def by blast
  then show "fl (t0 + delay (failures rest)) \<le> mo_loop_time m" using assms(2) by simp
qed

lemma scheduled_connect: "scheduled f \<Longrightarrow> wp (connect C repr_of m) (\<lambda>_. scheduled) scheduled f"
  using scheduled_attempt [of f m]
  by (auto simp: connect_def wp scheduled_def fl_delay mult.commute split: option.splits sum.splits)

lemma scheduled_call:
  assumes "scheduled f"
  shows "wp (close_target a) (\<lambda>_. scheduled) scheduled f" "wp (publish_event m event) (\<lambda>_. scheduled) scheduled f"
  using assms by (auto simp: close_target_def publish_event_def wp scheduled_def split: option.splits sum.splits)

lemma wp_try_inv:
  assumes "wp m (\<lambda>_. I) I w" "\<And>w. I w \<Longrightarrow> wp h (\<lambda>_. I) I w" "\<And>w. I w \<Longrightarrow> wp n (\<lambda>_. I) I w"
  shows "wp (try_mqtt m h n) (\<lambda>_. I) I w"
  using assms unfolding wp_snd try_mqtt_def by (cases "m w") (auto split: sum.splits)

lemma scheduled_publish: "scheduled f \<Longrightarrow> wp (publish_to C repr_of m event) (\<lambda>_. scheduled) scheduled f"
proof -
  assume f: "scheduled f"
  have rest: "wp (if \<not> ready then returnIO ()
     else bindIO getIO (\<lambda>f. if \<not> ft_client f then liftR (Inl AssertionError)
       else try_mqtt (publish_event m event) (close_target (mo_close m)) (returnIO ()))) (\<lambda>_. scheduled) scheduled g"
    if "scheduled g" for ready g
    using that wp_try_inv [where I = scheduled, OF scheduled_call(2) [OF that] scheduled_call(1), of "returnIO ()"]
    by (simp add: wp)
  have "wp (if ft_client f then returnIO True else connect C repr_of m) (\<lambda>_. scheduled) scheduled f"
    using f scheduled_connect [OF f] by (simp add: wp)
  then show ?thesis unfolding publish_to_def wp_simps(3,5) by (rule wp_mono) (rule rest | assumption)+
qed

section \<open>A broker that may fail\<close>

text \<open>What the broker got: the payloads of its publishes, without the announcements and the failed ones.\<close>

definition accepted :: "forward_target \<Rightarrow> bytes list" where
  "accepted f = concat (map (\<lambda>c. case c of Publish _ b False None \<Rightarrow> [b] | _ \<Rightarrow> []) (ft_calls f))"

text \<open>The faults a broker may have: any call of the client raises \<open>MqttError\<close>, but making it and closing it do not.\<close>

definition mqtt_faults :: "moment \<Rightarrow> bool" where
  "mqtt_faults m \<longleftrightarrow> mo_client m = None \<and> mo_close m = None \<and>
     pred_option mqtt_error (mo_connect m) \<and> pred_option mqtt_error (mo_announce m) \<and> pred_option mqtt_error (mo_publish m)"

definition can_sign :: "forward_target \<Rightarrow> bool" where
  "can_sign f \<longleftrightarrow> pred_option (\<lambda>(i, audience). length (id_seed i) = 32) (ft_auth f)"

lemma accepted_simps [simp]:
  "accepted (called (Connect t k a) f) = accepted f" "accepted (called (Disconnect a) f) = accepted f"
  "accepted (called (Publish p b True a) f) = accepted f"
  "accepted (called (Publish p b False (Some e)) f) = accepted f"
  "accepted (called (Publish p b False None) f) = accepted f @ [b]"
  "accepted (f\<lparr>ft_next_retry := x, ft_backoff := y\<rparr>) = accepted f"
  "accepted (f\<lparr>ft_client := z, ft_backoff := y, ft_next_retry := x\<rparr>) = accepted f"
  "accepted (f\<lparr>ft_client := z\<rparr>) = accepted f"
  by (simp_all add: accepted_def split: bool.splits option.splits)

lemma can_sign_cong [simp]: "can_sign (called c f) = can_sign f"
  "can_sign (f\<lparr>ft_next_retry := x, ft_backoff := y\<rparr>) = can_sign f"
  "can_sign (f\<lparr>ft_client := z, ft_backoff := y, ft_next_retry := x\<rparr>) = can_sign f"
  "can_sign (f\<lparr>ft_client := z\<rparr>) = can_sign f"
  by (simp_all add: can_sign_def)

lemma overrides_ok:
  assumes "can_sign f" "\<And>x. ascii (repr_of x)"
  shows "\<exists>k. connect_overrides C repr_of m f = Inr k"
proof -
  obtain b where b: "target_status repr_of (mo_iso_will m) (ustr ''offline'') f = Inr b"
    using status_ok assms(2) unfolding target_status_def by blast
  have "\<exists>t. build_auth_token C i (Some a) None None DEFAULT_TOKEN_LIFETIME_S (mo_wall m) = Inr t"
    if "ft_auth f = Some (i, a)" for i a
    using that assms(1) by (intro token_total) (simp add: can_sign_def)
  then show ?thesis using b by (fastforce simp: connect_overrides_def split: option.splits)
qed

lemma connect_fault:
  assumes "can_sign f" "\<And>x. ascii (repr_of x)" "mqtt_faults m"
  shows "wp (connect C repr_of m) (\<lambda>ready g. can_sign g \<and> accepted g = accepted f \<and> (ready \<longrightarrow> ft_client g) \<and>
    (mo_connect m = None \<and> ft_next_retry f \<le> mo_loop_time m \<longrightarrow> ready)) (\<lambda>_. False) f"
proof -
  obtain k where k: "connect_overrides C repr_of m f = Inr k" using overrides_ok [where repr_of = repr_of, OF assms(1,2)] by blast
  obtain b where b: "target_status repr_of (mo_iso_online m) (ustr ''online'') f = Inr b"
    using status_ok assms(2) unfolding target_status_def by blast
  show ?thesis using assms(1,3)
    by (auto simp: connect_def wp k b mqtt_faults_def split: option.splits)
qed

lemma publish_fault:
  assumes "can_sign f" "\<And>x. ascii (repr_of x)" "mqtt_faults m" "json_bytes event = Inr b"
  shows "wp (publish_to C repr_of m event) (\<lambda>_ g. can_sign g \<and>
      (accepted g = accepted f \<or> accepted g = accepted f @ [b]) \<and>
      (mo_connect m = None \<and> mo_publish m = None \<and> (ft_client f \<or> ft_next_retry f \<le> mo_loop_time m) \<longrightarrow>
         accepted g = accepted f @ [b] \<and> ft_client g)) (\<lambda>_. False) f"
proof -
  let ?ready = "if ft_client f then returnIO True else connect C repr_of m"
  have "wp ?ready (\<lambda>ready g. can_sign g \<and> accepted g = accepted f \<and> (ready \<longrightarrow> ft_client g) \<and>
    (mo_connect m = None \<and> (ft_client f \<or> ft_next_retry f \<le> mo_loop_time m) \<longrightarrow> ready)) (\<lambda>_. False) f"
    using assms(1) connect_fault [where repr_of = repr_of, OF assms(1-3), of C] by (auto simp: wp)
  then show ?thesis unfolding publish_to_def wp_simps(3,5)
  proof (rule wp_mono)
    fix ready g
    assume "can_sign g \<and> accepted g = accepted f \<and> (ready \<longrightarrow> ft_client g) \<and>
      (mo_connect m = None \<and> (ft_client f \<or> ft_next_retry f \<le> mo_loop_time m) \<longrightarrow> ready)"
    then show "wp (if \<not> ready then returnIO () else bindIO getIO (\<lambda>f. if \<not> ft_client f then liftR (Inl AssertionError)
        else try_mqtt (publish_event m event) (close_target (mo_close m)) (returnIO ())))
      (\<lambda>_ g. can_sign g \<and> (accepted g = accepted f \<or> accepted g = accepted f @ [b]) \<and>
        (mo_connect m = None \<and> mo_publish m = None \<and> (ft_client f \<or> ft_next_retry f \<le> mo_loop_time m) \<longrightarrow>
         accepted g = accepted f @ [b] \<and> ft_client g)) (\<lambda>_. False) g"
      using assms(3,4) by (auto simp: wp publish_event_def close_target_def mqtt_faults_def split: option.splits)
  qed
qed

section \<open>The loops\<close>

lemma gather_targets:
  "length (snd (gather_publish C repr_of moments event ts)) = length ts"
  "j < length ts \<Longrightarrow> snd (gather_publish C repr_of moments event ts) ! j = snd (publish_to C repr_of (moments j) event (ts ! j))"
  by (simp_all add: gather_publish_def nth_enumerate_eq split: prod.splits)

lemma gather_result:
  assumes "\<And>j. j < length ts \<Longrightarrow> fst (publish_to C repr_of (moments j) event (ts ! j)) = Inr ()"
  shows "fst (gather_publish C repr_of moments event ts) = Inr ()"
proof -
  have "mapR fst (map (\<lambda>(j, f). publish_to C repr_of (moments j) event f) (List.enumerate 0 ts)) =
    Inr (map (\<lambda>_. ()) (map (\<lambda>(j, f). publish_to C repr_of (moments j) event f) (List.enumerate 0 ts)))"
    by (rule mapR_all_Inr) (auto simp: in_set_enumerate_eq assms)
  then show ?thesis by (simp add: gather_publish_def del: map_map)
qed

text \<open>What each target keeps whatever its broker does, the observer keeps for all of them.\<close>

definition all_moments :: "(moment \<Rightarrow> bool) \<Rightarrow> observer_input \<Rightarrow> bool" where
  "all_moments M ev \<longleftrightarrow> (case ev of StatsTick \<Rightarrow> True | Message data texts moments \<Rightarrow> \<forall>j. M (moments j))"

lemma observer_keeps:
  assumes pub: "\<And>m event f. M m \<Longrightarrow> I f \<Longrightarrow> wp (publish_to C repr_of m event) (\<lambda>_. I) I f"
    and ts: "\<forall>f \<in> set (ob_targets s). I f" and evs: "\<forall>ev \<in> set evs. all_moments M ev"
  shows "\<forall>f \<in> set (ob_targets (snd (observer_run C repr_of origin origin_id evs s))). I f"
proof -
  let ?I = "\<lambda>s. \<forall>f \<in> set (ob_targets s). I f"
  have g: "\<forall>f \<in> set us. I f" if "gather_publish C repr_of moments event ts = (res, us)" "\<forall>f \<in> set ts. I f" "\<forall>j. M (moments j)"
    for moments event ts res us
  proof -
    have u: "us = snd (gather_publish C repr_of moments event ts)" using that(1) by simp
    show ?thesis using that(2,3) pub unfolding u all_set_conv_all_nth by (simp add: gather_targets wp_snd)
  qed
  have "wp (observer_event C repr_of origin origin_id ev) (\<lambda>_. ?I) ?I s" if "?I s" "all_moments M ev" for ev s
    using that by (auto simp: observer_event_def all_moments_def wp Let_def
        split: observer_input.splits option.splits sum.splits prod.splits dest: g)
  then have "wp (observer_run C repr_of origin origin_id evs) (\<lambda>_. ?I) ?I s"
    unfolding observer_run_def using ts evs by (intro wp_for) auto
  then show ?thesis by (simp add: wp_snd)
qed

text \<open>The events of the frames in an input, as they are sent.\<close>

definition reports :: "crypto_lib \<Rightarrow> ustring \<Rightarrow> ustring \<Rightarrow> observer_input list \<Rightarrow> bytes list" where
  "reports C origin origin_id evs = concat (map (\<lambda>ev. case ev of
      Message (Some (b # bs)) texts _ \<Rightarrow>
        (case bindR (build_event C texts (b # bs) origin origin_id) json_bytes of Inl e \<Rightarrow> [] | Inr r \<Rightarrow> [r])
    | _ \<Rightarrow> []) evs)"

text \<open>The state after a run: the targets got part of the reports, in order, and the counter counted all of them.\<close>

definition forwarded :: "bytes list \<Rightarrow> observer \<Rightarrow> observer \<Rightarrow> bool" where
  "forwarded rs s s' \<longleftrightarrow>
     length (ob_targets s') = length (ob_targets s) \<and>
     (\<forall>j < length (ob_targets s). can_sign (ob_targets s' ! j) \<and>
        (\<exists>got. accepted (ob_targets s' ! j) = accepted (ob_targets s ! j) @ got \<and> subseq got rs)) \<and>
     ob_uploaded s' + sum_list (ob_reports s') =
       ob_uploaded s + sum_list (ob_reports s) + (if ob_targets s = [] then 0 else int (length rs))"

lemma forwarded_trans: "forwarded rs s t \<Longrightarrow> forwarded rs' t u \<Longrightarrow> forwarded (rs @ rs') s u"
proof -
  assume a: "forwarded rs s t" "forwarded rs' t u"
  have e: "ob_targets t = [] \<longleftrightarrow> ob_targets s = []" using a(1) by (auto simp: forwarded_def)
  show ?thesis unfolding forwarded_def
  proof (intro conjI allI impI)
    fix j assume j: "j < length (ob_targets s)"
    then have j': "j < length (ob_targets t)" using a(1) by (simp add: forwarded_def)
    show "can_sign (ob_targets u ! j)" using a(2) j' by (simp add: forwarded_def)
    obtain g where "accepted (ob_targets t ! j) = accepted (ob_targets s ! j) @ g" "subseq g rs"
      using a(1) j by (auto simp: forwarded_def)
    moreover obtain h where "accepted (ob_targets u ! j) = accepted (ob_targets t ! j) @ h" "subseq h rs'"
      using a(2) j' by (auto simp: forwarded_def)
    ultimately show "\<exists>got. accepted (ob_targets u ! j) = accepted (ob_targets s ! j) @ got \<and> subseq got (rs @ rs')"
      by (intro exI [of _ "g @ h"]) (simp add: list_emb_append_mono)
  qed (use a e in \<open>auto simp: forwarded_def\<close>)
qed

lemma forward_one:
  assumes "\<forall>f \<in> set (ob_targets s). can_sign f" "\<And>x. ascii (repr_of x)" "all_moments mqtt_faults ev"
  shows "wp (observer_event C repr_of origin origin_id ev) (\<lambda>_ s'. forwarded (reports C origin origin_id [ev]) s s') (\<lambda>_. False) s"
proof (cases "\<exists>b bs texts moments. ev = Message (Some (b # bs)) texts moments")
  case False
  have s: "forwarded [] s s" using assms(1) by (auto simp: forwarded_def)
  have "reports C origin origin_id [ev] = []"
    using False by (auto simp: reports_def split: observer_input.splits option.splits list.splits)
  then show ?thesis using False s assms(1)
    by (auto simp: observer_event_def wp forwarded_def Let_def split: observer_input.splits option.splits) (meson neq_Nil_conv)+
next
  case True
  then obtain b bs texts moments where ev: "ev = Message (Some (b # bs)) texts moments" by blast
  obtain event r where e: "build_event C texts (b # bs) origin origin_id = Inr event" "json_bytes event = Inr r"
    using event_ok [of C texts "b # bs" origin origin_id] json_bytes_ok by blast
  then have rs: "reports C origin origin_id [ev] = [r]" by (simp add: reports_def ev)
  have p: "wp (publish_to C repr_of (moments j) event) (\<lambda>_ g. can_sign g \<and> (accepted g = accepted (ob_targets s ! j) \<or>
      accepted g = accepted (ob_targets s ! j) @ [r])) (\<lambda>_. False) (ob_targets s ! j)" if "j < length (ob_targets s)" for j
    by (rule wp_mono [OF publish_fault [where repr_of = repr_of, OF _ assms(2) _ e(2)]])
      (use that assms(1,3) ev in \<open>auto simp: all_moments_def\<close>)
  obtain res ts where g: "gather_publish C repr_of moments event (ob_targets s) = (res, ts)" by fastforce
  have "fst (publish_to C repr_of (moments j) event (ob_targets s ! j)) = Inr ()" if "j < length (ob_targets s)" for j
    using p [OF that] by (auto simp: wp_runs)
  then have "res = Inr ()" using gather_result [of "ob_targets s" C repr_of moments event] g by simp
  moreover have "length ts = length (ob_targets s)" using gather_targets(1) [of C repr_of moments event "ob_targets s"] g by simp
  moreover have "can_sign (ts ! j) \<and> (accepted (ts ! j) = accepted (ob_targets s ! j) \<or>
      accepted (ts ! j) = accepted (ob_targets s ! j) @ [r])" if "j < length (ob_targets s)" for j
    using gather_targets(2) [OF that, of C repr_of moments event] p [OF that] g by (auto simp: wp_runs)
  moreover have "\<exists>got. x = y @ got \<and> subseq got [r]" if "x = y \<or> x = y @ [r]" for x y :: "bytes list"
    using that by (cases "x = y") auto
  ultimately show ?thesis unfolding rs
    by (auto simp: observer_event_def ev wp e g forwarded_def)
qed

lemma run_forwards:
  assumes "\<forall>f \<in> set (ob_targets s). can_sign f" "\<And>x. ascii (repr_of x)" "\<forall>ev \<in> set evs. all_moments mqtt_faults ev"
  shows "wp (observer_run C repr_of origin origin_id evs) (\<lambda>_ s'. forwarded (reports C origin origin_id evs) s s') (\<lambda>_. False) s"
  using assms(1,3)
proof (induction evs arbitrary: s)
  case Nil
  then show ?case by (auto simp: observer_run_def wp reports_def forwarded_def)
next
  case (Cons ev evs)
  have r: "reports C origin origin_id (ev # evs) = reports C origin origin_id [ev] @ reports C origin origin_id evs"
    by (simp add: reports_def)
  have one: "wp (observer_event C repr_of origin origin_id ev) (\<lambda>_ s'. forwarded (reports C origin origin_id [ev]) s s') (\<lambda>_. False) s"
    using Cons.prems by (intro forward_one assms(2)) auto
  have "wp (observer_event C repr_of origin origin_id ev) (\<lambda>_. wp (observer_run C repr_of origin origin_id evs)
      (\<lambda>_ s'. forwarded (reports C origin origin_id (ev # evs)) s s') (\<lambda>_. False)) (\<lambda>_. False) s"
  proof (rule wp_mono [OF one])
    fix t assume t: "forwarded (reports C origin origin_id [ev]) s t"
    have "\<forall>f \<in> set (ob_targets t). can_sign f" using t by (simp add: forwarded_def all_set_conv_all_nth)
    then have w: "wp (observer_run C repr_of origin origin_id evs)
      (\<lambda>_ s'. forwarded (reports C origin origin_id evs) t s') (\<lambda>_. False) t"
      using Cons.prems(2) by (intro Cons.IH) simp_all
    show "wp (observer_run C repr_of origin origin_id evs)
      (\<lambda>_ s'. forwarded (reports C origin origin_id (ev # evs)) s s') (\<lambda>_. False) t"
      unfolding r by (rule wp_mono [OF w]) (rule forwarded_trans [OF t], assumption+)
  qed simp
  then show ?case by (simp add: observer_run_def wp)
qed

lemma connect_refused:
  assumes "\<not> ft_client f" "mo_connect m \<noteq> None" "mqtt_faults m"
  shows "wp (publish_to C repr_of m event) (\<lambda>_ g. \<not> ft_client g \<and> accepted g = accepted f) (\<lambda>g. \<not> ft_client g \<and> accepted g = accepted f) f"
proof -
  have "wp (connect C repr_of m) (\<lambda>ready g. \<not> ready \<and> \<not> ft_client g \<and> accepted g = accepted f) (\<lambda>g. \<not> ft_client g \<and> accepted g = accepted f) f"
    using assms by (auto simp: connect_def wp mqtt_faults_def split: option.splits sum.splits)
  then have "wp (if ft_client f then returnIO True else connect C repr_of m) (\<lambda>ready g. \<not> ready \<and> \<not> ft_client g \<and> accepted g = accepted f)
      (\<lambda>g. \<not> ft_client g \<and> accepted g = accepted f) f"
    using assms(1) by simp
  then show ?thesis unfolding publish_to_def wp_simps(3,5) by (rule wp_mono) (simp_all add: wp)
qed

lemma no_uploads:
  assumes "\<forall>f \<in> set (ob_targets s). can_sign f \<and> \<not> ft_client f \<and> accepted f = []" "ob_targets s \<noteq> []" "\<And>x. ascii (repr_of x)"
    and "\<forall>ev \<in> set evs. all_moments (\<lambda>m. mqtt_faults m \<and> mo_connect m \<noteq> None) ev"
  shows "\<exists>s'. observer_run C repr_of origin origin_id evs s = (Inr (), s') \<and>
    (\<forall>f \<in> set (ob_targets s'). accepted f = []) \<and>
    ob_uploaded s' + sum_list (ob_reports s') =
      ob_uploaded s + sum_list (ob_reports s) + int (length (reports C origin origin_id evs))"
proof -
  have "\<forall>ev \<in> set evs. all_moments mqtt_faults ev" using assms(4) by (auto simp: all_moments_def split: observer_input.splits)
  then obtain s' where s': "observer_run C repr_of origin origin_id evs s = (Inr (), s')"
    "forwarded (reports C origin origin_id evs) s s'"
    using run_forwards [where repr_of = repr_of, of s evs C origin origin_id] assms(1,3) by (auto simp: wp_runs)
  have "\<forall>f \<in> set (ob_targets (snd (observer_run C repr_of origin origin_id evs s))). \<not> ft_client f \<and> accepted f = []"
  proof (rule observer_keeps [OF _ _ assms(4)])
    fix m event f assume "mqtt_faults m \<and> mo_connect m \<noteq> None" "\<not> ft_client f \<and> accepted f = []"
    then show "wp (publish_to C repr_of m event) (\<lambda>_ f. \<not> ft_client f \<and> accepted f = []) (\<lambda>f. \<not> ft_client f \<and> accepted f = []) f"
      using connect_refused [of f m C repr_of event] by simp
  qed (use assms(1) in blast)
  then show ?thesis using s' assms(2) by (auto simp: forwarded_def)
qed

text \<open>The targets of an observer that starts can sign their tokens and have sent nothing; after the sweep all are closed.\<close>

lemma started_targets:
  assumes "length (id_seed i) = 32" "f \<in> set (ob_targets (start_observer c i))"
  shows "can_sign f \<and> \<not> ft_client f \<and> accepted f = [] \<and> scheduled f"
  using assms by (auto simp: start_observer_def make_forwarders_def Let_def new_target_def can_sign_def accepted_def
      scheduled_def attempts_def split: if_splits)

lemma all_closed:
  "(\<And>j. answers j = None) \<Longrightarrow> \<exists>fs'. close_all answers j fs = (Inr (), fs') \<and> length fs' = length fs \<and> (\<forall>f \<in> set fs'. \<not> ft_client f)"
proof (induction fs arbitrary: j)
  case (Cons f fs)
  obtain fs' where fs': "close_all answers (Suc j) fs = (Inr (), fs')" "length fs' = length fs" "\<forall>f \<in> set fs'. \<not> ft_client f"
    using Cons.IH [OF Cons.prems] by blast
  have "wp (close_target (answers j)) (\<lambda>_ g. \<not> ft_client g) (\<lambda>_. False) f"
    by (simp add: close_target_def wp Cons.prems)
  then obtain g where "close_target (answers j) f = (Inr (), g)" "\<not> ft_client g" by (auto simp: wp_runs)
  then show ?case using fs' by simp
qed simp

section \<open>Properties\<close>

text \<open>
  Property (C20): attempts to connect are spaced. Whatever the brokers answer and whatever exceptions end
  the run, after a failed attempt to connect to a collector the next one comes no earlier than its delay
  after it: 5 seconds after the first failure, twice as long after each further one, at most 300.
\<close>

theorem retries_are_spaced:
  assumes "\<forall>f \<in> set (ob_targets s). \<exists>config topic status o1 o2 lat lon auth. f = new_target config topic status o1 o2 lat lon auth"
    and "f \<in> set (ob_targets (snd (observer_run C repr_of origin origin_id evs s)))"
  shows "spaced (attempts f) \<and> 5 \<le> ft_backoff f \<and> ft_backoff f \<le> 300"
proof -
  have "scheduled (new_target config topic status o1 o2 lat lon auth)" for config topic status o1 o2 lat lon auth
    by (simp add: scheduled_def attempts_def new_target_def)
  then have "\<forall>f \<in> set (ob_targets s). scheduled f" using assms(1) by fastforce
  then have "scheduled f" using observer_keeps [where I = scheduled and M = "\<lambda>_. True", OF scheduled_publish] assms(2)
    by (auto simp: all_moments_def split: observer_input.splits)
  then show ?thesis using delay_bounds [of "failures (attempts f)"] by (auto simp: scheduled_def)
qed

definition demo_conf :: mqtt_config where
  "demo_conf = \<lparr> mq_host = [104], mq_port = 1883, mq_username = None, mq_password = None, mq_use_tls = False,
     mq_transport = Tcp, mq_websocket_path = None, mq_tls_ca_cert = None, mq_tls_certfile = None,
     mq_tls_keyfile = None, mq_tls_insecure = False \<rparr>"

definition demo_target :: forward_target where
  "demo_target = new_target demo_conf [116] [115] [111] [105] None None
     (Some (\<lparr> id_seed = replicate 32 3, id_pub_key = replicate 32 3, id_name = [] \<rparr>, [97]))"

definition demo_observer :: observer where
  "demo_observer = \<lparr> ob_targets = [demo_target], ob_uploaded = 0, ob_reports = [] \<rparr>"

text \<open>A broker that cannot be reached, and one that fails when it is published to.\<close>

definition unreachable :: "nat \<Rightarrow> moment" where
  "unreachable j = \<lparr> mo_loop_time = 1, mo_wall = 2, mo_iso_will = [], mo_iso_online = [], mo_client = None,
     mo_connect = Some LibraryError, mo_announce = None, mo_publish = None, mo_close = None \<rparr>"

definition demo_frame :: "(nat \<Rightarrow> moment) \<Rightarrow> observer_input" where
  "demo_frame = Message (Some [6, 0, 104]) \<lparr> nt_iso = [], nt_time = [], nt_date = [] \<rparr>"

lemma retries_are_spaced_witness:
  "\<exists>f. ob_targets (snd (observer_run demo_lib (\<lambda>_. []) [] [] [demo_frame unreachable, demo_frame unreachable] demo_observer)) = [f] \<and>
    spaced (attempts f)"
proof -
  let ?s = "snd (observer_run demo_lib (\<lambda>_. []) [] [] [demo_frame unreachable, demo_frame unreachable] demo_observer)"
  have "wp (observer_run demo_lib (\<lambda>_. []) [] [] [demo_frame unreachable, demo_frame unreachable])
      (\<lambda>_ s'. forwarded (reports demo_lib [] [] [demo_frame unreachable, demo_frame unreachable]) demo_observer s') (\<lambda>_. False) demo_observer"
    by (rule run_forwards) (auto simp: demo_observer_def demo_target_def can_sign_def new_target_def demo_conf_def
        all_moments_def demo_frame_def mqtt_faults_def unreachable_def mqtt_error_def)
  then have "length (ob_targets ?s) = 1"
    by (auto simp: wp_runs forwarded_def demo_observer_def)
  then obtain f where f: "ob_targets ?s = [f]" by (auto simp: length_Suc_conv)
  have "spaced (attempts f) \<and> 5 \<le> ft_backoff f \<and> ft_backoff f \<le> 300"
    by (rule retries_are_spaced [where s = demo_observer])
      (simp add: demo_observer_def demo_target_def, blast, subst f, simp)
  then show ?thesis using f by blast
qed

text \<open>
  Property (C19): the observer survives its brokers. As long as the collectors' clients raise only
  \<open>MqttError\<close>, and not when they are closed, no exception leaves the forwarding loop, whatever frames arrive;
  every collector gets some of the reports, in the order of the frames, none twice and nothing else.
\<close>

theorem broker_failures_are_survived:
  assumes "\<forall>f \<in> set (ob_targets s). can_sign f" "\<And>x. ascii (repr_of x)" "\<forall>ev \<in> set evs. all_moments mqtt_faults ev"
    and "j < length (ob_targets s)"
  shows "\<exists>s' got. observer_run C repr_of origin origin_id evs s = (Inr (), s') \<and>
    length (ob_targets s') = length (ob_targets s) \<and>
    accepted (ob_targets s' ! j) = accepted (ob_targets s ! j) @ got \<and> subseq got (reports C origin origin_id evs)"
  using run_forwards [where repr_of = repr_of, OF assms(1-3), of C origin origin_id] assms(4)
  by (auto simp: wp_runs forwarded_def)

lemma broker_failures_are_survived_witness:
  "\<exists>s' got. observer_run demo_lib (\<lambda>_. []) [] [] [demo_frame unreachable, StatsTick] demo_observer = (Inr (), s') \<and>
    accepted (ob_targets s' ! 0) = got \<and> subseq got (reports demo_lib [] [] [demo_frame unreachable, StatsTick])"
proof -
  have "\<forall>f \<in> set (ob_targets demo_observer). can_sign f"
    by (simp add: demo_observer_def demo_target_def can_sign_def new_target_def demo_conf_def)
  moreover have "\<forall>ev \<in> set [demo_frame unreachable, StatsTick]. all_moments mqtt_faults ev"
    by (simp add: all_moments_def demo_frame_def mqtt_faults_def unreachable_def mqtt_error_def)
  ultimately show ?thesis
    using broker_failures_are_survived [of demo_observer "\<lambda>_. []" "[demo_frame unreachable, StatsTick]" 0 demo_lib "[]" "[]"]
    by (auto simp: demo_observer_def demo_target_def new_target_def accepted_def)
qed

text \<open>
  The upload statistics count frames, not uploads. When no collector can be connected to,
  none gets anything; yet every frame counts as an upload, and what the statistics reported and still
  hold adds up to the number of frames.
\<close>

lemma uploads_counted_per_frame:
  assumes "\<forall>f \<in> set (ob_targets s). can_sign f \<and> \<not> ft_client f \<and> accepted f = []" "ob_targets s \<noteq> []" "\<And>x. ascii (repr_of x)"
    and "\<forall>ev \<in> set evs. all_moments (\<lambda>m. mqtt_faults m \<and> mo_connect m \<noteq> None) ev"
  shows "\<exists>s'. observer_run C repr_of origin origin_id evs s = (Inr (), s') \<and>
    (\<forall>f \<in> set (ob_targets s'). accepted f = []) \<and>
    ob_uploaded s' + sum_list (ob_reports s') =
      ob_uploaded s + sum_list (ob_reports s) + int (length (reports C origin origin_id evs))"
  by (rule no_uploads [OF assms])

lemma uploads_counted_per_frame_witness:
  "\<exists>s'. observer_run demo_lib (\<lambda>_. []) [] [] [demo_frame unreachable] demo_observer = (Inr (), s') \<and>
    (\<forall>f \<in> set (ob_targets s'). accepted f = []) \<and> ob_uploaded s' + sum_list (ob_reports s') = 1"
proof -
  have "\<forall>f \<in> set (ob_targets demo_observer). can_sign f \<and> \<not> ft_client f \<and> accepted f = []"
    by (simp add: accepted_def demo_observer_def demo_target_def can_sign_def new_target_def demo_conf_def)
  moreover have "\<forall>ev \<in> set [demo_frame unreachable]. all_moments (\<lambda>m. mqtt_faults m \<and> mo_connect m \<noteq> None) ev"
    by (simp add: all_moments_def demo_frame_def mqtt_faults_def unreachable_def mqtt_error_def)
  moreover have "length (reports demo_lib [] [] [demo_frame unreachable]) = 1"
  proof -
    obtain v where v: "build_event demo_lib \<lparr> nt_iso = [], nt_time = [], nt_date = [] \<rparr> [6, 0, 104] [] [] = Inr v" "ascii_floats v"
      using event_ok by blast
    show ?thesis by (simp add: reports_def demo_frame_def v(1) json_bytes_ok [OF v(2)])
  qed
  ultimately show ?thesis
    using uploads_counted_per_frame [of demo_observer "\<lambda>_. []" "[demo_frame unreachable]" demo_lib "[]" "[]"]
    by (auto simp: demo_observer_def demo_target_def new_target_def accepted_def)
qed

text \<open>
  A failure to close ends the observer. When a collector's client raises \<open>MqttError\<close> on a
  publish and again when the target closes it, the exception leaves \<open>publish\<close> and the forwarding loop,
  and the target still holds the broken client.
\<close>

lemma close_failure_ends_observer:
  assumes "ob_targets s = [f]" "ft_client f" "raw \<noteq> []"
    and "mo_publish (moments 0) = Some LibraryError" "mo_close (moments 0) = Some LibraryError"
  shows "\<exists>s' f'. observer_run C repr_of origin origin_id (Message (Some raw) texts moments # evs) s = (Inl LibraryError, s') \<and>
    ob_targets s' = [f'] \<and> ft_client f'"
proof -
  obtain event r where e: "build_event C texts raw origin origin_id = Inr event" "json_bytes event = Inr r"
    using event_ok [of C texts raw origin origin_id] json_bytes_ok by blast
  have "publish_to C repr_of (moments 0) event f = (Inl LibraryError,
      called (Disconnect (Some LibraryError)) (called (Publish (ft_topic f) r False (Some LibraryError)) f))"
    using assms e(2) by (simp add: publish_to_def publish_event_def close_target_def try_mqtt_def ask_def io_defs mqtt_error_def called_def)
  then show ?thesis using assms e(1)
    by (simp add: observer_run_def observer_event_def gather_publish_def io_defs)
qed

lemma close_failure_ends_observer_witness:
  "\<exists>s' f'. observer_run demo_lib (\<lambda>_. []) [] [] [demo_frame (\<lambda>j. unreachable j\<lparr>mo_connect := None,
      mo_publish := Some LibraryError, mo_close := Some LibraryError\<rparr>)]
      (demo_observer\<lparr>ob_targets := [demo_target\<lparr>ft_client := True\<rparr>]\<rparr>) = (Inl LibraryError, s') \<and>
    ob_targets s' = [f'] \<and> ft_client f'"
  unfolding demo_frame_def
  by (rule close_failure_ends_observer [where f = "demo_target\<lparr>ft_client := True\<rparr>"]) simp_all

end
