(* ===== verification/Composition.thy ===== *)
theory Composition
  imports RoomServer EchoServer Forwarder
begin

unbundle bit_operations_syntax

text \<open>
  How the parts fit together: what one attempt of \<open>deliver_txt_msg_with_ack\<close> sends is what a server
  takes for the message, and the reply of the server is what the sender waits for.
\<close>

section \<open>A sent message is received\<close>

lemma path_hash_byte: "path_hash k = Inr h \<Longrightarrow> 0 \<le> h \<and> h < 256"
  by (cases k) (auto simp: path_hash_def)

lemma sent_txt_received:
  assumes C: "crypto_laws C" and dh: "dh_law C (id_seed me) (id_seed you) k" "length (id_seed me) = 32" "length (id_seed you) = 32"
    and keys: "id_pub_key me = lib_ed25519_pub C (id_seed me)" "id_pub_key you = lib_ed25519_pub C (id_seed you)"
    and body: "encodable body" "0 \<notin> set body" and ts: "0 \<le> ts" "ts + int i div 4 < 2 ^ 32"
    and route: "r \<in> {DIRECT, FLOOD}" "path_ok hs path" "length path \<le> 64"
    and src: "path_hash (id_pub_key me) = Inr h"
    and sent: "send_txt C k (id_pub_key you) (id_pub_key me) body ts (int i) (r, path, hs) = Inr (wire, ack)"
  obtains p msg where "decode_packet wire = Inr p" "pkt_type p = TXT_MSG" "pkt_route p = r" "pkt_path p = path"
    "addressed you p = Inr (Some h)" "open_with C you try_decrypt_txt_msg (pkt_payload p) (id_pub_key me) = Inr (Some (k, msg))"
    "tm_txt_type msg = TXT_TYPE_PLAIN" "tm_src_hash msg = h" "tm_timestamp msg = ts + int i div 4" "tm_text msg = body"
    "txt_ack_hash C msg (id_pub_key me) = Inr ack"
proof -
  let ?ts = "ts + int i div 4" and ?a = "int i AND 3"
  have k: "16 \<le> length k" using dh(1) by (simp add: dh_law_def)
  obtain d h' payload where b: "path_hash (id_pub_key you) = Inr d" "path_hash (id_pub_key me) = Inr h'"
    "build_txt_msg_payload C k d h' ?ts ?a body = Inr payload"
    "ack_hash_for C ?ts ?a body (id_pub_key me) TXT_TYPE_PLAIN = Inr ack"
    "encode_packet (make_packet r TXT_MSG path payload hs) = Inr wire"
    using sent by (auto simp: send_txt_def build_txt_msg_packet_def Let_def)
  have h: "h' = h" using src b(2) by simp
  let ?p = "make_packet r TXT_MSG path payload hs"
  have "wf_packet ?p" by (rule wf_made_packet) (use route in simp_all)
  then have w: "decode_packet wire = Inr ?p" using b(5) by (rule pkt_codec.dec_enc)
  obtain tx where tx: "utf8_encode body = Inr tx" using utf8_encode_Inr body(1) by blast
  have text_back: "utf8_decode (before_nul tx) = body"
    using utf8_encode_no_nul [OF tx body(2)] utf8_decode_encode [OF tx] by (simp add: before_nul_id)
  note opened = try_decrypt_built_txt_msg [OF C k b(3) tx, unfolded text_back]
  have shared: "id_shared_secret C you (id_pub_key me) = Inr k"
    using shared_secrets_agree(2) [OF C dh] by (simp add: id_shared_secret_def keys)
  obtain rest where head: "payload = hash_header d h' @ rest" using hash_header_of(1) [OF b(3)] by blast
  have bytes: "d mod 256 = d" "h mod 256 = h" using path_hash_byte [OF b(1)] path_hash_byte [OF src] by simp_all
  have "addressed you ?p = Inr (Some h)"
    using b(1) bytes by (simp add: addressed_def make_packet_def address_def head hash_header_def h and_255 uint_of_int_byte)
  moreover have "plaintext_through_text ?ts (?a mod 4) body TXT_TYPE_PLAIN = plaintext_through_text ?ts ?a body TXT_TYPE_PLAIN"
    by (simp add: plaintext_through_text_def)
  ultimately show thesis
    by (intro that [of ?p "\<lparr> tm_dest_hash = d mod 256, tm_src_hash = h' mod 256, tm_timestamp = ?ts, tm_attempt = ?a mod 4,
        tm_text = body, tm_txt_type = TXT_TYPE_PLAIN \<rparr>"])
      (use w opened shared b(4) bytes h in \<open>simp_all add: make_packet_def open_with_def txt_ack_hash_def ack_hash_for_def\<close>)
qed

section \<open>Properties\<close>

text \<open>
  Property (C4): a post reaches the room and its sender learns it. Let a client that is logged in, and is the only one
  whose key starts with its byte, send a message to the room server with any attempt of its delivery, and let the
  server see it for the first time. Then the server stores exactly this text under the client's key and
  publishes exactly one reply, and that reply carries the acknowledgement the client is waiting for.
\<close>

theorem sent_post_is_stored_and_confirmed:
  assumes "crypto_laws (rm_lib R)" "x25519_law (rm_lib R)"
    and "dh_law (rm_lib R) (id_seed me) (id_seed (rm_identity R)) k" "length (id_seed me) = 32" "length (id_seed (rm_identity R)) = 32"
    and "id_pub_key me = lib_ed25519_pub (rm_lib R) (id_seed me)"
    and "id_pub_key (rm_identity R) = lib_ed25519_pub (rm_lib R) (id_seed (rm_identity R))"
    and "encodable body" "0 \<notin> set body" "0 \<le> ts" "ts + int i div 4 < 2 ^ 32"
    and "r \<in> {DIRECT, FLOOD}" "path_ok hs path" "length path \<le> 64" "path_hash (id_pub_key me) = Inr h"
    and "send_txt (rm_lib R) k (id_pub_key (rm_identity R)) (id_pub_key me) body ts (int i) (r, path, hs) = Inr (wire, ack)"
    and "serving s" "sessions_at R h s = [ses]" "ss_pub_key ses = id_pub_key me"
    and "expire (ck_monotonic ck - rc_recent_message_ttl_s (rm_config R)) (sv_recent_messages s) (h, ack) = None"
    and "\<not> sv_publish_fails s (sv_publishes s)" "tb_seq (sv_store s) + 1 < 2 ^ 63"
    and "- (2 ^ 63) \<le> ck_store_time ck" "ck_store_time ck < 2 ^ 63"
  shows "\<exists>p w q row. decode_packet wire = Inr p \<and> decode_packet w = Inr q \<and> confirms (rm_lib R) k p ack q \<and>
    sv_sent (snd (receive R (ck, wire) s)) = sv_sent s @ [w] \<and>
    tb_posts (sv_store (snd (receive R (ck, wire) s))) = tb_posts (sv_store s) @ [row] \<and>
    row_author_pubkey row = bytes_hex (id_pub_key me) \<and> row_ts row = ts + int i div 4 \<and> row_body row = body"
proof -
  obtain p msg where p: "decode_packet wire = Inr p" "pkt_type p = TXT_MSG" "addressed (rm_identity R) p = Inr (Some h)"
    and o: "open_with (rm_lib R) (rm_identity R) try_decrypt_txt_msg (pkt_payload p) (id_pub_key me) = Inr (Some (k, msg))"
    and m: "tm_txt_type msg = TXT_TYPE_PLAIN" "tm_src_hash msg = h" "tm_timestamp msg = ts + int i div 4" "tm_text msg = body"
    and a: "txt_ack_hash (rm_lib R) msg (id_pub_key me) = Inr ack"
    by (rule sent_txt_received [OF assms(1,3-16)])
  have ne: "id_pub_key (rm_identity R) \<noteq> []"
    using assms(1,5,7) by (metis crypto_laws_def list.size(3) zero_neq_numeral)
  have match: "match_post R s p ses k msg"
    using p(3) o assms(18,19) unfolding match_post_def by (intro exI [of _ h]) simp
  from post_effect [OF assms(1,2) ne assms(17) p(1,2) match m(1) a [folded assms(19)] _ assms(21-24)] assms(20)
  show ?thesis using p(1) m assms(19) by auto
qed

lemma sent_post_is_stored_and_confirmed_witness:
  "\<exists>wire ack p w q row. send_txt demo_lib demo_secret (replicate 32 2) demo_key [104] 1700000000 5 (FLOOD, [], 1) = Inr (wire, ack) \<and>
    decode_packet wire = Inr p \<and> decode_packet w = Inr q \<and> confirms demo_lib demo_secret p ack q \<and>
    sv_sent (snd (receive demo_room (demo_clock 0, wire) demo_server)) = [w] \<and>
    tb_posts (sv_store (snd (receive demo_room (demo_clock 0, wire) demo_server))) = [row] \<and> row_body row = [104]"
proof -
  let ?me = "\<lparr> id_seed = demo_key, id_pub_key = demo_key, id_name = [] \<rparr>"
  have pub: "id_pub_key (rm_identity demo_room) = replicate 32 2" by (simp add: demo_room_def numeral_eq_Suc)
  have room_pub: "lib_ed25519_pub demo_lib (replicate 32 2) = replicate 32 2" by (simp add: demo_lib_def)
  have enc: "encodable [104]" by (simp add: encodable_def surrogate_def)
  have dh: "dh_law demo_lib demo_key (replicate 32 2) demo_secret"
    using demo_lib_dh [of "replicate 32 2" demo_key] demo_secrets(2) unfolding dh_law_def by auto
  obtain wire ack where w: "send_txt demo_lib demo_secret (replicate 32 2) demo_key [104] 1700000000 (int 5) (FLOOD, [], 1) = Inr (wire, ack)"
    using send_txt_total [of demo_secret "replicate 32 2" demo_key "[104]" 1700000000 5 FLOOD 1 "[]" demo_lib] demo_secrets(2,4) enc
    by auto
  show ?thesis
    using sent_post_is_stored_and_confirmed [of demo_room ?me demo_secret "[104]" 1700000000 5 FLOOD 1 "[]" 5 wire ack demo_server demo_session "demo_clock 0"]
      w pub room_pub dh demo_secrets enc demo_serving demo_sessions
    by (auto simp: demo_lib_laws demo_lib_x25519 demo_session_def expire_def empty_tables_def)
qed

end
