(* ===== verification/RoomTasks.thy ===== *)
theory RoomTasks
  imports RoomServer
begin

unbundle bit_operations_syntax

text \<open>
  The room server as a system of tasks: received frames, the adverts of \<open>advertise_loop\<close> and the tasks the
  handlers spawned, with what happens during each of their waits; the invariant of the system and what a
  synchronisation pushes.
\<close>

section \<open>The running server\<close>

text \<open>One round of \<open>advertise_loop\<close>.\<close>

definition room_advertise :: "room \<Rightarrow> clock \<Rightarrow> unit handler" where
  "room_advertise R ck = bindIO (liftR (build_self_advert R ck)) publish"

text \<open>
  The tasks of a running server on one event loop. A started task runs to its end, interrupted in its waits
  for acknowledgements: \<open>in_wait n\<close> is what happens in the wait whose future has the number before \<open>n\<close>. What a
  task raises is logged (\<open>_done\<close>).
\<close>

datatype room_event =
    RoomFrame clock bytes
  | RoomAdvert clock
  | RoomTask "nat \<Rightarrow> room_event list"

definition run_task :: "room \<Rightarrow> (server \<Rightarrow> server) \<Rightarrow> room_task \<Rightarrow> unit handler" where
  "run_task R during t =
     (case t of
        SyncClient pub_key sync_since \<Rightarrow> sync_client R during pub_key sync_since
      | FanOut post \<Rightarrow> fan_out R during post)"

definition step_task :: "room \<Rightarrow> (server \<Rightarrow> server) \<Rightarrow> server \<Rightarrow> server" where
  "step_task R during s =
     (case sv_tasks s of [] \<Rightarrow> s | t # ts \<Rightarrow> snd (run_task R during t (s\<lparr>sv_tasks := ts\<rparr>)))"

primrec run_room :: "room \<Rightarrow> room_event \<Rightarrow> server \<Rightarrow> server" where
  "run_room R (RoomFrame ck frame) = (\<lambda>s. snd (receive R (ck, frame) s))"
| "run_room R (RoomAdvert ck) = (\<lambda>s. snd (room_advertise R ck s))"
| "run_room R (RoomTask in_wait) =
     step_task R (\<lambda>s. fold (\<lambda>run s. run s) ((map (run_room R) \<circ> in_wait) (sv_next_future s)) s)"

definition run_rooms :: "room \<Rightarrow> room_event list \<Rightarrow> server \<Rightarrow> server" where
  "run_rooms R es s = fold (run_room R) es s"

section \<open>The invariant of the system\<close>

text \<open>What the server publishes: the image of a packet of one of the types it sends.\<close>

definition room_emits :: "bytes \<Rightarrow> bool" where
  "room_emits w \<longleftrightarrow> (\<exists>q. encode_packet q = Inr w \<and> pkt_type q \<in> {ACK, PATH, RESPONSE, TXT_MSG, ADVERT})"

definition room_sys :: "(bytes \<times> bool) set \<Rightarrow> bytes list \<Rightarrow> server \<Rightarrow> bool" where
  "room_sys A pre s \<longleftrightarrow> room_inv A (sv_sent s) s \<and> (\<exists>new. sv_sent s = pre @ new \<and> list_all room_emits new)"

lemma decodes_emits: "decodes w \<Longrightarrow> room_emits w"
  using pkt_codec.enc_dec by (fastforce simp: decodes_def room_emits_def)

text \<open>What keeps the invariant of the handlers keeps that of the system.\<close>

lemma sys_of_inv:
  assumes "room_sys A pre s" "room_inv A (sv_sent s) t"
  shows "room_sys A pre t"
proof -
  obtain new new' where "sv_sent s = pre @ new" "list_all room_emits new" "sv_sent t = sv_sent s @ new'" "list_all decodes new'"
    using assms by (auto simp: room_sys_def room_inv_def)
  then have "sv_sent t = pre @ new @ new'" "list_all room_emits (new @ new')" using decodes_emits by (auto simp: list_all_iff)
  moreover have "room_inv A (sv_sent t) t" using assms(2) by (auto simp: room_inv_def)
  ultimately show ?thesis by (auto simp: room_sys_def)
qed

lemma sys_publish:
  assumes "room_sys A pre s" "room_emits wire"
  shows "wp (publish wire) (\<lambda>_. room_sys A pre) (room_sys A pre) s"
proof -
  obtain new where "sv_sent s = pre @ new" "list_all room_emits new" using assms(1) by (auto simp: room_sys_def)
  then have "sv_sent s @ [wire] = pre @ (new @ [wire])" "list_all room_emits (new @ [wire])" using assms(2) by simp_all
  then show ?thesis using assms(1) unfolding wp_def publish_def
    by (auto simp: room_sys_def room_inv_def wf_server_def)
qed

lemma sys_update [simp]:
  "room_sys A pre (s\<lparr>sv_tasks := x\<rparr>) = room_sys A pre s"
  "room_sys A pre (s\<lparr>sv_ack_waiters := v\<rparr>) = room_sys A pre s"
  "room_sys A pre (s\<lparr>sv_next_future := n\<rparr>) = room_sys A pre s"
  by (simp_all add: room_sys_def room_inv_def wf_server_def)

lemma sys_store:
  "room_sys A pre s \<Longrightarrow> wf_tables (snd (m (sv_store s))) \<Longrightarrow> wp (on_store m) (\<lambda>_. room_sys A pre) (room_sys A pre) s"
  by (simp add: wp_snd on_store_def room_sys_def room_inv_def wf_server_def)

lemma sys_tables: "room_sys A pre s \<Longrightarrow> wf_tables (sv_store s)"
  by (simp add: room_sys_def room_inv_def wf_server_def)

section \<open>Every task keeps it\<close>

lemma emits_made:
  "encode_packet (make_packet r t path payload hs) = Inr w \<Longrightarrow> t \<in> {TXT_MSG, ADVERT} \<Longrightarrow> room_emits w"
  unfolding room_emits_def by (rule exI [of _ "make_packet r t path payload hs"]) (auto simp: make_packet_def)

lemma emits_push: "send_push C k dest room ts author body i a = Inr (wire, ack) \<Longrightarrow> room_emits wire"
  by (auto simp: send_push_def build_room_push_packet_def Let_def split: prod.splits intro: emits_made)

lemma wait_sys:
  assumes "room_sys A pre s" "\<And>u. room_sys A pre u \<Longrightarrow> room_sys A pre (during u)"
  shows "wp (wait_for_ack during ack t) (\<lambda>_. room_sys A pre) (room_sys A pre) s"
  using assms by (simp add: wp_def wait_for_ack_def io_defs wait_begin_def wait_end_def)

lemma deliver_push_sys:
  assumes "room_sys A pre s" "\<And>u. room_sys A pre u \<Longrightarrow> room_sys A pre (during u)"
  shows "wp (deliver_room_push_with_ack C publish (wait_for_ack during) k dest room ts author body path hs da fa timeout)
    (\<lambda>_. room_sys A pre) (room_sys A pre) s"
proof -
  have "wp (deliver_loop (send_push C k dest room ts author body) publish (wait_for_ack during) timeout 0
      (attempt_plan path hs da fa) None) (\<lambda>_. room_sys A pre) (room_sys A pre) s"
    by (rule wp_deliver_loop [where good = room_emits and I = "room_sys A pre", OF assms(1)])
      (auto intro: emits_push sys_publish wait_sys assms(2))
  then show ?thesis using assms(1) by (auto simp: wp_def deliver_room_push_with_ack_def Let_def split: prod.splits)
qed

lemma push_post_sys:
  assumes "room_sys A pre s" "\<And>u. room_sys A pre u \<Longrightarrow> room_sys A pre (during u)"
  shows "wp (push_post R during k post) (\<lambda>_. room_sys A pre) (room_sys A pre) s"
proof -
  have cursor: "wp (on_store (set_client_cursor j t)) (\<lambda>_. room_sys A pre) (room_sys A pre) u" if "room_sys A pre u" for j t u
    using that by (rule sys_store) (simp add: wf_clients sys_tables [OF that])
  have tail: "wp (if acked then on_store (set_client_cursor j t) else returnIO ()) (\<lambda>_. room_sys A pre) (room_sys A pre) u"
    if "room_sys A pre u" for acked j t u
    using that cursor by (simp add: wp)
  show ?thesis unfolding push_post_def wp(3,5)
    by (auto simp: wp(1,2,5) assms(1) split: option.splits sum.splits
        intro!: wp_mono [OF deliver_push_sys [OF assms]] tail)
qed

lemma sync_client_sys:
  assumes "room_sys A pre s" "\<And>u. room_sys A pre u \<Longrightarrow> room_sys A pre (during u)"
  shows "wp (sync_client R during k since) (\<lambda>_. room_sys A pre) (room_sys A pre) s"
proof -
  have "wp (on_store (posts_since since (Some k))) (\<lambda>_. room_sys A pre) (room_sys A pre) s"
    using assms(1) by (rule sys_store) (simp add: posts_since_def sys_tables [OF assms(1)] split: sum.splits)
  then show ?thesis unfolding sync_client_def wp(5)
    by (rule wp_mono) (auto intro: wp_for [where I = "room_sys A pre"] push_post_sys assms(2))
qed

lemma fan_out_sys:
  assumes "room_sys A pre s" "\<And>u. room_sys A pre u \<Longrightarrow> room_sys A pre (during u)"
  shows "wp (fan_out R during post) (\<lambda>_. room_sys A pre) (room_sys A pre) s"
proof -
  have "wp (caught (push_post R during k post)) (\<lambda>_. room_sys A pre) (room_sys A pre) u" if "room_sys A pre u" for k u
    using push_post_sys [where during = during and R = R and k = k and post = post, OF that assms(2)] by (simp add: wp_snd caught_def)
  then show ?thesis unfolding fan_out_def
    by (auto simp: wp assms(1) split: sum.splits intro!: wp_for [where I = "room_sys A pre"])
qed

lemma advertise_sys: "room_sys A pre s \<Longrightarrow> wp (room_advertise R ck) (\<lambda>_. room_sys A pre) (room_sys A pre) s"
  by (auto simp: room_advertise_def wp build_self_advert_def Let_def split: sum.splits intro!: sys_publish intro: emits_made)

text \<open>The frames in an event, those received during the waits of a task included.\<close>

primrec room_frames :: "room_event \<Rightarrow> bytes set" where
  "room_frames (RoomFrame ck frame) = {frame}"
| "room_frames (RoomAdvert ck) = {}"
| "room_frames (RoomTask in_wait) = (\<Union>n. \<Union>(set ((map room_frames \<circ> in_wait) n)))"

lemma receive_sys:
  assumes "room_sys A pre s" "\<And>k adm. admits R frame k adm \<Longrightarrow> (k, adm) \<in> A"
  shows "room_sys A pre (snd (receive R (ck, frame) s))"
  using assms(1) by (rule sys_of_inv) (rule receive_inv; use assms in \<open>simp add: room_sys_def\<close>)

lemma room_event_sys:
  "room_sys A pre s \<Longrightarrow> \<forall>frame \<in> room_frames e. \<forall>k adm. admits R frame k adm \<longrightarrow> (k, adm) \<in> A \<Longrightarrow>
    room_sys A pre (run_room R e s)"
proof (induction e arbitrary: s)
  case (RoomFrame ck frame)
  then show ?case by (auto intro: receive_sys)
next
  case (RoomAdvert ck)
  then show ?case using advertise_sys [of A pre s R ck] by (simp add: wp_snd)
next
  case (RoomTask in_wait)
  have ev: "room_sys A pre (fold (\<lambda>run s. run s) (map (run_room R) es) u)"
    if "room_sys A pre u" "set es \<subseteq> set (in_wait n)" for u es n
    using that
  proof (induction es arbitrary: u)
    case (Cons e es)
    have "room_sys A pre (run_room R e u)"
      by (rule RoomTask.IH [of "in_wait n" e]) (use Cons.prems RoomTask.prems(2) in auto)
    then show ?case using Cons by simp
  qed simp
  have "wp (run_task R (\<lambda>s. fold (\<lambda>run s. run s) ((map (run_room R) \<circ> in_wait) (sv_next_future s)) s) t)
      (\<lambda>_. room_sys A pre) (room_sys A pre) u" if "room_sys A pre u" for t u
    unfolding run_task_def using that ev
    by (cases t) (auto intro!: sync_client_sys fan_out_sys)
  then show ?case using RoomTask.prems(1) by (simp add: step_task_def wp_snd split: list.splits)
qed

lemma room_events_sys:
  "room_sys A pre s \<Longrightarrow> \<forall>frame \<in> \<Union>(room_frames ` set es). \<forall>k adm. admits R frame k adm \<longrightarrow> (k, adm) \<in> A \<Longrightarrow>
    room_sys A pre (run_rooms R es s)"
proof (induction es arbitrary: s)
  case (Cons e es)
  have "room_sys A pre (run_room R e s)" by (rule room_event_sys) (use Cons.prems in auto)
  then show ?case using Cons.IH [of "run_room R e s"] Cons.prems(2) by (auto simp: run_rooms_def)
qed (simp add: run_rooms_def)

section \<open>What a synchronisation pushes\<close>

text \<open>
  A delivery loop that cannot raise: every attempt builds, and neither a publish nor a wait raises. It returns, and
  what holds after every publish holds at its end.
\<close>

lemma deliver_loop_runs_to_end:
  assumes send: "\<And>a j. a \<in> set plan \<Longrightarrow> 0 \<le> j \<Longrightarrow> \<exists>wire ack. send j a = Inr (wire, ack) \<and> good wire"
    and pub: "\<And>wire w. good wire \<Longrightarrow> I w \<or> J w \<Longrightarrow> wp (publish wire) (\<lambda>_. J) (\<lambda>_. False) w"
    and wait: "\<And>ack w. J w \<Longrightarrow> wp (wait ack timeout) (\<lambda>_. J) (\<lambda>_. False) w"
    and start: "plan \<noteq> [] \<and> (I w \<or> J w) \<or> last_result \<noteq> None \<and> J w" "0 \<le> i"
  shows "wp (deliver_loop send publish wait timeout i plan last_result) (\<lambda>_. J) (\<lambda>_. False) w"
  using send start
proof (induction plan arbitrary: i last_result w)
  case Nil
  then show ?case by (auto simp: wp_def)
next
  case (Cons a rest)
  obtain wire ack where s: "send i a = Inr (wire, ack)" "good wire" using Cons.prems(1) [of a i] Cons.prems(3) by auto
  have IH: "wp (deliver_loop send publish wait timeout (i + 1) rest (Some r)) (\<lambda>_. J) (\<lambda>_. False) v" if "J v" for r v
    by (rule Cons.IH) (use Cons.prems(1,3) that in auto)
  have tail: "wp (wait ack timeout) (\<lambda>acked. wp (if acked then returnIO (f acked)
      else deliver_loop send publish wait timeout (i + 1) rest (Some (g acked))) (\<lambda>_. J) (\<lambda>_. False)) (\<lambda>_. False) v" if "J v" for f g v
    by (rule wp_mono [OF wait [OF that]]) (simp_all add: IH wp(1))
  have "I w \<or> J w" using Cons.prems(2) by blast
  then show ?case unfolding deliver_loop_Cons [where send = send, OF s(1)] wp(5)
    by (intro wp_mono [OF pub [OF s(2)]]) (simp_all add: tail)
qed

text \<open>What the client sees of a pushed post.\<close>

definition push_opens :: "crypto_lib \<Rightarrow> bytes \<Rightarrow> bytes \<Rightarrow> post \<Rightarrow> bytes \<Rightarrow> bool" where
  "push_opens C dest k post w \<longleftrightarrow>
     (\<exists>q m author. decode_packet w = Inr q \<and> pkt_type q = TXT_MSG \<and> sent_to dest q \<and>
        try_decrypt_room_push C (pkt_payload q) k = Inr (Some m) \<and> rp_post_ts m = post_ts post \<and>
        rp_text m = post_body post \<and> bytes_fromhex (post_author_pubkey post) = Inr author \<and>
        rp_author_prefix m = take 4 author)"

definition pushable :: "post \<Rightarrow> bool" where
  "pushable post \<longleftrightarrow> 0 \<le> post_ts post \<and> post_ts post < 2 ^ 32 \<and> encodable (post_body post) \<and> 0 \<notin> set (post_body post) \<and>
     (\<exists>author. bytes_fromhex (post_author_pubkey post) = Inr author \<and> 4 \<le> length author)"

lemma send_push_opens:
  assumes C: "crypto_laws C" "16 \<le> length k" and keys: "dest \<noteq> []" "room \<noteq> []" and post: "pushable post"
    and author: "bytes_fromhex (post_author_pubkey post) = Inr author"
    and route: "r \<in> {DIRECT, FLOOD}" "path_ok hs path" "length path \<le> 64"
  shows "\<exists>wire ack. send_push C k dest room (post_ts post) author (post_body post) i (r, path, hs) = Inr (wire, ack) \<and>
    push_opens C dest k post wire"
proof -
  have p: "0 \<le> post_ts post" "post_ts post < 2 ^ 32" "encodable (post_body post)" "0 \<notin> set (post_body post)" "4 \<le> length author"
    using post author by (auto simp: pushable_def)
  obtain wire ack where s: "send_push C k dest room (post_ts post) author (post_body post) i (r, path, hs) = Inr (wire, ack)"
    using send_push_total [OF C(2) keys p(3,1,2) route(1,2)] by fastforce
  then obtain dh rh payload where dh: "path_hash dest = Inr dh" and b: "build_room_push_payload C k dh rh (post_ts post) author (post_body post) (i AND 3) = Inr payload"
    "encode_packet (make_packet r TXT_MSG path payload hs) = Inr wire"
    by (auto simp: send_push_def build_room_push_packet_def Let_def)
  have w: "decode_packet wire = Inr (make_packet r TXT_MSG path payload hs)"
    by (rule pkt_codec.dec_enc [OF wf_made_packet b(2)]) (use route in simp_all)
  obtain tx where tx: "utf8_encode (post_body post) = Inr tx" using utf8_encode_Inr p(3) by blast
  have "utf8_decode (before_nul tx) = post_body post"
    using utf8_encode_no_nul [OF tx p(4)] utf8_decode_encode [OF tx] by (simp add: before_nul_id)
  moreover have "sent_to dest (make_packet r TXT_MSG path payload hs)"
  proof -
    obtain sealed where "payload = hash_header dh rh @ sealed" using b(1) by (auto simp: build_room_push_payload_def)
    then show ?thesis by (intro sent_to_header [OF dh]) (simp add: make_packet_def)
  qed
  ultimately show ?thesis using s w try_decrypt_built_room_push [OF C p(5) b(1) tx] author
    by (auto simp: push_opens_def make_packet_def)
qed

text \<open>Nothing but acknowledgements may arrive during the waits.\<close>

definition only_acks :: "(server \<Rightarrow> server) \<Rightarrow> bool" where
  "only_acks during \<longleftrightarrow> (\<forall>u. \<exists>w r. during u = u\<lparr>sv_ack_waiters := w, sv_resolved := r\<rparr>)"

lemma only_acks_id: "only_acks (\<lambda>s. s)"
  unfolding only_acks_def by (metis server.surjective server.update_convs(6,7))

lemma only_acks_frames:
  assumes "decode_packet frame = Inr p" "pkt_type p = ACK"
  shows "only_acks (\<lambda>s. snd (receive R (ck, frame) s))"
proof -
  have "receive R (ck, frame) u = caught (handle_ack p) u" for u using assms by (auto simp: receive_def dispatch_def decode_packet_def)
  moreover have "\<exists>w r. snd (caught (handle_ack p) u) = u\<lparr>sv_ack_waiters := w, sv_resolved := r\<rparr>" for u
  proof (cases "parse_ack_payload (pkt_payload p)")
    case None
    then have "snd (caught (handle_ack p) u) = u\<lparr>sv_ack_waiters := sv_ack_waiters u, sv_resolved := sv_resolved u\<rparr>"
      by (simp add: caught_def handle_ack_def io_defs)
    then show ?thesis by blast
  next
    case (Some h)
    then show ?thesis
      by (simp add: caught_def handle_ack_def io_defs resolve_ack_def Let_def) blast
  qed
  ultimately show ?thesis by (simp add: only_acks_def)
qed

definition kept :: "server \<Rightarrow> server \<Rightarrow> bool" where
  "kept s v \<longleftrightarrow> sv_sessions v = sv_sessions s \<and> tb_posts (sv_store v) = tb_posts (sv_store s) \<and>
     sv_publish_fails v = sv_publish_fails s"

definition pushed :: "crypto_lib \<Rightarrow> bytes \<Rightarrow> bytes \<Rightarrow> post \<Rightarrow> server \<Rightarrow> server \<Rightarrow> bool" where
  "pushed C dest k post s v \<longleftrightarrow> kept s v \<and> (\<exists>ws. ws \<noteq> [] \<and> sv_sent v = sv_sent s @ ws \<and> list_all (push_opens C dest k post) ws)"

text \<open>A session that can be reached: its secret and a route that fits a packet; the configured numbers of attempts.\<close>

definition reachable :: "room \<Rightarrow> session \<Rightarrow> bytes \<Rightarrow> bool" where
  "reachable R ses k \<longleftrightarrow> id_shared_secret (rm_lib R) (rm_identity R) (ss_pub_key ses) = Inr k \<and> 16 \<le> length k \<and>
     ss_pub_key ses \<noteq> [] \<and> route_ok ses \<and> length (ss_path ses) \<le> 64 \<and>
     0 \<le> rc_push_direct_attempts (rm_config R) \<and> 0 < rc_push_flood_attempts (rm_config R)"

lemma pushed_step:
  assumes "kept s v" "\<not> sv_publish_fails s (sv_publishes v)" "push_opens C dest k post wire" "v = s \<or> pushed C dest k post s v"
  shows "wp (publish wire) (\<lambda>_. pushed C dest k post s) (\<lambda>_. False) v"
proof -
  let ?v = "v\<lparr>sv_publishes := Suc (sv_publishes v), sv_sent := sv_sent v @ [wire]\<rparr>"
  obtain ws where "sv_sent v = sv_sent s @ ws" "list_all (push_opens C dest k post) ws"
    using assms(4) unfolding pushed_def by fastforce
  then have "sv_sent ?v = sv_sent s @ (ws @ [wire])" "list_all (push_opens C dest k post) (ws @ [wire])" using assms(3) by simp_all
  moreover have "kept s ?v" using assms(1) by (simp add: kept_def)
  ultimately have "pushed C dest k post s ?v" unfolding pushed_def by blast
  moreover have "publish wire v = (Inr (), ?v)" using assms(1,2) by (simp add: publish_def kept_def)
  ultimately show ?thesis by (simp add: wp_def)
qed

lemma push_post_delivers:
  assumes C: "crypto_laws (rm_lib R)" and room: "id_pub_key (rm_identity R) \<noteq> []" and quiet: "only_acks during"
    and net: "\<forall>n. \<not> sv_publish_fails s n" and ses: "map_of (sv_sessions s) pub = Some ses" "reachable R ses k" and post: "pushable post"
  shows "wp (push_post R during pub post) (\<lambda>_. pushed (rm_lib R) (ss_pub_key ses) k post s) (\<lambda>_. False) s"
proof -
  let ?P = "pushed (rm_lib R) (ss_pub_key ses) k post s"
  let ?plan = "attempt_plan (ss_path ses) (ss_hash_size ses) (rc_push_direct_attempts (rm_config R)) (rc_push_flood_attempts (rm_config R))"
  obtain author where a: "bytes_fromhex (post_author_pubkey post) = Inr author" using post by (auto simp: pushable_def)
  have r: "id_shared_secret (rm_lib R) (rm_identity R) (ss_pub_key ses) = Inr k" "16 \<le> length k" "ss_pub_key ses \<noteq> []"
    using ses(2) by (simp_all add: reachable_def)
  have plan: "?plan \<noteq> []" using ses(2) by (simp add: reachable_def attempt_plan_def)
  have route: "\<exists>rt pa h. x = (rt, pa, h) \<and> rt \<in> {DIRECT, FLOOD} \<and> path_ok h pa \<and> length pa \<le> 64" if "x \<in> set ?plan" for x
    using that ses(2) by (auto simp: attempt_plan_def reachable_def route_ok_def split: if_splits)
  have send: "\<exists>wire ack. send_push (rm_lib R) k (ss_pub_key ses) (id_pub_key (rm_identity R)) (post_ts post) author (post_body post) j x
      = Inr (wire, ack) \<and> push_opens (rm_lib R) (ss_pub_key ses) k post wire" if "x \<in> set ?plan" for x j
    using route [OF that] send_push_opens [OF C r(2,3) room post a] by fastforce
  have wait: "wp (wait_for_ack during ack t) (\<lambda>_. ?P) (\<lambda>_. False) v" if "?P v" for ack t v
  proof -
    let ?v = "snd (wait_begin ack v)"
    obtain w q where "during ?v = ?v\<lparr>sv_ack_waiters := w, sv_resolved := q\<rparr>" using quiet unfolding only_acks_def by metis
    then show ?thesis using that by (simp add: wp_def wait_for_ack_def io_defs wait_begin_def wait_end_def pushed_def kept_def)
  qed
  have "wp (deliver_loop (send_push (rm_lib R) k (ss_pub_key ses) (id_pub_key (rm_identity R)) (post_ts post) author (post_body post))
      publish (wait_for_ack during) (rc_push_ack_timeout_s (rm_config R)) 0 ?plan None) (\<lambda>_. ?P) (\<lambda>_. False) s"
  proof (rule deliver_loop_runs_to_end [where I = "\<lambda>v. v = s" and good = "push_opens (rm_lib R) (ss_pub_key ses) k post"])
    fix wire v assume "push_opens (rm_lib R) (ss_pub_key ses) k post wire" "v = s \<or> ?P v"
    then show "wp (publish wire) (\<lambda>_. ?P) (\<lambda>_. False) v"
      using net by (intro pushed_step) (auto simp: pushed_def kept_def)
  qed (use send wait plan in auto)
  moreover have "0 \<le> rc_push_direct_attempts (rm_config R)" "0 \<le> rc_push_flood_attempts (rm_config R)"
    using ses(2) by (simp_all add: reachable_def)
  ultimately have d: "wp (deliver_room_push_with_ack (rm_lib R) publish (wait_for_ack during) k (ss_pub_key ses) (id_pub_key (rm_identity R))
      (post_ts post) author (post_body post) (ss_path ses) (ss_hash_size ses) (rc_push_direct_attempts (rm_config R))
      (rc_push_flood_attempts (rm_config R)) (rc_push_ack_timeout_s (rm_config R))) (\<lambda>_. ?P) (\<lambda>_. False) s"
    using plan by (simp add: wp_def deliver_room_push_checks)
  have cursor: "wp (on_store (set_client_cursor j (post_ts post))) (\<lambda>_. ?P) (\<lambda>_. False) v" if "?P v" for j v
    using that post by (auto simp: wp_def on_store_def set_client_cursor_def sql_int_def Let_def pushed_def kept_def pushable_def
        split: option.splits)
  have tail: "wp (if acked then on_store (set_client_cursor j (post_ts post)) else returnIO ()) (\<lambda>_. ?P) (\<lambda>_. False) v" if "?P v" for acked j v
    using that cursor by (simp add: wp)
  show ?thesis unfolding push_post_def wp(3,5) ses(1) option.case r(1) a wp(2) sum.case
    by (rule wp_mono [OF d]) (simp_all add: tail)
qed

text \<open>What a loop of pushes sends: for each post at least one packet, and every packet of its batch opens as the post.\<close>

definition batches :: "crypto_lib \<Rightarrow> bytes \<Rightarrow> bytes \<Rightarrow> post list \<Rightarrow> bytes list list \<Rightarrow> bool" where
  "batches C dest k posts wss \<longleftrightarrow> list_all2 (\<lambda>post ws. ws \<noteq> [] \<and> list_all (push_opens C dest k post) ws) posts wss"

lemma push_loop_delivers:
  assumes C: "crypto_laws (rm_lib R)" and room: "id_pub_key (rm_identity R) \<noteq> []" and quiet: "only_acks during"
    and net: "\<forall>n. \<not> sv_publish_fails s n" and ses: "map_of (sv_sessions s) pub = Some ses" "reachable R ses k"
    and posts: "\<forall>post \<in> set posts. pushable post"
  shows "\<exists>v wss. forIO posts (push_post R during pub) s = (Inr (), v) \<and> kept s v \<and> batches (rm_lib R) (ss_pub_key ses) k posts wss \<and>
    sv_sent v = sv_sent s @ concat wss"
  using net ses(1) posts
proof (induction posts arbitrary: s)
  case Nil
  then show ?case by (simp add: returnIO_def kept_def batches_def)
next
  case (Cons post posts)
  obtain u where u: "push_post R during pub post s = (Inr (), u)" "pushed (rm_lib R) (ss_pub_key ses) k post s u"
    using push_post_delivers [OF C room quiet Cons.prems(1,2) ses(2)] Cons.prems(3) by (auto simp: wp_runs)
  then obtain ws where ws: "kept s u" "ws \<noteq> []" "sv_sent u = sv_sent s @ ws" "list_all (push_opens (rm_lib R) (ss_pub_key ses) k post) ws"
    unfolding pushed_def by blast
  obtain v wss where v: "forIO posts (push_post R during pub) u = (Inr (), v)" "kept u v" "batches (rm_lib R) (ss_pub_key ses) k posts wss"
    "sv_sent v = sv_sent u @ concat wss"
    using Cons.IH [of u] Cons.prems ws(1) by (auto simp: kept_def)
  have "forIO (post # posts) (push_post R during pub) s = (Inr (), v)" using u(1) v(1) by (simp add: bindIO_def)
  moreover have "kept s v" using ws(1) v(2) by (simp add: kept_def)
  moreover have "batches (rm_lib R) (ss_pub_key ses) k (post # posts) (ws # wss)" using ws v(3) by (simp add: batches_def)
  moreover have "sv_sent v = sv_sent s @ concat (ws # wss)" using ws(3) v(4) by simp
  ultimately show ?case by blast
qed

lemma sync_client_pushes:
  assumes "crypto_laws (rm_lib R)" "id_pub_key (rm_identity R) \<noteq> []" "only_acks during" "\<forall>n. \<not> sv_publish_fails s n"
    and "map_of (sv_sessions s) pub = Some ses" "reachable R ses k" "\<forall>row \<in> set (tb_posts (sv_store s)). pushable (post_of_row row)"
    and "- (2 ^ 63) \<le> since" "since < 2 ^ 63" "0 \<le> rc_max_sync_posts (rm_config R)"
  shows "\<exists>posts wss v. sync_client R during pub since s = (Inr (), v) \<and>
    mset posts = filter_mset (wanted since (Some pub)) (mset (map post_of_row (tb_posts (sv_store s)))) \<and>
    sorted (map (\<lambda>p. (post_ts p, post_id p)) posts) \<and>
    batches (rm_lib R) (ss_pub_key ses) k (take (nat (rc_max_sync_posts (rm_config R))) posts) wss \<and>
    sv_sent v = sv_sent s @ concat wss \<and> tb_posts (sv_store v) = tb_posts (sv_store s)"
proof -
  obtain posts where p: "posts_since since (Some pub) (sv_store s) = (Inr posts, sv_store s)"
    using posts_since_total [OF assms(8,9)] by blast
  have sub: "set posts \<subseteq> post_of_row ` set (tb_posts (sv_store s))"
    using arg_cong [OF posts_since_Inr(2) [OF p], of set_mset] by auto
  have "\<forall>post \<in> set (take (nat (rc_max_sync_posts (rm_config R))) posts). pushable post"
    using sub assms(7) by (blast dest: in_set_takeD)
  from push_loop_delivers [OF assms(1-6) this]
  obtain v wss where v: "forIO (take (nat (rc_max_sync_posts (rm_config R))) posts) (push_post R during pub) s = (Inr (), v)"
    "kept s v" "batches (rm_lib R) (ss_pub_key ses) k (take (nat (rc_max_sync_posts (rm_config R))) posts) wss" "sv_sent v = sv_sent s @ concat wss"
    by blast
  have "sync_client R during pub since s = (Inr (), v)"
    using p v(1) assms(10) by (simp add: sync_client_def on_store_def bindIO_def py_prefix_def)
  then show ?thesis using posts_since_Inr(2,3) [OF p] v(2-4) by (auto simp: kept_def)
qed

section \<open>The system keeps its invariant\<close>

lemma room_system_ok:
  assumes "wf_tables db"
  shows "wf_server (run_rooms R es (initial_server db fails)) \<and>
    list_all room_emits (sv_sent (run_rooms R es (initial_server db fails))) \<and>
    (\<forall>(k, ses) \<in> set (sv_sessions (run_rooms R es (initial_server db fails))).
       \<exists>frame \<in> \<Union>(room_frames ` set es). admits R frame k (ss_is_admin ses)) \<and>
    fst (receive R x (run_rooms R es (initial_server db fails))) = Inr ()"
proof -
  let ?A = "{(k, adm). \<exists>frame \<in> \<Union>(room_frames ` set es). admits R frame k adm}"
  let ?s = "run_rooms R es (initial_server db fails)"
  have "room_inv ?A [] (initial_server db fails)" by (rule room_inv_mono [OF serving_initial [OF assms]]) simp
  then have "room_sys ?A [] (initial_server db fails)" by (simp add: room_sys_def initial_server_def)
  then have s: "room_sys ?A [] ?s" by (rule room_events_sys) auto
  then have inv: "room_inv ?A (sv_sent ?s) ?s" by (simp add: room_sys_def)
  have "\<exists>frame \<in> \<Union>(room_frames ` set es). admits R frame k (ss_is_admin ses)" if "(k, ses) \<in> set (sv_sessions ?s)" for k ses
    using session_in [OF inv that] by simp
  then show ?thesis using s inv receive_total by (auto simp: room_sys_def room_inv_def)
qed

section \<open>Properties\<close>

text \<open>
  Property (C2): the room server survives as a system of tasks. Whatever frames arrive, adverts are due and tasks run,
  nested in any way in the waits for acknowledgements, and whichever publish calls raise: the server stays well
  formed, every session belongs to a key that a received login admitted, everything it published since the start is the image of a packet of the five
  types it sends, and the next frame is handled without an exception leaving the loop.
\<close>

theorem room_system_survives:
  assumes "wf_tables db"
  shows "wf_server (run_rooms R es (initial_server db fails)) \<and>
    list_all room_emits (sv_sent (run_rooms R es (initial_server db fails))) \<and>
    (\<forall>(k, ses) \<in> set (sv_sessions (run_rooms R es (initial_server db fails))).
       \<exists>frame \<in> \<Union>(room_frames ` set es). admits R frame k (ss_is_admin ses)) \<and>
    fst (receive R x (run_rooms R es (initial_server db fails))) = Inr ()"
  by (rule room_system_ok [OF assms])

lemma room_system_survives_witness:
  "wf_server (run_rooms demo_room [RoomAdvert (demo_clock 0), RoomTask (\<lambda>n. [RoomFrame (demo_clock 1) [7]])]
    (initial_server empty_tables (\<lambda>n. n = 1)))"
  using room_system_survives [of empty_tables demo_room "[RoomAdvert (demo_clock 0), RoomTask (\<lambda>n. [RoomFrame (demo_clock 1) [7]])]"
      "\<lambda>n. n = 1" "(demo_clock 2, [9])"] by simp

text \<open>
  Property (C7): a synchronisation delivers. When nothing but acknowledgements arrives during its waits and no publish
  raises, the task of a reachable session returns, and what it publishes is, in order, a batch of packets for each of the first
  \<open>max_sync_posts\<close> of the posts that are newer than the client's time and not its own, oldest first: no batch is empty, and
  each of its packets decodes and opens under the session's secret to the time, the author and the text of the post.
\<close>

theorem sync_pushes_new_posts:
  assumes "crypto_laws (rm_lib R)" "id_pub_key (rm_identity R) \<noteq> []" "only_acks during" "\<forall>n. \<not> sv_publish_fails s n"
    and "map_of (sv_sessions s) pub = Some ses" "reachable R ses k" "\<forall>row \<in> set (tb_posts (sv_store s)). pushable (post_of_row row)"
    and "- (2 ^ 63) \<le> since" "since < 2 ^ 63" "0 \<le> rc_max_sync_posts (rm_config R)"
  shows "\<exists>posts wss v. sync_client R during pub since s = (Inr (), v) \<and>
    mset posts = filter_mset (wanted since (Some pub)) (mset (map post_of_row (tb_posts (sv_store s)))) \<and>
    sorted (map (\<lambda>p. (post_ts p, post_id p)) posts) \<and>
    batches (rm_lib R) (ss_pub_key ses) k (take (nat (rc_max_sync_posts (rm_config R))) posts) wss \<and>
    sv_sent v = sv_sent s @ concat wss \<and> tb_posts (sv_store v) = tb_posts (sv_store s)"
  by (rule sync_client_pushes [OF assms])

lemma sync_pushes_new_posts_witness:
  "\<exists>w ws v. sync_client demo_room (\<lambda>s. s) demo_key 0
      (demo_server\<lparr>sv_store := empty_tables\<lparr>tb_posts := [\<lparr> row_id = 1, row_author_pubkey = bytes_hex (replicate 32 9), row_author_prefix = 9,
         row_ts = 7, row_body = [104], row_txt_type = 0, row_created_at = 8 \<rparr>]\<rparr>\<rparr>) = (Inr (), v) \<and> sv_sent v = w # ws"
proof -
  let ?row = "\<lparr> row_id = 1, row_author_pubkey = bytes_hex (replicate 32 9), row_author_prefix = 9,
         row_ts = 7, row_body = [104], row_txt_type = 0, row_created_at = 8 \<rparr> :: post_row"
  let ?s = "demo_server\<lparr>sv_store := empty_tables\<lparr>tb_posts := [?row]\<rparr>\<rparr>"
  have ses: "map_of (sv_sessions ?s) demo_key = Some demo_session" by (simp add: demo_server_def)
  have key: "ss_pub_key demo_session = demo_key" by (simp add: demo_session_def)
  have reach: "reachable demo_room demo_session demo_secret"
    using demo_secrets(1,4,5) by (simp add: reachable_def demo_session_def route_ok_def demo_room_def)
  have push: "pushable (post_of_row ?row)" by (simp add: pushable_def encodable_def surrogate_def)
  have neq: "bytes_hex (replicate 32 9) \<noteq> bytes_hex demo_key"
  proof
    assume "bytes_hex (replicate 32 9) = bytes_hex demo_key"
    then have "Inr (replicate 32 9) = (Inr demo_key :: bytes res)" using fromhex_hex by metis
    then have "hd (replicate 32 (9 :: byte)) = hd demo_key" by simp
    then show False by (simp add: demo_key_def)
  qed
  have max: "rc_max_sync_posts (rm_config demo_room) = 20" by (simp add: demo_room_def)
  obtain posts wss v where v: "sync_client demo_room (\<lambda>s. s) demo_key 0 ?s = (Inr (), v)"
    "mset posts = filter_mset (wanted 0 (Some demo_key)) (mset [post_of_row ?row])" "batches demo_lib demo_key demo_secret (take 20 posts) wss"
    "sv_sent v = concat wss"
    using sync_pushes_new_posts [of demo_room "\<lambda>s. s" ?s demo_key demo_session demo_secret 0] demo_lib_laws only_acks_id ses reach push max
    by (auto simp: key)
  have "posts = [post_of_row ?row]" using v(2) neq by (simp add: wanted_def)
  then obtain ws where "wss = [ws]" "ws \<noteq> []" using v(3) by (auto simp: batches_def list_all2_Cons1)
  then show ?thesis using v(1,4) by (cases ws) auto
qed

end
