(* ===== verification/Loopback.thy ===== *)
theory Loopback
  imports RoomCodec Advert PyJson
begin

unbundle bit_operations_syntax

text \<open>
  The two loopback tests (\<open>tools/room_loopback.py\<close>, \<open>tools/echo_loopback.py\<close>): programs that play a client
  of a running server over the broker and return an exit code. What the server makes of a frame is an argument of
  the model; \<open>RoomLoopback\<close> and \<open>EchoLoopback\<close> run the tests against the modelled servers. The lines the tools
  print are not modelled.
\<close>

section \<open>The broker as the tools see it\<close>

text \<open>
  The server behind the broker, and the messages of \<open>mesh/tx\<close> the tool has not read. \<open>react\<close> says what
  the server publishes because of a frame on \<open>mesh/rx\<close>, before the time limit of the next wait, or that the publish call raises.
\<close>

record 'n bus =
  bus_node :: 'n
  bus_unread :: "bytes list"

type_synonym 'n reaction = "bytes \<Rightarrow> 'n \<Rightarrow> ('n \<times> bytes list) res"

definition bus_publish :: "'n reaction \<Rightarrow> bytes \<Rightarrow> ('n bus, unit) io" where
  "bus_publish react frame b =
     (case react frame (bus_node b) of
        Inl e \<Rightarrow> (Inl e, b)
      | Inr (n, frames) \<Rightarrow> (Inr (), b\<lparr>bus_node := n, bus_unread := bus_unread b @ frames\<rparr>))"

text \<open>\<open>b[0]\<close>.\<close>

definition first_byte :: "bytes \<Rightarrow> byte res" where
  "first_byte b = (case b of [] \<Rightarrow> Inl IndexError | x # _ \<Rightarrow> Inr x)"

text \<open>
  \<open>_get_room_pub_key\<close> and \<open>_get_echo_pub_key\<close>: the retained status message, if the broker has one, through
  \<open>json.loads\<close> on bytes, which is an argument.
\<close>

definition json_index :: "json \<Rightarrow> ustring \<Rightarrow> json res" where
  "json_index v key =
     (case v of
        JObj kvs \<Rightarrow> (case map_of kvs key of None \<Rightarrow> Inl KeyError | Some x \<Rightarrow> Inr x)
      | _ \<Rightarrow> Inl TypeError)"

definition get_pub_key :: "(bytes \<Rightarrow> json res) \<Rightarrow> bytes option \<Rightarrow> bytes res" where
  "get_pub_key loads retained =
     (case retained of
        None \<Rightarrow> Inl TimeoutError
      | Some payload \<Rightarrow>
          bindR (loads payload) (\<lambda>info.
          bindR (json_index info (ustr ''pub_key'')) (\<lambda>v.
          case v of JStr s \<Rightarrow> bytes_fromhex s | _ \<Rightarrow> Inl TypeError)))"

text \<open>\<open>_wait_for\<close>: the messages up to the first that decodes and matches; the time is up when none does.\<close>

fun wait_match :: "(packet \<Rightarrow> 'r option res) \<Rightarrow> bytes list \<Rightarrow> 'r res \<times> bytes list" where
  "wait_match match [] = (Inl TimeoutError, [])"
| "wait_match match (payload # it) =
     (case decode_packet payload of
        Inl e \<Rightarrow> if caught_by_ValueError e then wait_match match it else (Inl e, it)
      | Inr pkt \<Rightarrow>
          (case match pkt of
             Inl e \<Rightarrow> (Inl e, it)
           | Inr None \<Rightarrow> wait_match match it
           | Inr (Some res) \<Rightarrow> (Inr res, it)))"

definition wait_for :: "(packet \<Rightarrow> 'r option res) \<Rightarrow> ('n bus, 'r) io" where
  "wait_for match b = (let (r, it) = wait_match match (bus_unread b) in (r, b\<lparr>bus_unread := it\<rparr>))"

text \<open>What \<open>sys.exit(asyncio.run(main()))\<close> makes of the result.\<close>

definition exit_code :: "int res \<Rightarrow> int res" where
  "exit_code r = (case r of Inl TimeoutError \<Rightarrow> Inr 2 | _ \<Rightarrow> r)"

section \<open>The test of the room server\<close>

definition match_resp :: "crypto_lib \<Rightarrow> bytes \<Rightarrow> bytes \<Rightarrow> packet \<Rightarrow> login_response option res" where
  "match_resp C a_pub shared_a pkt =
     (if pkt_type pkt \<noteq> RESPONSE then Inr None
      else
        bindR (first_byte a_pub) (\<lambda>a0.
        if take 1 (pkt_payload pkt) \<noteq> [a0] then Inr None
        else try_decrypt_login_response C (pkt_payload pkt) shared_a))"

definition match_ack :: "crypto_lib \<Rightarrow> bytes \<Rightarrow> bytes \<Rightarrow> bytes \<Rightarrow> packet \<Rightarrow> unit option res" where
  "match_ack C a_pub shared_a expected_ack pkt =
     (if pkt_type pkt = ACK
      then Inr (if parse_ack_payload (pkt_payload pkt) = Some expected_ack then Some () else None)
      else if pkt_type pkt = PATH
      then
        bindR (first_byte a_pub) (\<lambda>a0.
        if take 1 (pkt_payload pkt) \<noteq> [a0] then Inr None
        else
          bindR (try_decrypt_path_msg C (pkt_payload pkt) shared_a) (\<lambda>pm.
          case pm of
            None \<Rightarrow> Inr None
          | Some m \<Rightarrow>
              Inr (if pm_extra_type m = payload_val ACK \<and> pm_extra m = expected_ack then Some () else None)))
      else Inr None)"

definition match_push :: "crypto_lib \<Rightarrow> bytes \<Rightarrow> bytes \<Rightarrow> packet \<Rightarrow> room_push option res" where
  "match_push C b_pub shared_b pkt =
     (if pkt_type pkt \<noteq> TXT_MSG then Inr None
      else
        bindR (first_byte b_pub) (\<lambda>b0.
        if take 1 (pkt_payload pkt) \<noteq> [b0] then Inr None
        else try_decrypt_room_push C (pkt_payload pkt) shared_b))"

text \<open>The login both clients send.\<close>

definition login_frame :: "crypto_lib \<Rightarrow> bytes \<Rightarrow> byte \<Rightarrow> bytes \<Rightarrow> int \<Rightarrow> ustring \<Rightarrow> bytes res" where
  "login_frame C shared room0 pub now password =
     bindR (build_anon_login_packet C shared (uint room0) pub now 0 password FLOOD [] 1) encode_packet"

text \<open>
  \<open>main\<close> after the room's key is known: \<open>a_rand\<close> and \<open>b_rand\<close> are the seeds the package draws, \<open>t1\<close>, \<open>t2\<close> and \<open>t3\<close> the readings of the clock.
\<close>

definition room_phases ::
    "crypto_lib \<Rightarrow> 'n reaction \<Rightarrow> bytes \<Rightarrow> bytes \<Rightarrow> bytes \<Rightarrow> int \<Rightarrow> int \<Rightarrow> int \<Rightarrow> ustring \<Rightarrow> ustring \<Rightarrow> ('n bus, int) io" where
  "room_phases C react room_pub a_rand b_rand t1 t2 t3 password body =
     (let (a_seed, a_pub) = generate_keypair C a_rand; (b_seed, b_pub) = generate_keypair C b_rand in
      bindIO (liftR (first_byte room_pub)) (\<lambda>room0.
      bindIO (liftR (calc_shared_secret C a_seed room_pub)) (\<lambda>shared_a.
      bindIO (liftR (calc_shared_secret C b_seed room_pub)) (\<lambda>shared_b.
      bindIO (liftR (login_frame C shared_a room0 a_pub t1 password)) (\<lambda>login.
      bindIO (bus_publish react login) (\<lambda>_.
      bindIO (wait_for (match_resp C a_pub shared_a)) (\<lambda>resp.
      if lr_status resp \<noteq> RESP_SERVER_LOGIN_OK then returnIO 1
      else
        bindIO (liftR (build_txt_msg_packet C shared_a room_pub a_pub t2 body 0 DIRECT [] 1)) (\<lambda>post.
        bindIO (liftR (ack_hash_for C t2 0 body a_pub TXT_TYPE_PLAIN)) (\<lambda>expected_ack.
        bindIO (liftR (encode_packet post)) (\<lambda>frame.
        bindIO (bus_publish react frame) (\<lambda>_.
        bindIO (wait_for (match_ack C a_pub shared_a expected_ack)) (\<lambda>_.
        bindIO (liftR (login_frame C shared_b room0 b_pub t3 password)) (\<lambda>login_b.
        bindIO (bus_publish react login_b) (\<lambda>_.
        bindIO (wait_for (match_push C b_pub shared_b)) (\<lambda>push.
        returnIO (if rp_text push \<noteq> body then 1 else 0))))))))))))))))"

definition room_loopback ::
    "crypto_lib \<Rightarrow> (bytes \<Rightarrow> json res) \<Rightarrow> 'n reaction \<Rightarrow> bytes option \<Rightarrow> bytes \<Rightarrow> bytes \<Rightarrow> int \<Rightarrow> int \<Rightarrow> int
       \<Rightarrow> ustring \<Rightarrow> ustring \<Rightarrow> 'n bus \<Rightarrow> int res" where
  "room_loopback C loads react retained a_rand b_rand t1 t2 t3 password body b =
     exit_code (fst (bindIO (liftR (get_pub_key loads retained)) (\<lambda>room_pub.
       room_phases C react room_pub a_rand b_rand t1 t2 t3 password body) b))"

section \<open>The test of the echo server\<close>

text \<open>The loop over the messages; it ends by its \<open>break\<close> or when the time is up.\<close>

fun collect :: "crypto_lib \<Rightarrow> bytes \<Rightarrow> byte \<Rightarrow> bytes \<Rightarrow> bool \<Rightarrow> bool \<Rightarrow> bytes list \<Rightarrow> (bool \<times> bool) res \<times> bytes list" where
  "collect C shared test0 expected_ack got_ack got_echo [] = (Inl TimeoutError, [])"
| "collect C shared test0 expected_ack got_ack got_echo (payload # it) =
     (case decode_packet payload of
        Inl e \<Rightarrow>
          if caught_by_ValueError e then collect C shared test0 expected_ack got_ack got_echo it else (Inl e, it)
      | Inr pkt \<Rightarrow>
          (case (if pkt_type pkt = ACK
                 then Inr (got_ack \<or> parse_ack_payload (pkt_payload pkt) = Some expected_ack, got_echo)
                 else if pkt_type pkt = TXT_MSG
                 then if pkt_payload pkt = [] \<or> pkt_payload pkt ! 0 \<noteq> test0 then Inr (got_ack, got_echo)
                      else bindR (try_decrypt_txt_msg C (pkt_payload pkt) shared) (\<lambda>msg.
                        Inr (got_ack, got_echo \<or> msg \<noteq> None))
                 else Inr (got_ack, got_echo)) of
             Inl e \<Rightarrow> (Inl e, it)
           | Inr (a, h) \<Rightarrow>
               if a \<and> h then (Inr (a, h), it) else collect C shared test0 expected_ack a h it))"

definition collecting :: "crypto_lib \<Rightarrow> bytes \<Rightarrow> byte \<Rightarrow> bytes \<Rightarrow> ('n bus, bool \<times> bool) io" where
  "collecting C shared test0 expected_ack b =
     (let (r, it) = collect C shared test0 expected_ack False False (bus_unread b) in (r, b\<lparr>bus_unread := it\<rparr>))"

text \<open>The advert with which the client makes itself known.\<close>

definition advert_frame :: "crypto_lib \<Rightarrow> bytes \<Rightarrow> bytes \<Rightarrow> int \<Rightarrow> bytes res" where
  "advert_frame C seed pub now =
     bindR (encode_advert C seed pub now \<lparr> ad_type = advert_type_val CHAT, ad_name = ustr ''loopback-app'', ad_lat = None,
        ad_lon = None, ad_feat1 = None, ad_feat2 = None \<rparr>) (\<lambda>payload.
     encode_packet (make_packet FLOOD ADVERT [] payload 1))"

definition echo_phases ::
    "crypto_lib \<Rightarrow> 'n reaction \<Rightarrow> bytes \<Rightarrow> bytes \<Rightarrow> int \<Rightarrow> int \<Rightarrow> int \<Rightarrow> ustring \<Rightarrow> ('n bus, int) io" where
  "echo_phases C react echo_pub rand t0 t1 t2 body =
     (let (test_seed, test_pub) = generate_keypair C rand in
      bindIO (liftR (first_byte echo_pub)) (\<lambda>_.
      bindIO (liftR (first_byte test_pub)) (\<lambda>test0.
      bindIO (liftR (calc_shared_secret C test_seed echo_pub)) (\<lambda>shared.
      bindIO (liftR (ack_hash_for C t0 0 body test_pub TXT_TYPE_PLAIN)) (\<lambda>_.
      bindIO (liftR (advert_frame C test_seed test_pub t1)) (\<lambda>advert.
      bindIO (bus_publish react advert) (\<lambda>_.
      bindIO (liftR (build_txt_msg_packet C shared echo_pub test_pub t2 body 0 FLOOD [] 1)) (\<lambda>msg_pkt.
      bindIO (liftR (ack_hash_for C t2 0 body test_pub TXT_TYPE_PLAIN)) (\<lambda>expected_ack.
      bindIO (liftR (encode_packet msg_pkt)) (\<lambda>frame.
      bindIO (bus_publish react frame) (\<lambda>_.
      bindIO (collecting C shared test0 expected_ack) (\<lambda>(got_ack, got_echo).
      returnIO (if got_ack \<and> got_echo then 0 else 1)))))))))))))"

definition echo_loopback ::
    "crypto_lib \<Rightarrow> (bytes \<Rightarrow> json res) \<Rightarrow> 'n reaction \<Rightarrow> bytes option \<Rightarrow> bytes \<Rightarrow> int \<Rightarrow> int \<Rightarrow> int
       \<Rightarrow> ustring \<Rightarrow> 'n bus \<Rightarrow> int res" where
  "echo_loopback C loads react retained rand t0 t1 t2 body b =
     exit_code (fst (bindIO (liftR (get_pub_key loads retained)) (\<lambda>echo_pub.
       echo_phases C react echo_pub rand t0 t1 t2 body) b))"

end
