(* ===== verification/RoomLoopback.thy ===== *)
theory RoomLoopback
  imports Loopback RoomTasks Composition
begin

unbundle bit_operations_syntax

text \<open>
  The test of the room server run against the modelled room server: two clients log in, the first posts, and the
  second is pushed the post.
\<close>

section \<open>The server behind the broker\<close>

text \<open>
  The server handles the frame and runs the tasks it started, at the time given by the number of the frame; nothing
  arrives during the waits of the tasks, as the tool sends no acknowledgements.
\<close>

definition room_react :: "room \<Rightarrow> (nat \<Rightarrow> clock) \<Rightarrow> (nat \<times> server) reaction" where
  "room_react R cks frame x =
     (case x of (n, s) \<Rightarrow>
       let s1 = run_room R (RoomFrame (cks n) frame) s;
           s2 = run_rooms R (map (\<lambda>t. RoomTask (\<lambda>_. [])) (sv_tasks s1)) s1 in
       Inr ((Suc n, s2), drop (length (sv_sent s)) (sv_sent s2)))"

text \<open>A server between two frames of the test: nothing is running, no publish raises and no advert gave a name.\<close>

definition calm :: "server \<Rightarrow> bool" where
  "calm s \<longleftrightarrow> serving s \<and> sv_tasks s = [] \<and> (\<forall>n. \<not> sv_publish_fails s n) \<and> sv_names s = (\<lambda>_. None)"

lemma idle_task: "run_room R (RoomTask (\<lambda>_. [])) s = step_task R (\<lambda>s. s) s"
proof -
  have "(\<lambda>u. fold (\<lambda>run s. run s) ((map (run_room R) \<circ> (\<lambda>_. [])) (sv_next_future u)) u) = (\<lambda>s. s)" by (rule ext) simp
  then show ?thesis by simp
qed

text \<open>A frame that starts one task, which ends calmly.\<close>

lemma react_one:
  assumes "sv_tasks (snd (receive R (cks n, frame) s)) = [t]" "step_task R (\<lambda>s. s) (snd (receive R (cks n, frame) s)) = u"
    and "sv_sent u = sv_sent s @ frames"
  shows "room_react R cks frame (n, s) = Inr ((Suc n, u), frames)"
  using assms by (simp add: room_react_def run_rooms_def idle_task Let_def del: run_room.simps(3))

section \<open>A new client\<close>

lemma track_new:
  assumes "map_of (sv_sessions s) k = None" "path_hash k = Inr h" "pkt_path p = []" "wf_packet p"
  shows "\<exists>ses. track_session k adm p s = (Inr ses, put_session k ses (add_by_hash h k s)) \<and> ss_pub_key ses = k \<and>
    ss_path ses = [] \<and> ss_route_type ses = FLOOD"
proof -
  have r: "return_route p = Inr (FLOOD, [], 1)" by (rule return_route_ok [OF assms(4)]) (use assms(3) in auto)
  have p: "put_session k x (add_by_hash h k (put_session k x s)) = put_session k x (add_by_hash h k s)" for x
    by (simp add: put_session_def add_by_hash_def update_Some_unfold)
  show ?thesis unfolding track_session_def by (simp add: io_defs r assms(1,2) Let_def p)
qed

lemma update_nonmember: "k \<notin> fst ` set al \<Longrightarrow> AList.update k v al = al @ [(k, v)]"
  by (induction al) auto

lemma posts_kept: "upsert_client now k name adm db = (Inr (), db') \<Longrightarrow> tb_posts db' = tb_posts db \<and> tb_seq db' = tb_seq db"
  by (auto simp: upsert_client_def Let_def split: sum.splits)

text \<open>A login request as the tool builds it, in a packet.\<close>

definition login_of :: "room \<Rightarrow> bytes \<Rightarrow> bytes \<Rightarrow> role \<Rightarrow> bytes \<Rightarrow> bool" where
  "login_of R frame k role shared \<longleftrightarrow>
     id_shared_secret (rm_lib R) (rm_identity R) k = Inr shared \<and>
     (\<exists>p req. decode_packet frame = Inr p \<and> pkt_type p = ANON_REQ \<and> pkt_payload p \<noteq> [] \<and> pkt_path p = [] \<and>
        address (rm_identity R) = Inr (uint (pkt_payload p ! 0)) \<and>
        try_decrypt_login (rm_lib R) (pkt_payload p) (id_seed (rm_identity R)) = Inr (Some req) \<and>
        classify (rm_config R) (lg_password req) = Some role \<and> lg_client_pub_key req = k \<and> lg_sync_since req = 0)"

definition clock_ok :: "clock \<Rightarrow> bool" where
  "clock_ok ck \<longleftrightarrow> 0 \<le> ck_time ck \<and> ck_time ck < 2 ^ 32 \<and> - (2 ^ 63) \<le> ck_store_time ck \<and> ck_store_time ck < 2 ^ 63"

lemma first_login:
  assumes C: "crypto_laws (rm_lib R)" "x25519_law (rm_lib R)" and s: "calm s" and ck: "clock_ok ck"
    and login: "login_of R frame k role shared" and new: "map_of (sv_sessions s) k = None"
  obtains w q ses t where "snd (receive R (ck, frame) s) = t\<lparr>sv_tasks := [SyncClient k 0]\<rparr>" "calm t"
    "decode_packet w = Inr q" "pkt_type q = RESPONSE" "sent_to k q"
    "try_decrypt_login_response (rm_lib R) (pkt_payload q) shared = Inr (Some \<lparr> lr_server_ts = ck_time ck,
      lr_status = RESP_SERVER_LOGIN_OK, lr_is_admin = (role = Admin), lr_permissions = role_permissions role \<rparr>)"
    "sv_sent t = sv_sent s @ [w]" "sv_sessions t = sv_sessions s @ [(k, ses)]" "ss_pub_key ses = k" "ss_path ses = []"
    "ss_route_type ses = FLOOD" "tb_posts (sv_store t) = tb_posts (sv_store s)" "tb_seq (sv_store t) = tb_seq (sv_store s)"
    "sv_recent_messages t = sv_recent_messages s"
proof -
  obtain p req where p: "decode_packet frame = Inr p" "pkt_type p = ANON_REQ" "pkt_payload p \<noteq> []" "pkt_path p = []"
    "address (rm_identity R) = Inr (uint (pkt_payload p ! 0))"
    "try_decrypt_login (rm_lib R) (pkt_payload p) (id_seed (rm_identity R)) = Inr (Some req)"
    "classify (rm_config R) (lg_password req) = Some role" "lg_client_pub_key req = k" "lg_sync_since req = 0"
    using login by (auto simp: login_of_def)
  have calm: "serving s" "sv_tasks s = []" "\<not> sv_publish_fails s (sv_publishes s)" "sv_names s = (\<lambda>_. None)" using s by (simp_all add: calm_def)
  have time: "0 \<le> ck_time ck" "ck_time ck < 2 ^ 32" "- (2 ^ 63) \<le> ck_store_time ck" "ck_store_time ck < 2 ^ 63"
    using ck by (simp_all add: clock_ok_def)
  have "pred_option encodable (sv_names s (lg_client_pub_key req))" by (simp add: calm(4))
  note state = login_state [OF C calm(1) p(1-3,5-7) this calm(3) time, unfolded p(8,9) calm(2) append_Nil]
  obtain shared' w q ses t db where secret: "id_shared_secret (rm_lib R) (rm_identity R) k = Inr shared'"
    and l: "decode_packet w = Inr q" "pkt_type q = RESPONSE" "sent_to k q"
    "try_decrypt_login_response (rm_lib R) (pkt_payload q) shared' = Inr (Some \<lparr> lr_server_ts = ck_time ck,
      lr_status = RESP_SERVER_LOGIN_OK, lr_is_admin = (role = Admin), lr_permissions = role_permissions role \<rparr>)"
    "track_session k (role = Admin) p s = (Inr ses, t)"
    "upsert_client (ck_store_time ck) k (ss_name ses) (role = Admin) (sv_store s) = (Inr (), db)"
    "snd (receive R (ck, frame) s) = (sent_one w (t\<lparr>sv_store := db\<rparr>))\<lparr>sv_tasks := [SyncClient k 0]\<rparr>"
    by (rule state)
  have shared: "shared' = shared" using secret login by (simp add: login_of_def)
  have "k \<noteq> []" using login_key_length [OF p(6)] p(8) by auto
  then obtain h where h: "path_hash k = Inr h" using path_hash_total by blast
  from track_new [OF new h p(4) decode_packet_Inr(1) [OF p(1)], of "role = Admin"] l(5)
  have t: "t = put_session k ses (add_by_hash h k s)" "ss_pub_key ses = k" "ss_path ses = []" "ss_route_type ses = FLOOD" by auto
  let ?t = "(sent_one w (t\<lparr>sv_store := db\<rparr>))\<lparr>sv_tasks := []\<rparr>"
  have "serving (snd (receive R (ck, frame) s))"
    using room_loop.step_inv [OF calm(1), of R "(ck, frame)"] by (simp add: receive_step_def Let_def)
  then have "serving ?t" unfolding l(7) serving_def by (simp add: sent_one_def)
  then have "calm ?t" using s by (simp add: calm_def t(1) sent_one_def put_session_def add_by_hash_def)
  moreover have "sv_sessions ?t = sv_sessions s @ [(k, ses)]"
    using new update_nonmember [of k "sv_sessions s" ses]
    by (simp add: t(1) sent_one_def put_session_def add_by_hash_def map_of_eq_None_iff)
  ultimately show thesis
    by (intro that [of ?t w q ses])
      (use l [unfolded shared] t(2-4) posts_kept [OF l(6)] in \<open>simp_all add: sent_one_def t(1) add_by_hash_def\<close>)
qed

section \<open>The three steps\<close>

lemma step_one: "calm t \<Longrightarrow> step_task R during (t\<lparr>sv_tasks := [x]\<rparr>) = snd (run_task R during x t)"
  by (cases t) (simp add: step_task_def calm_def)

lemma sync_nothing: "tb_posts (sv_store t) = [] \<Longrightarrow> sync_client R during k 0 t = (Inr (), t)"
  by (simp add: sync_client_def on_store_def posts_since_def sql_int_def py_prefix_def io_defs)

lemma fan_out_nobody:
  "bytes_fromhex (post_author_pubkey post) = Inr k \<Longrightarrow> sv_sessions t = [(k, ses)] \<Longrightarrow> ss_pub_key ses = k \<Longrightarrow>
    fan_out R during post t = (Inr (), t)"
  by (simp add: fan_out_def fan_out_targets_def io_defs)

lemma react_login:
  assumes "crypto_laws (rm_lib R)" "x25519_law (rm_lib R)" "calm s" "clock_ok (cks n)" "login_of R frame k role shared"
    and "map_of (sv_sessions s) k = None" "tb_posts (sv_store s) = []"
  obtains w q ses t where "room_react R cks frame (n, s) = Inr ((Suc n, t), [w])" "calm t"
    "decode_packet w = Inr q" "pkt_type q = RESPONSE" "sent_to k q"
    "try_decrypt_login_response (rm_lib R) (pkt_payload q) shared = Inr (Some \<lparr> lr_server_ts = ck_time (cks n),
      lr_status = RESP_SERVER_LOGIN_OK, lr_is_admin = (role = Admin), lr_permissions = role_permissions role \<rparr>)"
    "sv_sessions t = sv_sessions s @ [(k, ses)]" "ss_pub_key ses = k" "tb_posts (sv_store t) = []"
    "tb_seq (sv_store t) = tb_seq (sv_store s)" "sv_recent_messages t = sv_recent_messages s"
proof -
  obtain w q ses t where l: "snd (receive R (cks n, frame) s) = t\<lparr>sv_tasks := [SyncClient k 0]\<rparr>" "calm t"
    "decode_packet w = Inr q" "pkt_type q = RESPONSE" "sent_to k q"
    "try_decrypt_login_response (rm_lib R) (pkt_payload q) shared = Inr (Some \<lparr> lr_server_ts = ck_time (cks n),
      lr_status = RESP_SERVER_LOGIN_OK, lr_is_admin = (role = Admin), lr_permissions = role_permissions role \<rparr>)"
    "sv_sent t = sv_sent s @ [w]" "sv_sessions t = sv_sessions s @ [(k, ses)]" "ss_pub_key ses = k"
    "tb_posts (sv_store t) = tb_posts (sv_store s)" "tb_seq (sv_store t) = tb_seq (sv_store s)"
    "sv_recent_messages t = sv_recent_messages s"
    by (rule first_login [OF assms(1-6)])
  have "step_task R (\<lambda>s. s) (snd (receive R (cks n, frame) s)) = t"
    using l(10) assms(7) by (simp add: l(1) step_one [OF l(2)] run_task_def sync_nothing)
  then have "room_react R cks frame (n, s) = Inr ((Suc n, t), [w])"
    by (intro react_one [of R cks n frame s "SyncClient k 0"]) (simp_all add: l(1,7))
  then show thesis using that l assms(7) by metis
qed

lemma react_post:
  assumes C: "crypto_laws (rm_lib R)" "x25519_law (rm_lib R)" "id_pub_key (rm_identity R) \<noteq> []" and s: "calm s"
    and ses: "sv_sessions s = [(k, ses)]" "ss_pub_key ses = k" and order: "rm_set_order R [k] = [k]" and ck: "clock_ok (cks n)"
    and fresh: "tb_posts (sv_store s) = []" "tb_seq (sv_store s) + 1 < 2 ^ 63" "sv_recent_messages s = (\<lambda>_. None)"
    and p: "decode_packet frame = Inr p" "pkt_type p = TXT_MSG" "\<not> is_flood p" "addressed (rm_identity R) p = Inr (Some h)"
    and k: "path_hash k = Inr h"
    and o: "open_with (rm_lib R) (rm_identity R) try_decrypt_txt_msg (pkt_payload p) k = Inr (Some (shared, msg))"
    and m: "tm_txt_type msg = TXT_TYPE_PLAIN" "txt_ack_hash (rm_lib R) msg k = Inr ack"
  obtains w q u ses' row where "room_react R cks frame (n, s) = Inr ((Suc n, u), [w])" "calm u"
    "decode_packet w = Inr q" "pkt_type q = ACK" "parse_ack_payload (pkt_payload q) = Some ack"
    "sv_sessions u = [(k, ses')]" "tb_posts (sv_store u) = [row]" "row_author_pubkey row = bytes_hex k"
    "row_ts row = tm_timestamp msg" "row_body row = tm_text msg"
proof -
  have calm: "serving s" "sv_tasks s = []" "\<not> sv_publish_fails s (sv_publishes s)" using s by (simp_all add: calm_def)
  have wf: "wf_server s" using calm(1) by (simp add: serving_def room_inv_def)
  have set: "distinct (sv_by_hash s h)" "set (sv_by_hash s h) = {j \<in> fst ` set (sv_sessions s). path_hash j = Inr h}"
    using wf by (simp_all add: wf_server_def)
  have "set (sv_by_hash s h) = {k}" unfolding set(2) by (auto simp: ses(1) k)
  then have "sv_by_hash s h = [k]" using set(1)
    by (metis distinct.simps(2) empty_iff insert_iff list.set(1) list.set_intros(1) list.set_intros(2) list.exhaust)
  then have at: "sessions_at R h s = [ses]" by (simp add: sessions_at_def List.map_filter_def order ses(1))
  have match: "match_post R s p ses shared msg"
    using p(4) o at ses(2) unfolding match_post_def by (intro exI [of _ h]) simp
  have time: "- (2 ^ 63) \<le> ck_store_time (cks n)" "ck_store_time (cks n) < 2 ^ 63" using ck by (simp_all add: clock_ok_def)
  let ?t = "snd (receive R (cks n, frame) s)"
  obtain w q row where e: "decode_packet w = Inr q" "confirms (rm_lib R) shared p ack q" "sv_sent ?t = sv_sent s @ [w]"
    "tb_posts (sv_store ?t) = [row]" "row_author_pubkey row = bytes_hex k" "row_ts row = tm_timestamp msg" "row_body row = tm_text msg"
    "sv_tasks ?t = [FanOut (post_of_row row)]"
    using post_effect [OF C calm(1) p(1,2) match m(1) m(2) [folded ses(2)] _ calm(3) fresh(2) time] fresh(1,3) calm(2) ses(2)
    by (auto simp: expire_def)
  have known: "map_of (sv_sessions s) (ss_pub_key ses) = Some ses" by (simp add: ses)
  obtain ses' where "ss_pub_key ses' = k" "sv_sessions ?t = [(k, ses')]" "sv_names ?t = sv_names s" "sv_publish_fails ?t = sv_publish_fails s"
  proof -
    obtain ses' n' l db tasks where a: "ss_pub_key ses' = ss_pub_key ses"
      "snd (accept_post R (cks n) p ses shared msg s) = (put_session (ss_pub_key ses) ses' s)
       \<lparr>sv_recent_messages := (if expire (ck_monotonic (cks n) - rc_recent_message_ttl_s (rm_config R)) (sv_recent_messages s) (tm_src_hash msg, ack) \<noteq> None
          then expire (ck_monotonic (cks n) - rc_recent_message_ttl_s (rm_config R)) (sv_recent_messages s)
          else (expire (ck_monotonic (cks n) - rc_recent_message_ttl_s (rm_config R)) (sv_recent_messages s))((tm_src_hash msg, ack) \<mapsto> ck_monotonic (cks n))),
        sv_publishes := n', sv_sent := l, sv_store := db, sv_tasks := tasks\<rparr>"
      by (rule accept_post_effect [OF decode_packet_Inr(1) [OF p(1)] known m(2) [folded ses(2)], of "cks n" shared]) blast
    show thesis
      by (rule that [of ses']) (use a in \<open>simp_all add: receive_post [OF p(1,2)] handle_post_match [OF match] put_session_def ses\<close>)
  qed
  note t = this
  have "serving ?t" using room_loop.step_inv [OF calm(1), of R "(cks n, frame)"] by (simp add: receive_step_def Let_def)
  then have u: "calm (?t\<lparr>sv_tasks := []\<rparr>)" using s t(3,4) by (simp add: calm_def serving_def)
  have "?t = (?t\<lparr>sv_tasks := []\<rparr>)\<lparr>sv_tasks := [FanOut (post_of_row row)]\<rparr>" using e(8) by (metis server.surjective server.update_convs(9))
  then have "step_task R (\<lambda>s. s) ?t = snd (run_task R (\<lambda>s. s) (FanOut (post_of_row row)) (?t\<lparr>sv_tasks := []\<rparr>))"
    using step_one [OF u] by metis
  also have "\<dots> = ?t\<lparr>sv_tasks := []\<rparr>"
    using e(5) t(1,2) by (simp add: run_task_def fan_out_nobody [where k = k and ses = ses'])
  finally have "room_react R cks frame (n, s) = Inr ((Suc n, ?t\<lparr>sv_tasks := []\<rparr>), [w])"
    by (intro react_one [of R cks n frame s "FanOut (post_of_row row)"]) (simp_all add: e(3,8))
  then show thesis using that [OF _ u e(1)] e p(3) t(2) by (simp add: confirms_def)
qed

definition attempts_ok :: "room \<Rightarrow> bool" where
  "attempts_ok R \<longleftrightarrow> 0 \<le> rc_push_direct_attempts (rm_config R) \<and> 0 < rc_push_flood_attempts (rm_config R) \<and>
     0 < rc_max_sync_posts (rm_config R)"

lemma react_second:
  assumes C: "crypto_laws (rm_lib R)" "x25519_law (rm_lib R)" "id_pub_key (rm_identity R) \<noteq> []" and s: "calm s"
    and ck: "clock_ok (cks n)" and login: "login_of R frame k role shared" and new: "map_of (sv_sessions s) k = None"
    and row: "tb_posts (sv_store s) = [row]" "0 < row_ts row" "row_author_pubkey row \<noteq> bytes_hex k" "pushable (post_of_row row)"
    and cfg: "attempts_ok R"
  obtains w q u ws where "room_react R cks frame (n, s) = Inr ((Suc n, u), w # ws)" "decode_packet w = Inr q"
    "pkt_type q = RESPONSE" "ws \<noteq> []" "list_all (push_opens (rm_lib R) k shared (post_of_row row)) ws"
proof -
  obtain w q ses t where l: "snd (receive R (cks n, frame) s) = t\<lparr>sv_tasks := [SyncClient k 0]\<rparr>" "calm t"
    "decode_packet w = Inr q" "pkt_type q = RESPONSE"
    "sv_sent t = sv_sent s @ [w]" "sv_sessions t = sv_sessions s @ [(k, ses)]" "ss_pub_key ses = k" "ss_path ses = []"
    "ss_route_type ses = FLOOD" "tb_posts (sv_store t) = tb_posts (sv_store s)"
    by (rule first_login [OF C(1,2) s ck login new])
  have secret: "id_shared_secret (rm_lib R) (rm_identity R) k = Inr shared" using login by (simp add: login_of_def)
  have len: "16 \<le> length shared" using shared_secret_length [OF C(2)] secret by (fastforce simp: id_shared_secret_def)
  obtain p :: packet and req :: login_req where req: "try_decrypt_login (rm_lib R) (pkt_payload p) (id_seed (rm_identity R)) = Inr (Some req)" "lg_client_pub_key req = k"
    using login unfolding login_of_def by blast
  have "k \<noteq> []" using login_key_length [OF req(1)] req(2) by auto
  then have reach: "reachable R ses shared"
    using secret len l(7-9) cfg by (simp add: reachable_def route_ok_def attempts_ok_def)
  have here: "map_of (sv_sessions t) k = Some ses" using new by (simp add: l(6) map_add_def split: option.splits)
  have net: "\<forall>n. \<not> sv_publish_fails t n" using l(2) by (simp add: calm_def)
  have max: "0 \<le> rc_max_sync_posts (rm_config R)" using cfg by (simp add: attempts_ok_def)
  obtain posts wss v where v: "sync_client R (\<lambda>s. s) k 0 t = (Inr (), v)"
    "mset posts = filter_mset (wanted 0 (Some k)) (mset (map post_of_row (tb_posts (sv_store t))))"
    "batches (rm_lib R) k shared (take (nat (rc_max_sync_posts (rm_config R))) posts) wss" "sv_sent v = sv_sent t @ concat wss"
    using sync_client_pushes [OF C(1,3) only_acks_id net here reach _ _ _ max, of 0] row(1,4) l(7,10) by auto
  have "posts = [post_of_row row]" using v(2) row(1-3) by (simp add: l(10) wanted_def)
  then have "take (nat (rc_max_sync_posts (rm_config R))) posts = [post_of_row row]"
    using cfg by (cases "nat (rc_max_sync_posts (rm_config R))") (simp_all add: attempts_ok_def)
  then obtain ws where ws: "wss = [ws]" "ws \<noteq> []" "list_all (push_opens (rm_lib R) k shared (post_of_row row)) ws"
    using v(3) by (auto simp: batches_def list_all2_Cons1)
  have "step_task R (\<lambda>s. s) (snd (receive R (cks n, frame) s)) = v"
    by (simp add: l(1) step_one [OF l(2)] run_task_def v(1))
  then have "room_react R cks frame (n, s) = Inr ((Suc n, v), w # ws)"
    by (intro react_one [of R cks n frame s "SyncClient k 0"]) (simp_all add: l(1,5) v(4) ws(1))
  then show thesis using that l(3,4) ws(2,3) by blast
qed

section \<open>What the tool sends\<close>

text \<open>The login of a client, as the server reads it.\<close>

lemma login_frame_opens:
  assumes C: "crypto_laws (rm_lib R)" and dh: "dh_law (rm_lib R) (id_seed (rm_identity R)) seed shared" "length seed = 32"
      "length (id_seed (rm_identity R)) = 32"
    and room: "id_pub_key (rm_identity R) = lib_ed25519_pub (rm_lib R) (id_seed (rm_identity R))" "first_byte (id_pub_key (rm_identity R)) = Inr room0"
    and req: "0 \<le> t" "t < 2 ^ 32" "encodable password" "0 \<notin> set password" "classify (rm_config R) password = Some role"
  obtains frame where "login_frame (rm_lib R) shared room0 (lib_ed25519_pub (rm_lib R) seed) t password = Inr frame"
    "login_of R frame (lib_ed25519_pub (rm_lib R) seed) role shared"
proof -
  let ?k = "lib_ed25519_pub (rm_lib R) seed"
  obtain payload where l: "build_anon_login_payload (rm_lib R) shared (uint room0) ?k t 0 password = Inr payload"
    "try_decrypt_login (rm_lib R) payload (id_seed (rm_identity R)) = Inr (Some \<lparr> lg_client_pub_key = ?k,
      lg_timestamp = t, lg_sync_since = 0, lg_password = password \<rparr>)" "payload \<noteq> []" "uint (payload ! 0) = uint room0 mod 256"
    using login_request_opens [OF C dh(1,3,2) req(1,2) _ _ req(3,4), of 0 "uint room0"] by auto
  obtain frame where f: "encode_packet (make_packet FLOOD ANON_REQ [] payload 1) = Inr frame"
    "decode_packet frame = Inr (make_packet FLOOD ANON_REQ [] payload 1)"
    by (rule decode_made [of FLOOD ANON_REQ 1 "[]" payload]) simp_all
  have "uint room0 mod 256 = uint room0" using uint_lt2p [of room0] by simp
  then have "address (rm_identity R) = Inr (uint (payload ! 0))"
    using room(2) l(4) by (cases "id_pub_key (rm_identity R)") (auto simp: address_def path_hash_def first_byte_def)
  moreover have "id_shared_secret (rm_lib R) (rm_identity R) ?k = Inr shared"
    using shared_secrets_agree(1) [OF C dh(1,3,2)] by (simp add: id_shared_secret_def)
  ultimately have "login_of R frame ?k role shared" using f(2) l(2,3) req(5) by (simp add: login_of_def make_packet_def)
  then show thesis using that f(1) l(1) by (simp add: login_frame_def build_anon_login_packet_def)
qed

lemma dh_law_sym: "dh_law C a b s \<Longrightarrow> dh_law C b a s"
  by (auto simp: dh_law_def)

text \<open>The post of the first client, as the server reads it.\<close>

lemma post_frame_opens:
  assumes C: "crypto_laws (rm_lib R)" and dh: "dh_law (rm_lib R) (id_seed (rm_identity R)) seed shared" "length seed = 32"
      "length (id_seed (rm_identity R)) = 32"
    and room: "id_pub_key (rm_identity R) = lib_ed25519_pub (rm_lib R) (id_seed (rm_identity R))"
    and h: "path_hash (lib_ed25519_pub (rm_lib R) seed) = Inr h" and body: "encodable body" "0 \<notin> set body" and t: "0 \<le> t" "t < 2 ^ 32"
  obtains pkt frame ack p msg where
    "build_txt_msg_packet (rm_lib R) shared (id_pub_key (rm_identity R)) (lib_ed25519_pub (rm_lib R) seed) t body 0 DIRECT [] 1 = Inr pkt"
    "ack_hash_for (rm_lib R) t 0 body (lib_ed25519_pub (rm_lib R) seed) TXT_TYPE_PLAIN = Inr ack" "encode_packet pkt = Inr frame"
    "decode_packet frame = Inr p" "pkt_type p = TXT_MSG" "\<not> is_flood p" "addressed (rm_identity R) p = Inr (Some h)"
    "open_with (rm_lib R) (rm_identity R) try_decrypt_txt_msg (pkt_payload p) (lib_ed25519_pub (rm_lib R) seed) = Inr (Some (shared, msg))"
    "tm_txt_type msg = TXT_TYPE_PLAIN" "tm_timestamp msg = t" "tm_text msg = body"
    "txt_ack_hash (rm_lib R) msg (lib_ed25519_pub (rm_lib R) seed) = Inr ack"
proof -
  let ?k = "lib_ed25519_pub (rm_lib R) seed" and ?room = "id_pub_key (rm_identity R)"
  let ?me = "\<lparr> id_seed = seed, id_pub_key = ?k, id_name = [] \<rparr>"
  have k16: "16 \<le> length shared" using dh(1) by (simp add: dh_law_def)
  have "length ?room = 32" "length ?k = 32" using C dh(2,3) room by (simp_all add: crypto_laws_def)
  then have ne: "?room \<noteq> []" "?k \<noteq> []" by auto
  have t0: "t + int 0 div 4 < 2 ^ 32" using t(2) by simp
  obtain frame ack where sent: "send_txt (rm_lib R) shared ?room ?k body t (int 0) (DIRECT, [], 1) = Inr (frame, ack)"
    using send_txt_total [OF k16 ne body(1) t(1) t0, of DIRECT 1 "[]"] by fastforce
  then obtain pkt where built: "build_txt_msg_packet (rm_lib R) shared ?room ?k t body 0 DIRECT [] 1 = Inr pkt"
    "ack_hash_for (rm_lib R) t 0 body ?k TXT_TYPE_PLAIN = Inr ack" "encode_packet pkt = Inr frame"
    by (auto simp: send_txt_def)
  have me: "dh_law (rm_lib R) (id_seed ?me) (id_seed (rm_identity R)) shared" "length (id_seed ?me) = 32"
    "id_pub_key ?me = lib_ed25519_pub (rm_lib R) (id_seed ?me)" "path_hash (id_pub_key ?me) = Inr h"
    "send_txt (rm_lib R) shared ?room (id_pub_key ?me) body t (int 0) (DIRECT, [], 1) = Inr (frame, ack)"
    using dh_law_sym [OF dh(1)] dh(2) h sent by simp_all
  have direct: "DIRECT \<in> {DIRECT, FLOOD}" "path_ok 1 []" "length ([] :: bytes) \<le> 64" by (simp_all add: path_ok_def)
  obtain p msg where p: "decode_packet frame = Inr p" "pkt_type p = TXT_MSG" "pkt_route p = DIRECT" "addressed (rm_identity R) p = Inr (Some h)"
    "open_with (rm_lib R) (rm_identity R) try_decrypt_txt_msg (pkt_payload p) (id_pub_key ?me) = Inr (Some (shared, msg))"
    "tm_txt_type msg = TXT_TYPE_PLAIN" "tm_timestamp msg = t + int 0 div 4" "tm_text msg = body"
    "txt_ack_hash (rm_lib R) msg (id_pub_key ?me) = Inr ack"
    by (rule sent_txt_received [OF C me(1,2) dh(3) me(3) room body t(1) t0 direct me(4,5)])
  have "\<not> is_flood p" using p(3) by (simp add: is_flood_def)
  then show thesis using that [OF built p(1,2)] p(4-9) by simp
qed

text \<open>What the server answers to the three frames, and what the tool makes of it.\<close>

lemma room_exchange:
  assumes C: "crypto_laws (rm_lib R)" "x25519_law (rm_lib R)" and room: "id_pub_key (rm_identity R) \<noteq> []"
    and env: "\<forall>n. clock_ok (cks n)" "\<forall>k. rm_set_order R [k] = [k]" "attempts_ok R"
    and keys: "length a = 32" "length b = 32" "a \<noteq> b" "path_hash a = Inr h"
    and la: "login_of R login_a a role shared_a" and lb: "login_of R login_b b role shared_b"
    and p: "decode_packet frame = Inr p" "pkt_type p = TXT_MSG" "\<not> is_flood p" "addressed (rm_identity R) p = Inr (Some h)"
      "open_with (rm_lib R) (rm_identity R) try_decrypt_txt_msg (pkt_payload p) a = Inr (Some (shared_a, msg))"
      "tm_txt_type msg = TXT_TYPE_PLAIN" "tm_timestamp msg = t2" "tm_text msg = body" "txt_ack_hash (rm_lib R) msg a = Inr ack"
    and body: "encodable body" "0 \<notin> set body" "0 < t2" "t2 < 2 ^ 32"
  obtains w1 q1 x1 resp w2 q2 x2 w3 q3 w4 q4 ws x3 push where
    "room_react R cks login_a (0, initial_server empty_tables (\<lambda>n. False)) = Inr (x1, [w1])" "decode_packet w1 = Inr q1"
    "match_resp (rm_lib R) a shared_a q1 = Inr (Some resp)" "lr_status resp = RESP_SERVER_LOGIN_OK"
    "room_react R cks frame x1 = Inr (x2, [w2])" "decode_packet w2 = Inr q2" "match_ack (rm_lib R) a shared_a ack q2 = Inr (Some ())"
    "room_react R cks login_b x2 = Inr (x3, w3 # w4 # ws)" "decode_packet w3 = Inr q3" "match_push (rm_lib R) b shared_b q3 = Inr None"
    "decode_packet w4 = Inr q4" "match_push (rm_lib R) b shared_b q4 = Inr (Some push)" "rp_text push = body"
proof -
  let ?C = "rm_lib R" and ?s0 = "initial_server empty_tables (\<lambda>n. False)"
  obtain a0 b0 where a0: "first_byte a = Inr a0" "take 1 a = [a0]" and b0: "first_byte b = Inr b0" "take 1 b = [b0]"
    using keys(1,2) by (cases a; cases b) (auto simp: first_byte_def)
  have calm: "calm ?s0" using servingI [OF serving_initial [of empty_tables "\<lambda>n. False"]] by (simp add: calm_def initial_server_def)
  have cks: "clock_ok (cks n)" for n using env(1) by simp
  have s0: "map_of (sv_sessions ?s0) a = None" "tb_posts (sv_store ?s0) = []" "sv_sessions ?s0 = []" "tb_seq (sv_store ?s0) = 0"
    "sv_recent_messages ?s0 = (\<lambda>_. None)" by (simp_all add: initial_server_def empty_tables_def)
  obtain w1 q1 ses1 s1 where r1: "room_react R cks login_a (0, ?s0) = Inr ((Suc 0, s1), [w1])" "calm s1"
    "decode_packet w1 = Inr q1" "pkt_type q1 = RESPONSE" "sent_to a q1"
    "try_decrypt_login_response ?C (pkt_payload q1) shared_a = Inr (Some \<lparr> lr_server_ts = ck_time (cks 0),
      lr_status = RESP_SERVER_LOGIN_OK, lr_is_admin = (role = Admin), lr_permissions = role_permissions role \<rparr>)"
    "sv_sessions s1 = sv_sessions ?s0 @ [(a, ses1)]" "ss_pub_key ses1 = a" "tb_posts (sv_store s1) = []"
    "tb_seq (sv_store s1) = tb_seq (sv_store ?s0)" "sv_recent_messages s1 = sv_recent_messages ?s0"
    by (rule react_login [OF C calm cks la s0(1,2)])
  have "sv_sessions s1 = [(a, ses1)]" "rm_set_order R [a] = [a]" "tb_seq (sv_store s1) + 1 < 2 ^ 63" "sv_recent_messages s1 = (\<lambda>_. None)"
    using r1(7,10,11) s0 env(2) by simp_all
  note post = react_post [OF C room r1(2) this(1) r1(8) this(2) cks r1(9) this(3,4) p(1-4) keys(4) p(5,6,9), unfolded p(7,8)]
  obtain w2 q2 s2 ses2 row where r2: "room_react R cks frame (Suc 0, s1) = Inr ((Suc (Suc 0), s2), [w2])" "calm s2"
    "decode_packet w2 = Inr q2" "pkt_type q2 = ACK" "parse_ack_payload (pkt_payload q2) = Some ack"
    "sv_sessions s2 = [(a, ses2)]" "tb_posts (sv_store s2) = [row]" "row_author_pubkey row = bytes_hex a"
    "row_ts row = t2" "row_body row = body"
    by (rule post)
  have other: "map_of (sv_sessions s2) b = None" "row_author_pubkey row \<noteq> bytes_hex b"
    using keys(3) r2(6,8) bytes_hex_inj [of a b] by auto
  have push: "pushable (post_of_row row)" using body keys(1) by (simp add: pushable_def r2(8-10))
  have "0 < row_ts row" using body(3) r2(9) by simp
  note second = react_second [OF C room r2(2) cks lb other(1) r2(7) this other(2) push env(3)]
  obtain w3 q3 s3 ws where r3: "room_react R cks login_b (Suc (Suc 0), s2) = Inr ((Suc (Suc (Suc 0)), s3), w3 # ws)"
    "decode_packet w3 = Inr q3" "pkt_type q3 = RESPONSE" "ws \<noteq> []"
    "list_all (push_opens ?C b shared_b (post_of_row row)) ws" by (rule second)
  obtain w4 ws' where ws: "ws = w4 # ws'" using r3(4) by (cases ws) simp_all
  then have "push_opens ?C b shared_b (post_of_row row) w4" using r3(5) by simp
  then obtain q4 m4 where r4: "decode_packet w4 = Inr q4" "pkt_type q4 = TXT_MSG" "sent_to b q4"
    "try_decrypt_room_push ?C (pkt_payload q4) shared_b = Inr (Some m4)" "rp_text m4 = post_body (post_of_row row)"
    unfolding push_opens_def by blast
  have m1: "match_resp ?C a shared_a q1 = Inr (Some \<lparr> lr_server_ts = ck_time (cks 0),
      lr_status = RESP_SERVER_LOGIN_OK, lr_is_admin = (role = Admin), lr_permissions = role_permissions role \<rparr>)"
    using r1(4-6) a0 by (simp add: match_resp_def sent_to_def)
  have m2: "match_ack ?C a shared_a ack q2 = Inr (Some ())" using r2(4,5) by (simp add: match_ack_def)
  have m3: "match_push ?C b shared_b q3 = Inr None" using r3(3) by (simp add: match_push_def)
  have m4: "match_push ?C b shared_b q4 = Inr (Some m4)" using r4(2-4) b0 by (simp add: match_push_def sent_to_def)
  show thesis
    by (rule that [OF r1(1,3) m1 _ r2(1,3) m2 _ r3(2) m3 r4(1) m4]) (use r3(1) ws r4(5) r2(10) in simp_all)
qed

text \<open>A run of the tool through its three phases.\<close>

lemma room_phases_pass:
  assumes "first_byte room_pub = Inr room0" "calc_shared_secret C a_rand room_pub = Inr shared_a" "calc_shared_secret C b_rand room_pub = Inr shared_b"
    and "login_frame C shared_a room0 (lib_ed25519_pub C a_rand) t1 password = Inr login_a"
    and "login_frame C shared_b room0 (lib_ed25519_pub C b_rand) t3 password = Inr login_b"
    and "build_txt_msg_packet C shared_a room_pub (lib_ed25519_pub C a_rand) t2 body 0 DIRECT [] 1 = Inr pkt"
    and "ack_hash_for C t2 0 body (lib_ed25519_pub C a_rand) TXT_TYPE_PLAIN = Inr ack" "encode_packet pkt = Inr frame"
    and r1: "react login_a x0 = Inr (x1, [w1])" "decode_packet w1 = Inr q1"
      "match_resp C (lib_ed25519_pub C a_rand) shared_a q1 = Inr (Some resp)" "lr_status resp = RESP_SERVER_LOGIN_OK"
    and r2: "react frame x1 = Inr (x2, [w2])" "decode_packet w2 = Inr q2" "match_ack C (lib_ed25519_pub C a_rand) shared_a ack q2 = Inr (Some ())"
    and r3: "react login_b x2 = Inr (x3, w3 # w4 # ws)" "decode_packet w3 = Inr q3" "match_push C (lib_ed25519_pub C b_rand) shared_b q3 = Inr None"
      "decode_packet w4 = Inr q4" "match_push C (lib_ed25519_pub C b_rand) shared_b q4 = Inr (Some push)" "rp_text push = body"
  shows "fst (room_phases C react room_pub a_rand b_rand t1 t2 t3 password body \<lparr> bus_node = x0, bus_unread = [] \<rparr>) = Inr 0"
proof -
  let ?bus = "\<lambda>x ws. \<lparr> bus_node = x, bus_unread = ws \<rparr>"
  have p: "bus_publish react login_a (?bus x0 []) = (Inr (), ?bus x1 [w1])" "bus_publish react frame (?bus x1 []) = (Inr (), ?bus x2 [w2])"
    "bus_publish react login_b (?bus x2 []) = (Inr (), ?bus x3 (w3 # w4 # ws))"
    by (simp_all add: bus_publish_def r1(1) r2(1) r3(1))
  have w: "wait_for (match_resp C (lib_ed25519_pub C a_rand) shared_a) (?bus x1 [w1]) = (Inr resp, ?bus x1 [])"
    "wait_for (match_ack C (lib_ed25519_pub C a_rand) shared_a ack) (?bus x2 [w2]) = (Inr (), ?bus x2 [])"
    "wait_for (match_push C (lib_ed25519_pub C b_rand) shared_b) (?bus x3 (w3 # w4 # ws)) = (Inr push, ?bus x3 ws)"
    by (simp_all add: wait_for_def r1(2,3) r2(2,3) r3(2-5))
  show ?thesis unfolding room_phases_def generate_keypair_def
    by (simp add: io_defs assms(1-8) p w r1(4) r3(6))
qed

section \<open>Properties\<close>

text \<open>
  Property (C5): the loopback test of the room server passes against the modelled room server. On a fresh store, with the guest or admin password
  of the configuration, two clients with different keys, and any text that has an encoding and no NUL, the test goes through its three phases and
  exits with 0: the first client is let in, its post is stored and acknowledged, and the second client, once it has
  logged in, is pushed exactly this text.
\<close>

theorem room_loopback_passes:
  assumes "crypto_laws (rm_lib R)" "x25519_law (rm_lib R)" "length (id_seed (rm_identity R)) = 32"
    and "id_pub_key (rm_identity R) = lib_ed25519_pub (rm_lib R) (id_seed (rm_identity R))"
    and "dh_law (rm_lib R) (id_seed (rm_identity R)) a_rand shared_a" "dh_law (rm_lib R) (id_seed (rm_identity R)) b_rand shared_b"
    and "length a_rand = 32" "length b_rand = 32" "lib_ed25519_pub (rm_lib R) a_rand \<noteq> lib_ed25519_pub (rm_lib R) b_rand"
    and "get_pub_key loads retained = Inr (id_pub_key (rm_identity R))" "classify (rm_config R) password = Some role"
    and "encodable password" "0 \<notin> set password" "encodable body" "0 \<notin> set body"
    and "0 \<le> t1" "t1 < 2 ^ 32" "0 < t2" "t2 < 2 ^ 32" "0 \<le> t3" "t3 < 2 ^ 32" "\<forall>n. clock_ok (cks n)"
    and "\<forall>k. rm_set_order R [k] = [k]" "attempts_ok R"
  shows "room_loopback (rm_lib R) loads (room_react R cks) retained a_rand b_rand t1 t2 t3 password body
    \<lparr> bus_node = (0, initial_server empty_tables (\<lambda>n. False)), bus_unread = [] \<rparr> = Inr 0"
proof -
  let ?C = "rm_lib R" and ?room = "id_pub_key (rm_identity R)"
  define a where "a = lib_ed25519_pub ?C a_rand"
  define b where "b = lib_ed25519_pub ?C b_rand"
  have len: "length ?room = 32" "length a = 32" "length b = 32" using assms(1,3,4,7,8) by (simp_all add: crypto_laws_def a_def b_def)
  obtain room0 d where room0: "first_byte ?room = Inr room0" "path_hash ?room = Inr d"
    using len(1) by (cases ?room) (auto simp: first_byte_def path_hash_def)
  obtain h where h: "path_hash a = Inr h" using len(2) by (cases a) (auto simp: path_hash_def)
  have ab: "a \<noteq> b" using assms(9) by (simp add: a_def b_def)
  have secrets: "calc_shared_secret ?C a_rand ?room = Inr shared_a" "calc_shared_secret ?C b_rand ?room = Inr shared_b"
    using shared_secrets_agree(2) [OF assms(1,5,3,7)] shared_secrets_agree(2) [OF assms(1,6,3,8)] by (simp_all add: assms(4))
  obtain login_a where la: "login_frame ?C shared_a room0 a t1 password = Inr login_a" "login_of R login_a a role shared_a"
    unfolding a_def by (rule login_frame_opens [OF assms(1,5,7,3,4) room0(1) assms(16,17,12,13,11)])
  obtain login_b where lb: "login_frame ?C shared_b room0 b t3 password = Inr login_b" "login_of R login_b b role shared_b"
    unfolding b_def by (rule login_frame_opens [OF assms(1,6,8,3,4) room0(1) assms(20,21,12,13,11)])
  have "?room \<noteq> []" using len(1) by auto
  obtain pkt frame ack p msg where built: "build_txt_msg_packet ?C shared_a ?room a t2 body 0 DIRECT [] 1 = Inr pkt"
    "ack_hash_for ?C t2 0 body a TXT_TYPE_PLAIN = Inr ack" "encode_packet pkt = Inr frame"
    and p: "decode_packet frame = Inr p" "pkt_type p = TXT_MSG" "\<not> is_flood p" "addressed (rm_identity R) p = Inr (Some h)"
    "open_with ?C (rm_identity R) try_decrypt_txt_msg (pkt_payload p) a = Inr (Some (shared_a, msg))"
    "tm_txt_type msg = TXT_TYPE_PLAIN" "tm_timestamp msg = t2" "tm_text msg = body" "txt_ack_hash ?C msg a = Inr ack"
    unfolding a_def
    by (rule post_frame_opens [OF assms(1,5,7,3,4) h [unfolded a_def] assms(14,15) less_imp_le [OF assms(18)] assms(19)])
  have "fst (room_phases ?C (room_react R cks) ?room a_rand b_rand t1 t2 t3 password body
      \<lparr> bus_node = (0, initial_server empty_tables (\<lambda>n. False)), bus_unread = [] \<rparr>) = Inr 0"
    by (rule room_exchange [OF assms(1,2) \<open>?room \<noteq> []\<close> assms(22-24) len(2,3) ab h la(2) lb(2) p assms(14,15,18,19)])
      (rule room_phases_pass [OF room0(1) secrets la(1) [unfolded a_def] lb(1) [unfolded b_def] built [unfolded a_def]];
        simp flip: a_def b_def)
  then show ?thesis using assms(10) by (simp add: room_loopback_def io_defs exit_code_def)
qed

lemma room_loopback_passes_witness:
  "room_loopback demo_lib (\<lambda>_. Inr (JObj [(ustr ''pub_key'', JStr (bytes_hex (replicate 32 2)))]))
     (room_react demo_room (\<lambda>n. demo_clock (of_nat n))) (Some []) demo_key (replicate 32 9) 1700000000 1700000000 1700000001 [103] [104]
     \<lparr> bus_node = (0, initial_server empty_tables (\<lambda>n. False)), bus_unread = [] \<rparr> = Inr 0"
proof -
  have pub: "id_pub_key (rm_identity demo_room) = replicate 32 2" by (simp add: demo_room_def numeral_eq_Suc)
  have key: "get_pub_key (\<lambda>_. Inr (JObj [(ustr ''pub_key'', JStr (bytes_hex (replicate 32 2)))])) (Some []) = Inr (replicate 32 2)"
    by (simp add: get_pub_key_def json_index_def del: replicate.simps)
  have ident: "lib_ed25519_pub demo_lib x = x" for x by (simp add: demo_lib_def)
  have dh: "dh_law demo_lib (replicate 32 2) demo_key (map2 (+) (replicate 32 2) demo_key)"
    "dh_law demo_lib (replicate 32 2) (replicate 32 9) (map2 (+) (replicate 32 2) (replicate 32 9))"
    by (rule demo_lib_dh; simp add: demo_secrets(2))+
  have ne: "demo_key \<noteq> replicate 32 9"
  proof
    assume "demo_key = replicate 32 9"
    then have "hd demo_key = hd (replicate 32 (9 :: byte))" by simp
    then show False by (simp add: demo_key_def)
  qed
  have cfg: "classify (rm_config demo_room) [103] = Some Guest" "attempts_ok demo_room" "rm_set_order demo_room [k] = [k]" for k
    by (simp_all add: demo_room_def classify_def attempts_ok_def)
  have enc: "encodable [103]" "encodable [104]" by (simp_all add: encodable_def surrogate_def)
  have ck: "clock_ok (demo_clock x)" for x by (simp add: clock_ok_def)
  show ?thesis
    using room_loopback_passes [of demo_room demo_key _ "replicate 32 9" _
        "\<lambda>_. Inr (JObj [(ustr ''pub_key'', JStr (bytes_hex (replicate 32 2)))])" "Some []" "[103]" Guest "[104]"
        1700000000 1700000000 1700000001 "\<lambda>n. demo_clock (of_nat n)"]
      demo_lib_laws demo_lib_x25519 demo_secrets(2,6) pub key ident dh ne cfg enc ck
    by simp
qed

end
