(* ===== verification/EchoLoopback.thy ===== *)
theory EchoLoopback
  imports Loopback EchoServer
begin

unbundle bit_operations_syntax

text \<open>
  The test of the echo server run against the modelled echo server: flooded packets are never confirmed with an
  ACK packet, which is the only confirmation the test looks for.
\<close>

section \<open>What floods are answered with\<close>

text \<open>A frame that is not an ACK packet, and what keeps it that everything sent since \<open>pre\<close> is of that kind.\<close>

definition no_ack :: "bytes \<Rightarrow> bool" where
  "no_ack w \<longleftrightarrow> (\<forall>q. decode_packet w = Inr q \<longrightarrow> pkt_type q \<noteq> ACK)"

definition ackless :: "bytes list \<Rightarrow> echo_server \<Rightarrow> bool" where
  "ackless pre s \<longleftrightarrow> (\<exists>new. es_sent s = pre @ new \<and> list_all no_ack new)"

lemma encoded_type:
  assumes "encode_packet q = Inr w" "decode_packet w = Inr q'"
  shows "pkt_type q' = as_payload (payload_val (pkt_type q) mod 16)"
proof -
  let ?h = "encode_header (route_val (pkt_route q)) (payload_val (pkt_type q)) (ver_val (pkt_ver q))"
  obtain rest where w: "w = word_of_int ?h # rest" using assms(1) by (auto simp: encode_packet_def byte_of_def split: if_splits)
  have "uint (w ! 0) = ?h" using encode_header_bounds by (simp add: w uint_of_int_byte)
  then show ?thesis using assms(2)
    by (auto simp: decode_packet_def decode_encode_header split: if_splits)
qed

lemma no_ack_made:
  assumes "encode_packet q = Inr w" "pkt_type q \<in> {PATH, TXT_MSG, ADVERT}"
  shows "no_ack w"
  using encoded_type [OF assms(1)] assms(2) by (auto simp: no_ack_def as_payload_def as_enum_def)

lemma publish_ackless:
  assumes "ackless pre s" "no_ack w"
  shows "wp (echo_publish w) (\<lambda>_. ackless pre) (ackless pre) s"
proof -
  obtain new where "es_sent s = pre @ new" "list_all no_ack new" using assms(1) by (auto simp: ackless_def)
  then have "es_sent s @ [w] = pre @ (new @ [w])" "list_all no_ack (new @ [w])" using assms(2) by simp_all
  then show ?thesis using assms(1) unfolding wp_def echo_publish_def by (auto simp: ackless_def)
qed

lemma publish_lift_ackless:
  assumes "ackless pre s" "\<And>w. r = Inr w \<Longrightarrow> no_ack w"
  shows "wp (bindIO (liftR r) echo_publish) (\<lambda>_. ackless pre) (ackless pre) s"
  using assms publish_ackless [OF assms(1)] by (cases r) (simp_all add: wp)

lemma path_no_ack:
  "build_path_packet C r k d pub path hs et extra rt rp rhs = Inr q \<Longrightarrow> encode_packet q = Inr w \<Longrightarrow> no_ack w"
  by (rule no_ack_made) (auto simp: build_path_packet_def make_packet_def)

lemma txt_no_ack: "send_txt C k dest src body ts i a = Inr (wire, ack) \<Longrightarrow> no_ack wire"
  by (auto simp: send_txt_def build_txt_msg_packet_def make_packet_def Let_def intro: no_ack_made split: prod.splits)

lemma advert_ackless: "ackless pre s \<Longrightarrow> wp (echo_handle_advert N p) (\<lambda>_. ackless pre) (ackless pre) s"
  by (auto simp: echo_handle_advert_def wp add_contact_def save_contact_cache_def put_contact_def ackless_def
      split: sum.splits option.splits)

lemma confirm_ackless:
  assumes s: "ackless pre s" and p: "is_flood p"
  shows "wp (send_txt_ack N k d ack p) (\<lambda>_. ackless pre) (ackless pre) s"
proof -
  have "wp (bindIO (echo_publish w) (\<lambda>_. bindIO (liftR (hash_count p)) (\<lambda>_. returnIO ()))) (\<lambda>_. ackless pre) (ackless pre) s"
    if "no_ack w" for w
    unfolding wp(5) [of "echo_publish w"] by (rule wp_mono [OF publish_ackless [OF s that]]) (simp_all add: wp split: sum.splits)
  then show ?thesis using s path_no_ack
    unfolding send_txt_ack_def if_P [OF p] wp(5) [of "liftR _"] wp(2) by (fastforce split: sum.splits)
qed

lemma accept_ackless:
  assumes s: "ackless pre s" and p: "is_flood p"
  shows "wp (accept_txt N ck p k shared msg) (\<lambda>_. ackless pre) (ackless pre) s"
proof -
  have path: "wp (remember_path h a p) (\<lambda>_. ackless pre) (ackless pre) u" if "ackless pre u" for h a u
    using that by (auto simp: remember_path_def wp ackless_def split: sum.splits option.splits)
  have message: "wp (echo_remember_message c now h a) (\<lambda>_. ackless pre) (ackless pre) u" if "ackless pre u" for c now h a u
    using that by (simp add: wp_snd echo_remember_message_def ackless_def Let_def)
  have rest: "wp (bindIO (send_txt_ack N shared (tm_src_hash msg) ack p) (\<lambda>_. if \<not> new then returnIO ()
      else modifyIO (\<lambda>s. s\<lparr>es_tasks := es_tasks s @ [t]\<rparr>))) (\<lambda>_. ackless pre) (ackless pre) u" if "ackless pre u" for ack new t u
    unfolding wp(5) by (rule wp_mono [OF confirm_ackless [OF that p]]) (simp_all add: wp ackless_def)
  show ?thesis unfolding accept_txt_def wp(5) [of "liftR _"] wp(5) [of "remember_path _ _ _"] wp(5) [of "echo_remember_message _ _ _ _"] wp(2)
    using s by (auto split: sum.splits intro!: wp_mono [OF path] wp_mono [OF message] rest)
qed

lemma dispatch_ackless:
  assumes s: "ackless pre s" and p: "is_flood p"
  shows "wp (echo_dispatch N ck p) (\<lambda>_. ackless pre) (ackless pre) s"
proof -
  have post: "wp (handle_txt_msg N ck p) (\<lambda>_. ackless pre) (ackless pre) s"
    using s accept_ackless [OF s p] by (auto simp: handle_txt_msg_def candidates_def wp split: sum.splits option.splits)
  have "wp (answer_req N p k req) (\<lambda>_. ackless pre) (ackless pre) s" "wp (answer_path N ck p k m) (\<lambda>_. ackless pre) (ackless pre) s" for k req m
    unfolding answer_req_def answer_path_def wp(5) [of "liftR (hash_count p)"] using s
    by (cases "hash_count p"; auto simp: wp(1,2) wp_if intro!: publish_lift_ackless dest: path_no_ack)+
  then have "wp (handle_req_msg N p) (\<lambda>_. ackless pre) (ackless pre) s" "wp (handle_path_msg N ck p) (\<lambda>_. ackless pre) (ackless pre) s"
    using s by (auto simp: handle_req_msg_def handle_path_msg_def candidates_def wp split: sum.splits option.splits)
  moreover have "wp (handle_grp_txt N p) (\<lambda>_. ackless pre) (ackless pre) s" using s
    by (auto simp: handle_grp_txt_def report_channel_def Let_def wp ackless_def split: sum.splits option.splits)
  moreover have "wp (echo_handle_ack p) (\<lambda>_. ackless pre) (ackless pre) s" using s
    by (cases "parse_ack_payload (pkt_payload p)") (simp_all add: echo_handle_ack_def wp wp_def [of "echo_resolve _"] echo_resolve_def ackless_def)
  ultimately show ?thesis using s advert_ackless [OF s] post
    by (cases "pkt_type p") (simp_all add: echo_dispatch_def wp)
qed

lemma receive_ackless:
  assumes "ackless pre s" "\<And>p. decode_packet frame = Inr p \<Longrightarrow> is_flood p"
  shows "ackless pre (snd (echo_receive N (ck, frame) s))"
proof (cases "decode_packet frame")
  case (Inl e)
  then show ?thesis using assms(1) by (auto simp: echo_receive_def io_defs)
next
  case (Inr p)
  then show ?thesis using dispatch_ackless [OF assms(1) assms(2) [OF Inr]] by (simp add: echo_receive_dispatch [OF Inr] wp_snd)
qed

lemma echo_ackless:
  assumes s: "ackless pre s"
  shows "ackless pre (snd (deliver_echo N ck (\<lambda>s. s) (\<lambda>s. s) t s))"
proof -
  have wait: "wp (echo_wait_for_ack (\<lambda>s. s) ack timeout) (\<lambda>_. ackless pre) (ackless pre) u" if "ackless pre u" for ack timeout u
    using that by (simp add: wp_def echo_wait_for_ack_def wait_during_def io_defs echo_wait_begin_def echo_wait_end_def ackless_def)
  have deliver: "wp (deliver_txt_msg_with_ack C echo_publish (echo_wait_for_ack (\<lambda>s. s)) k dest src body ts path hs da fa timeout)
      (\<lambda>_. ackless pre) (ackless pre) s" for C k dest src body ts path hs da fa timeout
  proof -
    have "wp (deliver_loop (send_txt C k dest src body ts) echo_publish (echo_wait_for_ack (\<lambda>s. s)) timeout 0
        (attempt_plan path hs da fa) None) (\<lambda>_. ackless pre) (ackless pre) s"
      by (rule wp_deliver_loop [where good = no_ack and I = "ackless pre", OF s]) (auto intro: txt_no_ack publish_ackless wait)
    then show ?thesis using s by (auto simp: wp_def deliver_txt_msg_with_ack_def Let_def split: prod.splits)
  qed
  have "wp (deliver_echo N ck (\<lambda>s. s) (\<lambda>s. s) t) (\<lambda>_. ackless pre) (ackless pre) s"
    using s deliver by (auto simp: deliver_echo_def Let_def wp split: sum.splits)
  then show ?thesis by (simp add: wp_snd)
qed

section \<open>The test against the server\<close>

text \<open>
  The echo server behind the broker: it handles the frame and delivers the echoes it started, at the time given by
  the number of the frame; the tool never answers them.
\<close>

definition echo_react :: "echo_node \<Rightarrow> (nat \<Rightarrow> clock) \<Rightarrow> (nat \<times> echo_server) reaction" where
  "echo_react N cks frame x =
     (case x of (n, s) \<Rightarrow>
       let s1 = run_event N (Frame (cks n) frame) s;
           s2 = run_events N (map (\<lambda>t. Echo (cks n) [] []) (es_tasks s1)) s1 in
       Inr ((Suc n, s2), drop (length (es_sent s)) (es_sent s2)))"

lemma echoes_ackless: "ackless pre s \<Longrightarrow> ackless pre (run_events N (map (\<lambda>t. Echo ck [] []) ts) s)"
proof (induction ts arbitrary: s)
  case (Cons t ts)
  have id: "run_events N [] = (\<lambda>s. s)" by (rule ext) simp
  have "ackless pre (run_event N (Echo ck [] []) s)"
  proof (cases "es_tasks s")
    case (Cons u us)
    have "ackless pre (s\<lparr>es_tasks := us\<rparr>)" using Cons.prems by (simp add: ackless_def)
    then show ?thesis using Cons by (simp add: id echo_ackless)
  qed (use Cons.prems in simp)
  then show ?case using Cons.IH by simp
qed simp

lemma react_ackless:
  assumes "\<And>p. decode_packet frame = Inr p \<Longrightarrow> is_flood p"
  obtains x frames where "echo_react N cks frame b = Inr (x, frames)" "list_all no_ack frames"
proof -
  obtain n s where b: "b = (n, s)" by (cases b)
  let ?s1 = "snd (echo_receive N (cks n, frame) s)"
  let ?s2 = "run_events N (map (\<lambda>t. Echo (cks n) [] []) (es_tasks ?s1)) ?s1"
  have "ackless (es_sent s) s" by (simp add: ackless_def)
  then have "ackless (es_sent s) ?s2" by (intro echoes_ackless receive_ackless assms)
  then have "list_all no_ack (drop (length (es_sent s)) (es_sent ?s2))" by (auto simp: ackless_def)
  then show thesis by (intro that [of "(Suc n, ?s2)"]) (simp_all add: echo_react_def b Let_def)
qed

text \<open>Without the ACK the loop reads to the end.\<close>

lemma try_decrypt_txt_msg_total:
  assumes "16 \<le> length k"
  shows "\<exists>r. try_decrypt_txt_msg C payload k = Inr r"
proof -
  obtain r where "mac_then_decrypt C k (drop 2 payload) = Inr r" using mac_then_decrypt_total [OF assms] by blast
  then show ?thesis by (auto simp: try_decrypt_txt_msg_def msg_consts Let_def split: option.splits)
qed

lemma collect_waits:
  assumes "16 \<le> length k" "list_all no_ack frames"
  shows "collect C k test0 expected False got_echo frames = (Inl TimeoutError, [])"
  using assms(2)
proof (induction frames arbitrary: got_echo)
  case (Cons w frames)
  show ?case
  proof (cases "decode_packet w")
    case (Inl e)
    then show ?thesis using Cons decode_packet_Inl [OF Inl] by (simp add: caught_by_ValueError_def)
  next
    case (Inr q)
    obtain r where "try_decrypt_txt_msg C (pkt_payload q) k = Inr r" using try_decrypt_txt_msg_total [OF assms(1)] by blast
    then show ?thesis using Cons Inr by (auto simp: no_ack_def)
  qed
qed simp

lemma flood_frame: "encode_packet (make_packet FLOOD t [] payload 1) = Inr w \<Longrightarrow>
    t \<in> {ACK, PATH, RESPONSE, TXT_MSG, ANON_REQ, ADVERT, REQ} \<Longrightarrow> decode_packet w = Inr p \<Longrightarrow> is_flood p"
  using pkt_codec.dec_enc [OF wf_made_packet [of FLOOD t 1 "[]" payload]]
  by (auto simp: is_flood_def make_packet_def)

section \<open>Properties\<close>

text \<open>
  Property (C35): the loopback test of the echo server cannot pass. Whatever state the modelled echo server is in, the test
  run against it ends with the exit code of a timeout: its message is flooded, the server confirms floods with a returned path that
  bundles the ACK, and the test accepts only an ACK packet.
\<close>

theorem echo_loopback_times_out:
  assumes "crypto_laws (en_lib N)" "x25519_law (en_lib N)" "length rand = 32" "encodable body"
    and "get_pub_key loads retained = Inr pub" "calc_shared_secret (en_lib N) rand pub = Inr k"
    and "0 \<le> t0" "t0 < 2 ^ 32" "0 \<le> t1" "t1 < 2 ^ 32" "0 \<le> t2" "t2 < 2 ^ 32"
  shows "echo_loopback (en_lib N) loads (echo_react N cks) retained rand t0 t1 t2 body \<lparr> bus_node = (n, s), bus_unread = [] \<rparr> = Inr 2"
proof -
  let ?C = "en_lib N" and ?me = "lib_ed25519_pub (en_lib N) rand"
  have k: "16 \<le> length k" using shared_secret_length [OF assms(2,6)] by simp
  have "length pub = 32" using assms(6)
    by (auto simp: calc_shared_secret_def ed25519_pub_to_x25519_pub_def crypto_consts split: if_splits)
  then obtain e0 d where e: "first_byte pub = Inr e0" "path_hash pub = Inr d" by (cases pub) (auto simp: first_byte_def path_hash_def)
  have "length ?me = 32" using assms(1,3) by (simp add: crypto_laws_def)
  then obtain m0 h where m: "first_byte ?me = Inr m0" "path_hash ?me = Inr h" by (cases ?me) (auto simp: first_byte_def path_hash_def)
  obtain a0 ack where acks: "ack_hash_for ?C t0 0 body ?me TXT_TYPE_PLAIN = Inr a0" "ack_hash_for ?C t2 0 body ?me TXT_TYPE_PLAIN = Inr ack"
    using ack_hash_for_total assms(4,7,8,11,12) by (fastforce simp: TXT_TYPE_PLAIN_def)
  have "valid_advert_data \<lparr> ad_type = advert_type_val CHAT, ad_name = ustr ''loopback-app'', ad_lat = None, ad_lon = None,
      ad_feat1 = None, ad_feat2 = None \<rparr>"
    by (simp add: valid_advert_data_def encodable_def surrogate_def ustr_def)
  then obtain payload where a: "encode_advert ?C rand ?me t1 \<lparr> ad_type = advert_type_val CHAT, ad_name = ustr ''loopback-app'',
      ad_lat = None, ad_lon = None, ad_feat1 = None, ad_feat2 = None \<rparr> = Inr payload"
    using encoded_advert_opens [OF assms(1,3,9,10)] by blast
  obtain advert where advert: "encode_packet (make_packet FLOOD ADVERT [] payload 1) = Inr advert"
    by (rule decode_made [of FLOOD ADVERT 1 "[]" payload]) simp_all
  obtain body_payload where b: "build_txt_msg_payload ?C k d h t2 0 body = Inr body_payload"
    using build_txt_msg_payload_total [OF k assms(11,12,4)] by blast
  obtain frame where frame: "encode_packet (make_packet FLOOD TXT_MSG [] body_payload 1) = Inr frame"
    by (rule decode_made [of FLOOD TXT_MSG 1 "[]" body_payload]) simp_all
  obtain x1 f1 where r1: "echo_react N cks advert (n, s) = Inr (x1, f1)" "list_all no_ack f1"
    by (rule react_ackless [OF flood_frame [OF advert]]) simp_all
  obtain x2 f2 where r2: "echo_react N cks frame x1 = Inr (x2, f2)" "list_all no_ack f2"
    by (rule react_ackless [OF flood_frame [OF frame]]) simp_all
  have c: "collect ?C k m0 ack False False (f1 @ f2) = (Inl TimeoutError, [])" using r1(2) r2(2) by (intro collect_waits k) simp
  show ?thesis
    using assms(5,6) e m acks a advert b frame r1(1) r2(1) c
    by (simp add: echo_loopback_def echo_phases_def generate_keypair_def io_defs advert_frame_def build_txt_msg_packet_def
        bus_publish_def collecting_def exit_code_def)
qed

lemma echo_loopback_times_out_witness:
  "echo_loopback demo_lib (\<lambda>_. Inr (JObj [(ustr ''pub_key'', JStr (bytes_hex (replicate 32 2)))]))
     (echo_react demo_node (\<lambda>n. demo_clock 0)) (Some []) demo_key 1700000000 1700000000 1700000001 [104]
     \<lparr> bus_node = (0, demo_echo), bus_unread = [] \<rparr> = Inr 2"
proof -
  have key: "get_pub_key (\<lambda>_. Inr (JObj [(ustr ''pub_key'', JStr (bytes_hex (replicate 32 2)))])) (Some []) = Inr (replicate 32 2)"
    by (simp add: get_pub_key_def json_index_def del: replicate.simps)
  have "calc_shared_secret demo_lib demo_key (lib_ed25519_pub demo_lib (replicate 32 2)) = Inr demo_secret"
    using shared_secrets_agree(2) [OF demo_lib_laws demo_lib_dh [of "replicate 32 2" demo_key]] demo_secrets(2) by simp
  then have secret: "calc_shared_secret demo_lib demo_key (replicate 32 2) = Inr demo_secret" by (simp add: demo_lib_def)
  show ?thesis
    using echo_loopback_times_out [of demo_node demo_key "[104]" _ "Some []" "replicate 32 2" demo_secret 1700000000 1700000000 1700000001
        "\<lambda>n. demo_clock 0" 0 demo_echo, OF _ _ _ _ key] demo_lib_laws demo_lib_x25519 demo_secrets(2) secret
    by (simp add: encodable_def surrogate_def)
qed

end
