(* ===== verification/Settings.thy ===== *)
theory Settings
  imports MqttConf PyFloat RoomTasks Gateway EchoConfig EchoModel Forwarder
begin

text \<open>
  The settings of the four services, read from their environment (\<open>config.py\<close> of each package), and what the room server admits
  under them. The environment is a map; numbers are read from ASCII text.
\<close>

section \<open>Numbers and paths\<close>

text \<open>
  What \<open>float\<close> makes of a text: a sign, then \<open>inf\<close>, \<open>infinity\<close> or \<open>nan\<close> in any case, or digits with at most one
  point and an exponent, single underscores between digits; the nearest double of the value.
\<close>

datatype py_float = Finite rat | Infinite bool | NotANumber

definition digit_part :: "ustring \<Rightarrow> nat option" where
  "digit_part s = (if s = [] \<or> hd s = 95 then None else digits_value 0 s)"

definition float_exponent :: "ustring \<Rightarrow> int option" where
  "float_exponent x =
     (let digits = (if x \<noteq> [] \<and> hd x \<in> {43, 45} then tl x else x) in
      case digit_part digits of None \<Rightarrow> None | Some n \<Rightarrow> Some (if hd x = 45 then - int n else int n))"

definition float_number :: "ustring \<Rightarrow> rat option" where
  "float_number s =
     (let (mantissa, has_exp, x) = str_partition 101 s;
          (whole, point, fraction) = str_partition 46 mantissa in
      if whole = [] \<and> fraction = [] then None
      else
        (case (if whole = [] then Some 0 else digit_part whole, if fraction = [] then Some 0 else digit_part fraction,
               if has_exp then float_exponent x else Some 0) of
           (Some i, Some f, Some e) \<Rightarrow>
             let v = of_nat i + of_nat f / 10 ^ length (filter (\<lambda>c. c \<noteq> 95) fraction) in
             Some (if 0 \<le> e then v * 10 ^ nat e else v / 10 ^ nat (- e))
         | _ \<Rightarrow> None))"

definition float_of_str :: "ustring \<Rightarrow> py_float res" where
  "float_of_str s =
     (let t = str_strip s;
          neg = (t \<noteq> [] \<and> hd t = 45);
          body = ascii_lower (if t \<noteq> [] \<and> hd t \<in> {43, 45} then tl t else t) in
      if body \<in> {ustr ''inf'', ustr ''infinity''} then Inr (Infinite neg)
      else if body = ustr ''nan'' then Inr NotANumber
      else
        (case float_number body of
           None \<Rightarrow> Inl ValueError
         | Some v \<Rightarrow>
             let x = fl v in
             Inr (if 2 ^ 1024 \<le> x then Infinite neg else Finite (if neg then - x else x))))"

text \<open>\<open>os.environ.get(name, default)\<close>, and \<open>os.environ.get(name) or None\<close>.\<close>

type_synonym environment = "ustring \<rightharpoonup> ustring"

definition setting :: "environment \<Rightarrow> string \<Rightarrow> string \<Rightarrow> ustring" where
  "setting env name default_value = (case env (ustr name) of None \<Rightarrow> ustr default_value | Some v \<Rightarrow> v)"

definition optional :: "environment \<Rightarrow> string \<Rightarrow> ustring option" where
  "optional env name = or_else (env (ustr name)) None"

text \<open>
  Paths are the texts \<open>Path\<close> joins. \<open>Path.home\<close> is an argument: it raises \<open>RuntimeError\<close> for a user without a
  home directory, and it is called even when its value is not used.
\<close>

type_synonym path = "ustring list"

definition state_path :: "environment \<Rightarrow> ustring res \<Rightarrow> string \<Rightarrow> path res" where
  "state_path env home name =
     bindR home (\<lambda>h.
     Inr ((case env (ustr ''XDG_STATE_HOME'') of None \<Rightarrow> [h, ustr ''.local'', ustr ''state''] | Some v \<Rightarrow> [v])
          @ [ustr ''softmesh'', ustr name]))"

definition path_setting :: "environment \<Rightarrow> string \<Rightarrow> path \<Rightarrow> path" where
  "path_setting env name default_path = (case env (ustr name) of None \<Rightarrow> default_path | Some v \<Rightarrow> [v])"

definition mqtt_default :: ustring where "mqtt_default = ustr ''mqtt://localhost''"

section \<open>The room server\<close>

text \<open>\<open>RoomConfig\<close>; the servers' handlers read the part \<open>room_config\<close>, for settings that are finite numbers.\<close>

record room_settings =
  rst_identity_path :: path
  rst_identity_seed :: "ustring option"
  rst_db_path :: path
  rst_display_name :: ustring
  rst_room_name :: ustring
  rst_admin_password :: ustring
  rst_guest_password :: ustring
  rst_mqtt :: mqtt_config
  rst_rx_topic :: ustring
  rst_tx_topic :: ustring
  rst_status_topic :: ustring
  rst_advertisement_interval_s :: py_float
  rst_advert_flood :: bool
  rst_recent_message_ttl_s :: py_float
  rst_push_ack_timeout_s :: py_float
  rst_push_direct_attempts :: int
  rst_push_flood_attempts :: int
  rst_max_sync_posts :: int

definition room_from_env :: "(ustring \<Rightarrow> bool) \<Rightarrow> environment \<Rightarrow> ustring res \<Rightarrow> room_settings res" where
  "room_from_env netloc_ok env home =
     bindR (state_path env home ''room-server.identity'') (\<lambda>default_identity.
     bindR (state_path env home ''room-server.sqlite3'') (\<lambda>default_db.
     bindR (from_env netloc_ok env (ustr ''ROOM'') mqtt_default) (\<lambda>mqtt.
     bindR (float_of_str (setting env ''ROOM_ADVERT_INTERVAL_S'' ''3600'')) (\<lambda>interval.
     bindR (float_of_str (setting env ''ROOM_RECENT_MESSAGE_TTL_S'' ''300'')) (\<lambda>ttl.
     bindR (float_of_str (setting env ''ROOM_PUSH_ACK_TIMEOUT_S'' ''6'')) (\<lambda>timeout.
     bindR (int_of_str (setting env ''ROOM_PUSH_DIRECT_ATTEMPTS'' ''2'')) (\<lambda>direct.
     bindR (int_of_str (setting env ''ROOM_PUSH_FLOOD_ATTEMPTS'' ''2'')) (\<lambda>flood.
     bindR (int_of_str (setting env ''ROOM_MAX_SYNC_POSTS'' ''20'')) (\<lambda>max_posts.
     Inr \<lparr> rst_identity_path = path_setting env ''ROOM_IDENTITY'' default_identity,
           rst_identity_seed = optional env ''ROOM_IDENTITY_SEED'',
           rst_db_path = path_setting env ''ROOM_DB'' default_db,
           rst_display_name = setting env ''ROOM_NAME'' ''py-room'',
           rst_room_name = setting env ''ROOM_TITLE'' ''py-room'',
           rst_admin_password = setting env ''ROOM_ADMIN_PASSWORD'' [],
           rst_guest_password = setting env ''ROOM_GUEST_PASSWORD'' [],
           rst_mqtt = mqtt,
           rst_rx_topic = setting env ''ROOM_RX_TOPIC'' ''mesh/rx'',
           rst_tx_topic = setting env ''ROOM_TX_TOPIC'' ''mesh/tx'',
           rst_status_topic = setting env ''ROOM_STATUS_TOPIC'' ''mesh/identities/room-server'',
           rst_advertisement_interval_s = interval,
           rst_advert_flood = parse_bool (env (ustr ''ROOM_ADVERT_FLOOD'')) False,
           rst_recent_message_ttl_s = ttl,
           rst_push_ack_timeout_s = timeout,
           rst_push_direct_attempts = direct,
           rst_push_flood_attempts = flood,
           rst_max_sync_posts = max_posts \<rparr>)))))))))"

definition room_config_of :: "room_settings \<Rightarrow> room_config option" where
  "room_config_of st =
     (case (rst_recent_message_ttl_s st, rst_push_ack_timeout_s st) of
        (Finite ttl, Finite timeout) \<Rightarrow>
          Some \<lparr> rc_display_name = rst_display_name st, rc_admin_password = rst_admin_password st,
                 rc_guest_password = rst_guest_password st, rc_advert_flood = rst_advert_flood st,
                 rc_recent_message_ttl_s = ttl, rc_push_ack_timeout_s = timeout,
                 rc_push_direct_attempts = rst_push_direct_attempts st,
                 rc_push_flood_attempts = rst_push_flood_attempts st, rc_max_sync_posts = rst_max_sync_posts st \<rparr>
      | _ \<Rightarrow> None)"

section \<open>The gateway\<close>

definition opt_int :: "environment \<Rightarrow> string \<Rightarrow> int option res" where
  "opt_int env name =
     (case env (ustr name) of
        None \<Rightarrow> Inr None
      | Some v \<Rightarrow> if str_strip v = [] then Inr None else bindR (int_of_str v) (\<lambda>n. Inr (Some n)))"

record gateway_settings =
  gst_serial_port :: ustring
  gst_baud :: int
  gst_mqtt :: mqtt_config
  gst_rx_topic :: ustring
  gst_tx_topic :: ustring
  gst_status_topic :: ustring
  gst_config :: gateway_config

text \<open>The constructor checks the duty cycle, which no infinity and no NaN passes.\<close>

definition gateway_from_env :: "(ustring \<Rightarrow> bool) \<Rightarrow> environment \<Rightarrow> gateway_settings res" where
  "gateway_from_env netloc_ok env =
     bindR (int_of_str (setting env ''MESH_GATEWAY_BAUD'' ''115200'')) (\<lambda>baud.
     bindR (from_env netloc_ok env (ustr ''MESH_GATEWAY'') mqtt_default) (\<lambda>mqtt.
     bindR (opt_int env ''MESH_GATEWAY_FREQ_HZ'') (\<lambda>freq.
     bindR (opt_int env ''MESH_GATEWAY_BW_HZ'') (\<lambda>bw.
     bindR (opt_int env ''MESH_GATEWAY_SF'') (\<lambda>sf.
     bindR (opt_int env ''MESH_GATEWAY_CR'') (\<lambda>cr.
     bindR (opt_int env ''MESH_GATEWAY_TX_POWER'') (\<lambda>power.
     bindR (float_of_str (setting env ''MESH_GATEWAY_DUTY_CYCLE'' ''0.10'')) (\<lambda>duty.
     case duty of
       Finite d \<Rightarrow>
         let config = \<lparr> gc_radio_preset = optional env ''MESH_GATEWAY_RADIO_PRESET'', gc_radio_freq_hz = freq,
               gc_radio_bw_hz = bw, gc_radio_sf = sf, gc_radio_cr = cr, gc_tx_power_dbm = power, gc_duty_cycle = d \<rparr> in
         bindR (check_gateway_config config) (\<lambda>_.
         Inr \<lparr> gst_serial_port = setting env ''MESH_GATEWAY_SERIAL'' ''/dev/cu.usbserial-0001'', gst_baud = baud,
               gst_mqtt = mqtt, gst_rx_topic = setting env ''MESH_GATEWAY_RX_TOPIC'' ''mesh/rx'',
               gst_tx_topic = setting env ''MESH_GATEWAY_TX_TOPIC'' ''mesh/tx'',
               gst_status_topic = setting env ''MESH_GATEWAY_STATUS_TOPIC'' ''mesh/status/gateway'',
               gst_config = config \<rparr>)
     | _ \<Rightarrow> Inl ValueError))))))))"

section \<open>The echo server\<close>

record echo_settings =
  est_identity_path :: path
  est_identity_seed :: "ustring option"
  est_contact_cache_path :: path
  est_display_name :: ustring
  est_mqtt :: mqtt_config
  est_rx_topic :: ustring
  est_tx_topic :: ustring
  est_status_topic :: ustring
  est_advertisement_interval_s :: py_float
  est_advert_flood :: bool
  est_echo_prefix :: ustring
  est_ack_reply_delay_s :: py_float
  est_recent_message_ttl_s :: py_float
  est_reply_ack_timeout_s :: py_float
  est_reply_direct_attempts :: int
  est_reply_flood_attempts :: int
  est_contact_pub_keys :: "bytes list"
  est_monitor_channel_keys :: "bytes list"
  est_monitor_name_filter :: ustring

definition echo_from_env :: "crypto_lib \<Rightarrow> (ustring \<Rightarrow> bool) \<Rightarrow> environment \<Rightarrow> ustring res \<Rightarrow> echo_settings res" where
  "echo_from_env C netloc_ok env home =
     bindR (state_path env home ''home-auto-client.identity'') (\<lambda>default_identity.
     bindR (state_path env home ''home-auto-client.contacts.json'') (\<lambda>default_cache.
     bindR (from_env netloc_ok env (ustr ''HOMEAUTO'') mqtt_default) (\<lambda>mqtt.
     bindR (float_of_str (setting env ''HOMEAUTO_ADVERT_INTERVAL_S'' ''3600'')) (\<lambda>interval.
     bindR (float_of_str (setting env ''HOMEAUTO_ACK_REPLY_DELAY_S'' ''2.0'')) (\<lambda>reply_delay.
     bindR (float_of_str (setting env ''HOMEAUTO_RECENT_MESSAGE_TTL_S'' ''300'')) (\<lambda>ttl.
     bindR (float_of_str (setting env ''HOMEAUTO_REPLY_ACK_TIMEOUT_S'' ''8'')) (\<lambda>timeout.
     bindR (int_of_str (setting env ''HOMEAUTO_REPLY_DIRECT_ATTEMPTS'' ''3'')) (\<lambda>direct.
     bindR (int_of_str (setting env ''HOMEAUTO_REPLY_FLOOD_ATTEMPTS'' ''3'')) (\<lambda>flood.
     bindR (parse_pub_keys (setting env ''HOMEAUTO_CONTACT_PUB_KEYS'' [])) (\<lambda>contacts.
     bindR (parse_monitor_keys C (setting env ''HOMEAUTO_MONITOR_CHANNEL_KEYS'' [])) (\<lambda>channels.
     Inr \<lparr> est_identity_path = path_setting env ''HOMEAUTO_IDENTITY'' default_identity,
           est_identity_seed = optional env ''HOMEAUTO_IDENTITY_SEED'',
           est_contact_cache_path = path_setting env ''HOMEAUTO_CONTACT_CACHE'' default_cache,
           est_display_name = setting env ''HOMEAUTO_NAME'' ''py-echo'',
           est_mqtt = mqtt,
           est_rx_topic = setting env ''HOMEAUTO_RX_TOPIC'' ''mesh/rx'',
           est_tx_topic = setting env ''HOMEAUTO_TX_TOPIC'' ''mesh/tx'',
           est_status_topic = setting env ''HOMEAUTO_STATUS_TOPIC'' ''mesh/identities/home-auto-client'',
           est_advertisement_interval_s = interval,
           est_advert_flood = parse_bool (env (ustr ''HOMEAUTO_ADVERT_FLOOD'')) False,
           est_echo_prefix = setting env ''HOMEAUTO_ECHO_PREFIX'' ''echo: '',
           est_ack_reply_delay_s = reply_delay,
           est_recent_message_ttl_s = ttl,
           est_reply_ack_timeout_s = timeout,
           est_reply_direct_attempts = direct,
           est_reply_flood_attempts = flood,
           est_contact_pub_keys = contacts,
           est_monitor_channel_keys = channels,
           est_monitor_name_filter = setting env ''HOMEAUTO_MONITOR_NAME_FILTER'' [] \<rparr>)))))))))))"

definition echo_config_of :: "echo_settings \<Rightarrow> echo_config option" where
  "echo_config_of st =
     (case (est_ack_reply_delay_s st, est_recent_message_ttl_s st, est_reply_ack_timeout_s st) of
        (Finite reply_delay, Finite ttl, Finite timeout) \<Rightarrow>
          Some \<lparr> ec_display_name = est_display_name st, ec_advert_flood = est_advert_flood st,
                 ec_echo_prefix = est_echo_prefix st, ec_ack_reply_delay_s = reply_delay, ec_recent_message_ttl_s = ttl,
                 ec_reply_ack_timeout_s = timeout, ec_reply_direct_attempts = est_reply_direct_attempts st,
                 ec_reply_flood_attempts = est_reply_flood_attempts st, ec_contact_pub_keys = est_contact_pub_keys st,
                 ec_monitor_channel_keys = est_monitor_channel_keys st,
                 ec_monitor_name_filter = est_monitor_name_filter st \<rparr>
      | _ \<Rightarrow> None)"

section \<open>The observer\<close>

definition parse_float :: "ustring option \<Rightarrow> py_float option res" where
  "parse_float raw =
     (case raw of
        None \<Rightarrow> Inr None
      | Some v \<Rightarrow> if str_strip v = [] then Inr None else bindR (float_of_str v) (\<lambda>x. Inr (Some x)))"

definition parse_int :: "ustring option \<Rightarrow> int \<Rightarrow> int res" where
  "parse_int raw default_value =
     (case raw of None \<Rightarrow> Inr default_value | Some v \<Rightarrow> if str_strip v = [] then Inr default_value else int_of_str v)"

record observer_settings =
  ost_identity_path :: path
  ost_identity_seed :: "ustring option"
  ost_iata_code :: ustring
  ost_token_audience :: "ustring option"
  ost_mqtt_local :: mqtt_config
  ost_mqtt_cornmeister :: mqtt_config
  ost_mqtt_radar :: mqtt_config
  ost_enable_cornmeister :: bool
  ost_enable_radar :: bool
  ost_rx_topic :: ustring
  ost_cornmeister_topic_template :: ustring
  ost_radar_topic_template :: ustring
  ost_status_topic_template :: ustring
  ost_name :: "ustring option"
  ost_lat :: "py_float option"
  ost_lon :: "py_float option"
  ost_tx_topic :: ustring
  ost_advert_interval_s :: int
  ost_advert_flood :: bool

definition observer_from_env :: "(ustring \<Rightarrow> bool) \<Rightarrow> environment \<Rightarrow> ustring res \<Rightarrow> observer_settings res" where
  "observer_from_env netloc_ok env home =
     bindR (state_path env home ''observer.identity'') (\<lambda>default_identity.
     bindR (from_env netloc_ok env (ustr ''OBSERVER'') mqtt_default) (\<lambda>local.
     bindR (from_env netloc_ok env (ustr ''OBSERVER_CORN'')
       (setting env ''OBSERVER_CORN_MQTT_URL'' ''wss://collector1.dutchmeshcore.nl:443/mqtt'')) (\<lambda>cornmeister.
     bindR (from_env netloc_ok env (ustr ''OBSERVER_RADAR'')
       (setting env ''OBSERVER_RADAR_MQTT_URL'' ''wss://collector2.dutchmeshcore.nl:443/mqtt'')) (\<lambda>radar.
     bindR (parse_float (env (ustr ''OBSERVER_LAT''))) (\<lambda>lat.
     bindR (parse_float (env (ustr ''OBSERVER_LON''))) (\<lambda>lon.
     bindR (parse_int (env (ustr ''OBSERVER_ADVERT_INTERVAL'')) 0) (\<lambda>interval.
     Inr \<lparr> ost_identity_path = path_setting env ''OBSERVER_IDENTITY'' default_identity,
           ost_identity_seed = optional env ''OBSERVER_IDENTITY_SEED'',
           ost_iata_code = setting env ''OBSERVER_IATA'' ''AMS'',
           ost_token_audience = optional env ''OBSERVER_TOKEN_AUDIENCE'',
           ost_mqtt_local = local, ost_mqtt_cornmeister = cornmeister, ost_mqtt_radar = radar,
           ost_enable_cornmeister = parse_bool (env (ustr ''OBSERVER_ENABLE_CORNMEISTER'')) True,
           ost_enable_radar = parse_bool (env (ustr ''OBSERVER_ENABLE_RADAR'')) True,
           ost_rx_topic = setting env ''OBSERVER_RX_TOPIC'' ''mesh/rx'',
           ost_cornmeister_topic_template = setting env ''OBSERVER_CORN_TOPIC'' ''meshcore/{iata}/{observer_pub}/packets'',
           ost_radar_topic_template = setting env ''OBSERVER_RADAR_TOPIC'' ''meshcore/{iata}/{observer_pub}/packets'',
           ost_status_topic_template = setting env ''OBSERVER_STATUS_TOPIC'' ''meshcore/{iata}/{observer_pub}/status'',
           ost_name = optional env ''OBSERVER_NAME'',
           ost_lat = lat, ost_lon = lon,
           ost_tx_topic = setting env ''OBSERVER_TX_TOPIC'' ''mesh/tx'',
           ost_advert_interval_s = interval,
           ost_advert_flood = parse_bool (env (ustr ''OBSERVER_ADVERT_FLOOD'')) True \<rparr>)))))))"

text \<open>
  \<open>template.format(...)\<close> with named arguments: text, doubled braces and fields. \<open>None\<close> for a template with a
  conversion, a format, an attribute or an index in a field; what Python makes of it is an argument (\<open>other\<close>).
\<close>

definition format_field :: "(ustring \<rightharpoonup> ustring) \<Rightarrow> ustring \<Rightarrow> ustring res" where
  "format_field kwargs name =
     (if list_all (\<lambda>c. 48 \<le> c \<and> c \<le> 57) name then Inl IndexError
      else case kwargs name of None \<Rightarrow> Inl KeyError | Some v \<Rightarrow> Inr v)"

lemma length_rest: "length (dropWhile P s) - Suc 0 < Suc (length s)"
  using length_dropWhile_le [of P s] by linarith

function format_fields :: "(ustring \<rightharpoonup> ustring) \<Rightarrow> ustring \<Rightarrow> ustring res option" where
  "format_fields kwargs [] = Some (Inr [])"
| "format_fields kwargs (c # s) =
     (if c = 123 \<and> (s = [] \<or> hd s \<noteq> 123)
      then
        (let (name, closed, rest) = str_partition 125 s in
         if \<not> closed then Some (Inl ValueError)
         else if \<exists>x \<in> set name. x \<in> {123, 33, 58, 46, 91} then None
         else
           (case format_field kwargs name of
              Inl e \<Rightarrow> Some (Inl e)
            | Inr v \<Rightarrow> map_option (\<lambda>r. bindR r (\<lambda>after. Inr (v @ after))) (format_fields kwargs rest)))
      else if c = 125 \<and> (s = [] \<or> hd s \<noteq> 125) then Some (Inl ValueError)
      else
        map_option (\<lambda>r. bindR r (\<lambda>after. Inr (c # after)))
          (format_fields kwargs (if c \<in> {123, 125} then tl s else s)))"
  by pat_completeness auto
termination
  by (relation "measure (\<lambda>(kwargs, s). length s)") (auto simp: str_partition_def le_imp_less_Suc le_diff_conv2 intro: length_rest)

definition observer_topic :: "(ustring \<Rightarrow> ustring res) \<Rightarrow> observer_settings \<Rightarrow> bytes \<Rightarrow> ustring \<Rightarrow> ustring res" where
  "observer_topic other st observer_pub_key template =
     (case format_fields [ustr ''iata'' \<mapsto> ost_iata_code st,
         ustr ''observer_pub'' \<mapsto> hex_upper (bytes_hex observer_pub_key)] template of
        None \<Rightarrow> other template
      | Some r \<Rightarrow> r)"

definition cornmeister_topic :: "(ustring \<Rightarrow> ustring res) \<Rightarrow> observer_settings \<Rightarrow> bytes \<Rightarrow> ustring res" where
  "cornmeister_topic other st pub_key = observer_topic other st pub_key (ost_cornmeister_topic_template st)"

definition radar_topic :: "(ustring \<Rightarrow> ustring res) \<Rightarrow> observer_settings \<Rightarrow> bytes \<Rightarrow> ustring res" where
  "radar_topic other st pub_key = observer_topic other st pub_key (ost_radar_topic_template st)"

definition status_topic :: "(ustring \<Rightarrow> ustring res) \<Rightarrow> observer_settings \<Rightarrow> bytes \<Rightarrow> ustring res" where
  "status_topic other st pub_key = observer_topic other st pub_key (ost_status_topic_template st)"

section \<open>A room without passwords\<close>

text \<open>A server that admits nobody: no session, no task, the store as it was, and only its own adverts published.\<close>

definition idle :: "room \<Rightarrow> tables \<Rightarrow> server \<Rightarrow> bool" where
  "idle R db s \<longleftrightarrow> sv_sessions s = [] \<and> sv_tasks s = [] \<and> sv_store s = db \<and>
     list_all (\<lambda>w. \<exists>ck. build_self_advert R ck = Inr w) (sv_sent s)"

definition closed_room :: "room \<Rightarrow> bool" where
  "closed_room R \<longleftrightarrow> rc_admin_password (rm_config R) = [] \<and> rc_guest_password (rm_config R) = []"

lemma idle_update [simp]:
  "idle R db (s\<lparr>sv_names := n\<rparr>) = idle R db s"
  "idle R db (s\<lparr>sv_advert_ts := m\<rparr>) = idle R db s"
  "idle R db (s\<lparr>sv_ack_waiters := v, sv_resolved := r\<rparr>) = idle R db s"
  by (simp_all add: idle_def)

lemma idle_no_sender: "idle R db s \<Longrightarrow> first_match f (sessions_at R src_hash s) = Inr None"
  by (simp add: idle_def sessions_at_def map_filter_def)

lemma idle_ack: "idle R db s \<Longrightarrow> wp (handle_ack p) (\<lambda>_. idle R db) (idle R db) s"
  by (simp add: handle_ack_def wp split: option.splits) (simp add: wp_def resolve_ack_def Let_def)

lemma idle_dispatch:
  assumes "closed_room R" "idle R db s"
  shows "wp (dispatch R ck p) (\<lambda>_. idle R db) (idle R db) s"
proof -
  have advert: "wp (handle_advert R p) (\<lambda>_. idle R db) (idle R db) s"
    using assms(2) by (auto simp: handle_advert_def wp idle_def Let_def split: sum.splits option.splits)
  have path: "wp (handle_path R p) (\<lambda>_. idle R db) (idle R db) s"
    using assms(2) by (auto simp: handle_path_def wp idle_no_sender split: sum.splits option.splits)
  have post: "wp (handle_post R ck p) (\<lambda>_. idle R db) (idle R db) s"
    using assms(2) by (auto simp: handle_post_def wp idle_no_sender split: sum.splits option.splits)
  have login: "wp (handle_login R ck p) (\<lambda>_. idle R db) (idle R db) s"
    using assms by (auto simp: handle_login_def wp classify_def closed_room_def split: sum.splits option.splits)
  show ?thesis using advert path post login idle_ack [OF assms(2)] assms(2) by (simp add: dispatch_def wp split: payload_type.splits)
qed

lemma idle_event:
  assumes "closed_room R" "idle R db s"
  shows "idle R db (run_room R e s)"
proof (cases e)
  case (RoomFrame ck frame)
  have "idle R db (snd (dispatch R ck p s))" for p using idle_dispatch [OF assms, of ck p] by (simp add: wp_snd)
  then show ?thesis using assms(2) RoomFrame by (simp add: receive_def caught_def io_defs split: sum.splits)
next
  case (RoomAdvert ck)
  have "wp (room_advertise R ck) (\<lambda>_. idle R db) (idle R db) s"
    using assms(2) by (auto simp: room_advertise_def wp split: sum.splits) (auto simp: wp_def publish_def idle_def)
  then show ?thesis using RoomAdvert by (simp add: wp_snd)
qed (use assms(2) in \<open>simp add: step_task_def idle_def\<close>)

lemma idle_run:
  assumes "closed_room R" "idle R db s"
  shows "idle R db (run_rooms R es s)"
  using assms(2) unfolding run_rooms_def by (induction es arbitrary: s) (simp_all add: idle_event [OF assms(1)])

lemma room_from_env_passwords:
  assumes "room_from_env netloc_ok env home = Inr st"
  shows "rst_admin_password st = setting env ''ROOM_ADMIN_PASSWORD'' [] \<and> rst_guest_password st = setting env ''ROOM_GUEST_PASSWORD'' []"
  using assms by (auto simp: room_from_env_def)

lemma room_config_passwords:
  "room_config_of st = Some c \<Longrightarrow> rc_admin_password c = rst_admin_password st \<and> rc_guest_password c = rst_guest_password st"
  by (auto simp: room_config_of_def split: py_float.splits)

lemma setting_absent: "or_else (env (ustr name)) None = None \<Longrightarrow> setting env name [] = []"
  by (auto simp: setting_def or_else_def ustr_def split: option.splits if_splits)

lemma default_floats:
  "float_of_str (ustr ''3600'') = Inr (Finite 3600)" "float_of_str (ustr ''300'') = Inr (Finite 300)"
  "float_of_str (ustr ''6'') = Inr (Finite 6)"
  by (simp_all add: float_of_str_def float_number_def float_exponent_def digit_part_def str_partition_def str_strip_def
      py_space_def ustr_def ascii_lower_def Let_def fl_numeral)

lemma default_ints: "int_of_str (ustr ''2'') = Inr 2" "int_of_str (ustr ''20'') = Inr 20"
  by (simp_all add: int_of_str_def str_strip_def py_space_def ustr_def)

lemma default_mqtt: "\<exists>m. from_env (\<lambda>_. True) Map.empty (ustr ''ROOM'') mqtt_default = Inr m"
  by (simp add: from_env_def mqtt_default_def urlparse_def str_partition_def str_rpartition_def ustr_def is_alpha_def
      scheme_char_def env_port_def url_port_def url_hostinfo_def or_else_def ascii_lower_def Let_def)

lemma default_room:
  "\<exists>st. room_from_env (\<lambda>_. True) Map.empty (Inr (ustr ''/root'')) = Inr st \<and> room_config_of st \<noteq> None"
proof -
  obtain m where "from_env (\<lambda>_. True) Map.empty (ustr ''ROOM'') mqtt_default = Inr m" using default_mqtt by blast
  then show ?thesis
    by (simp add: room_from_env_def state_path_def setting_def default_floats default_ints room_config_of_def)
qed

section \<open>Properties\<close>

text \<open>
  Property (C9): a room server without passwords is closed. When neither password variable is set, or both are empty, then
  under the settings read from the environment, whatever frames arrive, adverts are due and publish calls fail: no
  session is opened, the store stays as it was, and all the server ever publishes is its own adverts.
\<close>

theorem room_without_passwords:
  assumes "room_from_env netloc_ok env home = Inr st" "room_config_of st = Some (rm_config R)"
    and "optional env ''ROOM_ADMIN_PASSWORD'' = None" "optional env ''ROOM_GUEST_PASSWORD'' = None"
  shows "sv_sessions (run_rooms R es (initial_server db fails)) = [] \<and> sv_store (run_rooms R es (initial_server db fails)) = db \<and>
    list_all (\<lambda>w. \<exists>ck. build_self_advert R ck = Inr w) (sv_sent (run_rooms R es (initial_server db fails)))"
proof -
  have "closed_room R"
    using assms(3,4) room_from_env_passwords [OF assms(1)] room_config_passwords [OF assms(2)]
    by (simp add: closed_room_def optional_def setting_absent)
  then have "idle R db (run_rooms R es (initial_server db fails))" by (rule idle_run) (simp add: idle_def initial_server_def)
  then show ?thesis by (simp add: idle_def)
qed

lemma room_without_passwords_witness:
  "\<exists>st R. room_from_env (\<lambda>_. True) Map.empty (Inr (ustr ''/root'')) = Inr st \<and> room_config_of st = Some (rm_config R) \<and>
    sv_sessions (run_rooms R [RoomFrame (demo_clock 0) [7]] (initial_server empty_tables (\<lambda>_. False))) = []"
proof -
  obtain st c where st: "room_from_env (\<lambda>_. True) Map.empty (Inr (ustr ''/root'')) = Inr st" "room_config_of st = Some c"
    using default_room by blast
  then have "sv_sessions (run_rooms (demo_room\<lparr>rm_config := c\<rparr>) [RoomFrame (demo_clock 0) [7]] (initial_server empty_tables (\<lambda>_. False))) = []"
    using room_without_passwords [OF st(1), of "demo_room\<lparr>rm_config := c\<rparr>"] by (simp add: optional_def or_else_def)
  then show ?thesis using st by (intro exI [of _ st] exI [of _ "demo_room\<lparr>rm_config := c\<rparr>"]) simp
qed

end
