(* ===== verification/CommandLine.thy ===== *)
theory CommandLine
  imports Settings
begin

text \<open>
  The command lines of the four services (\<open>__main__.py\<close> of each package): an argument that is given is written into the
  environment before the settings are read from it.
\<close>

section \<open>The services' main functions\<close>

text \<open>
  What \<open>main\<close> makes of the parsed arguments. \<open>run\<close> gives whether it was interrupted from the keyboard;
  \<open>float_str\<close> is \<open>str\<close> of a float.
\<close>

definition with_text :: "string \<Rightarrow> ustring option \<Rightarrow> environment \<Rightarrow> environment" where
  "with_text name arg env = (case or_else arg None of None \<Rightarrow> env | Some v \<Rightarrow> env(ustr name \<mapsto> v))"

definition with_value :: "string \<Rightarrow> ('a \<Rightarrow> ustring) \<Rightarrow> 'a option \<Rightarrow> environment \<Rightarrow> environment" where
  "with_value name str_of arg env = (case arg of None \<Rightarrow> env | Some v \<Rightarrow> env(ustr name \<mapsto> str_of v))"

definition exit_status :: "bool res \<Rightarrow> int res" where
  "exit_status r = bindR r (\<lambda>interrupted. Inr (if interrupted then 130 else 0))"

record room_args =
  ra_mqtt_url :: "ustring option"
  ra_name :: "ustring option"
  ra_room_name :: "ustring option"
  ra_identity :: "ustring option"
  ra_db :: "ustring option"
  ra_advert_interval :: "py_float option"

definition room_environment :: "(py_float \<Rightarrow> ustring) \<Rightarrow> room_args \<Rightarrow> environment \<Rightarrow> environment" where
  "room_environment float_str args env =
     with_value ''ROOM_ADVERT_INTERVAL_S'' float_str (ra_advert_interval args)
       (with_text ''ROOM_DB'' (ra_db args)
       (with_text ''ROOM_IDENTITY'' (ra_identity args)
       (with_text ''ROOM_TITLE'' (ra_room_name args)
       (with_text ''ROOM_NAME'' (ra_name args)
       (with_text ''ROOM_MQTT_URL'' (ra_mqtt_url args) env)))))"

definition room_main ::
    "(py_float \<Rightarrow> ustring) \<Rightarrow> (ustring \<Rightarrow> bool) \<Rightarrow> (room_settings \<Rightarrow> bool res) \<Rightarrow> room_args \<Rightarrow> environment \<Rightarrow> ustring res \<Rightarrow> int res" where
  "room_main float_str netloc_ok run args env home =
     bindR (room_from_env netloc_ok (room_environment float_str args env) home) (\<lambda>st. exit_status (run st))"

record echo_args =
  ea_mqtt_url :: "ustring option"
  ea_name :: "ustring option"
  ea_identity :: "ustring option"
  ea_advert_interval :: "py_float option"

definition echo_environment :: "(py_float \<Rightarrow> ustring) \<Rightarrow> echo_args \<Rightarrow> environment \<Rightarrow> environment" where
  "echo_environment float_str args env =
     with_value ''HOMEAUTO_ADVERT_INTERVAL_S'' float_str (ea_advert_interval args)
       (with_text ''HOMEAUTO_IDENTITY'' (ea_identity args)
       (with_text ''HOMEAUTO_NAME'' (ea_name args)
       (with_text ''HOMEAUTO_MQTT_URL'' (ea_mqtt_url args) env)))"

definition echo_main ::
    "crypto_lib \<Rightarrow> (py_float \<Rightarrow> ustring) \<Rightarrow> (ustring \<Rightarrow> bool) \<Rightarrow> (echo_settings \<Rightarrow> bool res) \<Rightarrow> echo_args \<Rightarrow> environment
       \<Rightarrow> ustring res \<Rightarrow> int res" where
  "echo_main C float_str netloc_ok run args env home =
     bindR (echo_from_env C netloc_ok (echo_environment float_str args env) home) (\<lambda>st. exit_status (run st))"

record gateway_args =
  ga_serial :: "ustring option"
  ga_mqtt_url :: "ustring option"
  ga_baud :: "int option"
  ga_region :: "ustring option"
  ga_tx_power :: "int option"

definition gateway_environment :: "gateway_args \<Rightarrow> environment \<Rightarrow> environment" where
  "gateway_environment args env =
     with_value ''MESH_GATEWAY_TX_POWER'' int_str (ga_tx_power args)
       (with_text ''MESH_GATEWAY_RADIO_PRESET'' (ga_region args)
       (with_value ''MESH_GATEWAY_BAUD'' int_str (if ga_baud args = Some 0 then None else ga_baud args)
       (with_text ''MESH_GATEWAY_MQTT_URL'' (ga_mqtt_url args)
       (with_text ''MESH_GATEWAY_SERIAL'' (ga_serial args) env))))"

definition gateway_main ::
    "(ustring \<Rightarrow> bool) \<Rightarrow> (gateway_settings \<Rightarrow> bool res) \<Rightarrow> gateway_args \<Rightarrow> environment \<Rightarrow> int res" where
  "gateway_main netloc_ok run args env =
     bindR (gateway_from_env netloc_ok (gateway_environment args env)) (\<lambda>st. exit_status (run st))"

record observer_args =
  oa_mqtt_url :: "ustring option"
  oa_corn_mqtt_url :: "ustring option"
  oa_radar_mqtt_url :: "ustring option"
  oa_identity :: "ustring option"
  oa_iata :: "ustring option"
  oa_token_audience :: "ustring option"
  oa_name :: "ustring option"
  oa_lat :: "py_float option"
  oa_lon :: "py_float option"
  oa_advert_interval :: "int option"

definition observer_environment :: "(py_float \<Rightarrow> ustring) \<Rightarrow> observer_args \<Rightarrow> environment \<Rightarrow> environment" where
  "observer_environment float_str args env =
     with_value ''OBSERVER_ADVERT_INTERVAL'' int_str (oa_advert_interval args)
       (with_value ''OBSERVER_LON'' float_str (oa_lon args)
       (with_value ''OBSERVER_LAT'' float_str (oa_lat args)
       (with_text ''OBSERVER_NAME'' (oa_name args)
       (with_text ''OBSERVER_TOKEN_AUDIENCE'' (oa_token_audience args)
       (with_text ''OBSERVER_IATA'' (oa_iata args)
       (with_text ''OBSERVER_IDENTITY'' (oa_identity args)
       (with_text ''OBSERVER_RADAR_MQTT_URL'' (oa_radar_mqtt_url args)
       (with_text ''OBSERVER_CORN_MQTT_URL'' (oa_corn_mqtt_url args)
       (with_text ''OBSERVER_MQTT_URL'' (oa_mqtt_url args) env)))))))))"

definition observer_main ::
    "(py_float \<Rightarrow> ustring) \<Rightarrow> (ustring \<Rightarrow> bool) \<Rightarrow> (observer_settings \<Rightarrow> bool res) \<Rightarrow> observer_args \<Rightarrow> environment
       \<Rightarrow> ustring res \<Rightarrow> int res" where
  "observer_main float_str netloc_ok run args env home =
     bindR (observer_from_env netloc_ok (observer_environment float_str args env) home) (\<lambda>st. exit_status (run st))"

section \<open>Facts\<close>

text \<open>\<open>int(str(i))\<close>.\<close>

lemma digits_value_snoc:
  "list_all (\<lambda>c. 48 \<le> c \<and> c \<le> 57) s \<Longrightarrow> d < 10 \<Longrightarrow> digits_value m (s @ [48 + d]) = map_option (\<lambda>n. 10 * n + d) (digits_value m s)"
  by (induction s arbitrary: m) auto

lemma digits_value_nat_str: "digits_value 0 (nat_str n) = Some n"
proof (induction n rule: nat_str.induct)
  case (1 n)
  have d: "list_all (\<lambda>c. 48 \<le> c \<and> c \<le> 57) (nat_str (n div 10))"
    using nat_str_digits by (fastforce simp: list_all_iff)
  show ?case
  proof (cases "n < 10")
    case True
    then show ?thesis by (simp add: nat_str.simps [of n])
  next
    case False
    then show ?thesis using 1 digits_value_snoc [OF d, of "n mod 10" 0] by (simp add: nat_str.simps [of n])
  qed
qed

lemma nat_str_first: "nat_str n \<noteq> [] \<and> 48 \<le> hd (nat_str n) \<and> hd (nat_str n) < 58"
proof -
  have "nat_str n \<noteq> []" by (simp add: nat_str.simps [of n])
  then show ?thesis using nat_str_digits [OF hd_in_set] by blast
qed

lemma str_strip_int [simp]: "str_strip (int_str i) = int_str i"
proof -
  have c: "45 \<le> c \<and> c < 58" if "c \<in> set (int_str i)" for c
    using that by (auto simp: int_str_def split: if_splits dest!: nat_str_digits)
  have "dropWhile py_space q = q" if "set q \<subseteq> set (int_str i)" for q
  proof (cases q)
    case (Cons a q')
    then show ?thesis using that c [of a] by (auto simp: py_space_def)
  qed simp
  then show ?thesis by (simp add: str_strip_def)
qed

lemma int_of_int_str [simp]: "int_of_str (int_str i) = Inr i"
  using nat_str_first [of "nat i"] nat_str_first [of "nat (- i)"]
  by (simp add: int_of_str_def) (simp add: Let_def int_str_def digits_value_nat_str)

text \<open>What a command-line argument of the gateway changes: the variable of the setting it names, and nothing else of it.\<close>

lemma environment_simps [simp]:
  "with_text name arg env x = (if x = ustr name \<and> or_else arg None \<noteq> None then arg else env x)"
  "with_value name str_of v env x = (if x = ustr name \<and> v \<noteq> None then map_option str_of v else env x)"
  by (auto simp: with_text_def with_value_def or_else_def split: option.splits)

lemma ustr_inject [simp]: "(ustr s = ustr t) = (s = t)"
  by (metis injI inj_map_eq_map of_char_eq_iff ustr_def)

lemma word_of_int_mod_256: "(word_of_int (i mod 256) :: byte) = word_of_int i"
  by (simp add: word_uint_eq_iff uint_of_int_byte)

lemma finite_float:
  "(case x of Finite d \<Rightarrow> f d | _ \<Rightarrow> Inl e) = Inr y \<longleftrightarrow> (\<exists>d. x = Finite d \<and> f d = Inr y)"
  by (cases x) auto

lemma gateway_from_env_reads:
  assumes "gateway_from_env netloc_ok E = Inr st"
  shows "opt_int E ''MESH_GATEWAY_TX_POWER'' = Inr (gc_tx_power_dbm (gst_config st)) \<and>
    int_of_str (setting E ''MESH_GATEWAY_BAUD'' ''115200'') = Inr (gst_baud st) \<and>
    gc_radio_preset (gst_config st) = optional E ''MESH_GATEWAY_RADIO_PRESET'' \<and>
    gst_serial_port st = setting E ''MESH_GATEWAY_SERIAL'' ''/dev/cu.usbserial-0001''"
  using assms by (auto simp: gateway_from_env_def Let_def finite_float)

lemma gateway_arguments:
  assumes "gateway_from_env netloc_ok (gateway_environment args env) = Inr st"
  shows "(\<forall>p. ga_tx_power args = Some p \<longrightarrow> gc_tx_power_dbm (gst_config st) = Some p) \<and>
    (\<forall>b. ga_baud args = Some b \<and> b \<noteq> 0 \<longrightarrow> gst_baud st = b) \<and>
    (\<forall>r. ga_region args = Some r \<and> r \<noteq> [] \<longrightarrow> gc_radio_preset (gst_config st) = Some r) \<and>
    (\<forall>d. ga_serial args = Some d \<and> d \<noteq> [] \<longrightarrow> gst_serial_port st = d)"
proof -
  have "int_str p \<noteq> []" for p using nat_str_first [of "nat p"] nat_str_first [of "nat (- p)"] by (simp add: int_str_def)
  then have "ga_tx_power args = Some p \<Longrightarrow> opt_int (gateway_environment args env) ''MESH_GATEWAY_TX_POWER'' = Inr (Some p)" for p
    by (simp add: opt_int_def gateway_environment_def)
  then show ?thesis using gateway_from_env_reads [OF assms]
    by (auto simp: gateway_environment_def setting_def optional_def or_else_def)
qed

section \<open>Properties\<close>

text \<open>
  Property (C39): the transmit power given on the command line reaches the modem. When the gateway's settings are read and the
  modem is programmed, the last frame written to the serial line is one that a KISS decoder reads as the
  hardware command for the transmit power with the value of the argument in its one byte, whatever the environment says about it.
\<close>

theorem tx_power_argument_reaches_modem:
  assumes "gateway_from_env netloc_ok (gateway_environment args env) = Inr st" "ga_tx_power args = Some p"
    and "configure_modem (gst_config st) = Inr ws"
  shows "\<exists>ws' frame. ws = ws' @ [frame] \<and> feed new_decoder frame =
    (idle_decoder, [\<lparr> fr_port = 0, fr_command = KISS_SET_HARDWARE, fr_data = [word_of_int SET_TX_POWER, word_of_int p] \<rparr>])"
proof -
  let ?f = "\<lparr> fr_port = 0, fr_command = KISS_SET_HARDWARE, fr_data = [word_of_int SET_TX_POWER, word_of_int p] \<rparr>"
  have "build_set_tx_power_frame p = Inr (fr_data ?f)"
    by (simp add: build_set_tx_power_frame_def byte_of_def hardware_cmds and_255) (simp add: word_of_int_mod_256)
  then obtain ws' frame where f: "encode ?f = Inr frame" "ws = ws' @ [frame]"
    using gateway_arguments [OF assms(1)] assms(2,3) by (auto simp: configure_modem_def set_hardware_def)
  have "wf_frame ?f" by (simp add: wf_frame_def kiss_commands)
  from feed_encoded [OF this f(1), of new_decoder] show ?thesis using f(2) by auto
qed

lemma one_float: "float_of_str (ustr ''1'') = Inr (Finite 1)"
  by (simp add: float_of_str_def float_number_def float_exponent_def digit_part_def str_partition_def str_strip_def
      py_space_def ustr_def ascii_lower_def Let_def fl_numeral)

lemma tx_power_argument_reaches_modem_witness:
  "\<exists>st ws. gateway_from_env (\<lambda>_. True) (gateway_environment \<lparr> ga_serial = None, ga_mqtt_url = None, ga_baud = None,
       ga_region = None, ga_tx_power = Some 20 \<rparr> [ustr ''MESH_GATEWAY_DUTY_CYCLE'' \<mapsto> ustr ''1'']) = Inr st \<and>
     configure_modem (gst_config st) = Inr ws \<and> ws \<noteq> []"
proof -
  let ?args = "\<lparr> ga_serial = None, ga_mqtt_url = None, ga_baud = None, ga_region = None, ga_tx_power = Some 20 \<rparr>"
  let ?env = "[ustr ''MESH_GATEWAY_DUTY_CYCLE'' \<mapsto> ustr ''1'']"
  have "\<exists>m. from_env (\<lambda>_. True) (gateway_environment ?args ?env) (ustr ''MESH_GATEWAY'') mqtt_default = Inr m"
    by (simp add: gateway_environment_def from_env_def mqtt_default_def urlparse_def str_partition_def str_rpartition_def ustr_def is_alpha_def
      scheme_char_def env_port_def url_port_def url_hostinfo_def or_else_def ascii_lower_def Let_def)
  moreover have "gateway_environment ?args ?env = ?env(ustr ''MESH_GATEWAY_TX_POWER'' \<mapsto> int_str 20)"
    by (auto simp: gateway_environment_def with_text_def or_else_def with_value_def)
  ultimately obtain m where m: "from_env (\<lambda>_. True) (?env(ustr ''MESH_GATEWAY_TX_POWER'' \<mapsto> int_str 20)) (ustr ''MESH_GATEWAY'') mqtt_default = Inr m"
    "gateway_environment ?args ?env = ?env(ustr ''MESH_GATEWAY_TX_POWER'' \<mapsto> int_str 20)" by auto
  have b: "int_of_str (ustr ''115200'') = Inr 115200" by (simp add: int_of_str_def str_strip_def py_space_def ustr_def)
  have t: "int_str 20 = [50, 48]" by (simp add: int_str_def nat_str.simps)
  obtain st where st: "gateway_from_env (\<lambda>_. True) (gateway_environment ?args ?env) = Inr st"
    "gc_radio_preset (gst_config st) = None" "gc_radio_freq_hz (gst_config st) = None" "gc_radio_bw_hz (gst_config st) = None"
    "gc_radio_sf (gst_config st) = None" "gc_radio_cr (gst_config st) = None" "gc_tx_power_dbm (gst_config st) = Some 20"
    using m(1) int_of_int_str [of 20] unfolding t m(2)
    by (simp add: gateway_from_env_def setting_def b opt_int_def one_float optional_def or_else_def check_gateway_config_def
        str_strip_def py_space_def)
  have "\<exists>ws. configure_modem (gst_config st) = Inr ws \<and> ws \<noteq> []"
    using st by (simp add: configure_modem_def gateway_radio_def build_set_tx_power_frame_def set_hardware_def encode_def byte_of_def
        type_byte_def kiss_bytes kiss_commands hardware_cmds)
  then show ?thesis using tx_power_argument_reaches_modem [OF st(1)] st(1) by auto
qed

end
