(* ===== verification/Service.thy ===== *)
theory Service
  imports RoomTasks EchoServer Loopback Gateway JsonRead
begin

text \<open>
  The runs of the room server and the echo server (\<open>run\<close> in \<open>protocol.py\<close> and \<open>echo_server.py\<close>): starting up, the
  status messages, the two loops under a task group, and what is released when they end. How the calls of the broker
  and of the database end is an input.
\<close>

section \<open>Status messages\<close>

definition room_up :: "identity \<Rightarrow> ustring \<Rightarrow> json res" where
  "room_up i room_name =
     bindR (address i) (\<lambda>path_hash. Inr (JObj [(ustr ''state'', JStr (ustr ''up'')), (ustr ''name'', JStr (id_name i)),
       (ustr ''room'', JStr room_name), (ustr ''pub_key'', JStr (bytes_hex (id_pub_key i))),
       (ustr ''path_hash'', JInt path_hash)]))"

definition echo_up :: "identity \<Rightarrow> json res" where
  "echo_up i =
     bindR (address i) (\<lambda>path_hash. Inr (JObj [(ustr ''state'', JStr (ustr ''up'')), (ustr ''name'', JStr (id_name i)),
       (ustr ''pub_key'', JStr (bytes_hex (id_pub_key i))), (ustr ''path_hash'', JInt path_hash)]))"

definition status_down :: json where
  "status_down = JObj [(ustr ''state'', JStr (ustr ''down''))]"

text \<open>The gateway's announcement names what it programmed.\<close>

definition gateway_up :: "gateway_config \<Rightarrow> json" where
  "gateway_up g = JObj [(ustr ''state'', JStr (ustr ''up'')),
     (ustr ''radio_preset'', case gc_radio_preset g of None \<Rightarrow> JNull | Some name \<Rightarrow> JStr name),
     (ustr ''tx_power_dbm'', case gc_tx_power_dbm g of None \<Rightarrow> JNull | Some dbm \<Rightarrow> JInt dbm)]"

definition status_bytes :: "json res \<Rightarrow> bytes res" where
  "status_bytes v = bindR v (\<lambda>j. utf8_encode (json_text j))"

section \<open>A connected service\<close>

text \<open>
  The server with the status messages the broker has accepted; it retains the last. \<open>broker_run\<close> says how making and entering
  the client, the two status messages and leaving the client end.
\<close>

record 'n service =
  sc_node :: 'n
  sc_status :: "bytes list"

record broker_run =
  br_connect :: "exn option"
  br_up :: "exn option"
  br_down :: "exn option"
  br_leave :: "exn option"

definition answered :: "exn option \<Rightarrow> ('w, unit) io" where
  "answered answer = liftR (case answer of None \<Rightarrow> Inr () | Some e \<Rightarrow> Inl e)"

definition announce :: "json res \<Rightarrow> exn option \<Rightarrow> ('n service, unit) io" where
  "announce v answer =
     bindIO (liftR (status_bytes v)) (\<lambda>payload.
     bindIO (answered answer) (\<lambda>_. modifyIO (\<lambda>w. w\<lparr>sc_status := sc_status w @ [payload]\<rparr>)))"

definition on_node :: "('n, 'a) io \<Rightarrow> ('n service, 'a) io" where
  "on_node m w = (case m (sc_node w) of (r, n) \<Rightarrow> (r, w\<lparr>sc_node := n\<rparr>))"

text \<open>
  The tasks of a group: one step after the other, until one raises, which the group turns into an \<open>ExceptionGroup\<close>.
  \<open>ending\<close> is what ends the loops otherwise: the group's exception when the stream of messages breaks, or
  \<open>CancelledError\<close> when the service is stopped. A loop that is cancelled is between two of its steps.
\<close>

fun task_group_run :: "('e \<Rightarrow> ('n, unit) io) \<Rightarrow> exn \<Rightarrow> 'e list \<Rightarrow> ('n, unit) io" where
  "task_group_run step ending [] n = (Inl ending, n)"
| "task_group_run step ending (e # es) n =
     (case step e n of
        (Inl _, n1) \<Rightarrow> (Inl ExceptionGroup, n1)
      | (Inr _, n1) \<Rightarrow> task_group_run step ending es n1)"

text \<open>What the two programs do once they are set up, word for word the same.\<close>

definition connected_run :: "broker_run \<Rightarrow> json res \<Rightarrow> ('n, unit) io \<Rightarrow> ('n service, unit) io" where
  "connected_run b up loops =
     bindIO (answered (br_connect b)) (\<lambda>_.
     finallyIO
       (bindIO (announce up (br_up b)) (\<lambda>_.
        finallyIO (on_node loops) (announce (Inr status_down) (br_down b))))
       (answered (br_leave b)))"

section \<open>The room server\<close>

text \<open>
  The server and its store. \<open>store_run\<close> says how opening the database ends: the connection is refused, or it is made
  and the set-up of the schema fails, leaving some file; and how closing it ends.
\<close>

record room_node =
  rn_server :: server
  rn_store :: room_store

record store_run =
  sr_connect :: "exn option"
  sr_migrate :: "(exn \<times> db_file) option"
  sr_close :: "exn option"

definition open_room :: "store_run \<Rightarrow> (room_node service, unit) io" where
  "open_room a =
     bindIO (answered (sr_connect a)) (\<lambda>_.
     on_node (case sr_migrate a of
       Some (e, file) \<Rightarrow>
         bindIO (modifyIO (\<lambda>n. n\<lparr>rn_store := (rn_store n)\<lparr>rs_file := file, rs_open := True\<rparr>\<rparr>)) (\<lambda>_. liftR (Inl e))
     | None \<Rightarrow> modifyIO (\<lambda>n. n\<lparr>rn_store := open_store (rn_store n)\<rparr>)))"

definition close_room :: "store_run \<Rightarrow> (room_node service, unit) io" where
  "close_room a =
     on_node (bindIO getIO (\<lambda>n.
       if \<not> rs_open (rn_store n) then returnIO ()
       else bindIO (answered (sr_close a)) (\<lambda>_. modifyIO (\<lambda>n. n\<lparr>rn_store := close_store (rn_store n)\<rparr>))))"

text \<open>The constructor, on a store that has its tables; the server's statements change the tables of the open file.\<close>

definition new_room :: "(nat \<Rightarrow> bool) \<Rightarrow> (room_node, unit) io" where
  "new_room fails =
     bindIO getIO (\<lambda>n.
     case dbf_tables (rs_file (rn_store n)) of
       None \<Rightarrow> liftR (Inl LibraryError)
     | Some t \<Rightarrow> modifyIO (\<lambda>n. n\<lparr>rn_server := initial_server t fails\<rparr>))"

definition on_server :: "(server, 'a) io \<Rightarrow> (room_node, 'a) io" where
  "on_server m n =
     (case m (rn_server n) of (r, s) \<Rightarrow>
       (r, n\<lparr>rn_server := s, rn_store := (rn_store n)\<lparr>rs_file := (rs_file (rn_store n))\<lparr>dbf_tables := Some (sv_store s)\<rparr>\<rparr>\<rparr>))"

definition room_step :: "room \<Rightarrow> room_event \<Rightarrow> (server, unit) io" where
  "room_step R e =
     (case e of
        RoomFrame ck frame \<Rightarrow> receive R (ck, frame)
      | RoomAdvert ck \<Rightarrow> room_advertise R ck
      | RoomTask in_wait \<Rightarrow> modifyIO (run_room R e))"

text \<open>\<open>_load_identity\<close>, and \<open>run\<close>, where \<open>who\<close> is what it gives. The file is opened before the \<open>try\<close> that closes it.\<close>

definition service_identity :: "crypto_lib \<Rightarrow> ustring option \<Rightarrow> bytes option \<Rightarrow> bytes \<Rightarrow> ustring \<Rightarrow> identity res" where
  "service_identity C identity_seed id_file random_seed display_name =
     bindR (fst (resolve_identity C identity_seed id_file random_seed display_name)) (\<lambda>(i, source). Inr i)"

definition room_service ::
    "room \<Rightarrow> ustring \<Rightarrow> identity res \<Rightarrow> store_run \<Rightarrow> broker_run \<Rightarrow> (nat \<Rightarrow> bool) \<Rightarrow> exn \<Rightarrow> room_event list
       \<Rightarrow> (room_node service, unit) io" where
  "room_service R room_name who a b fails ending es =
     bindIO (liftR who) (\<lambda>i.
     bindIO (open_room a) (\<lambda>_.
     bindIO (on_node (new_room fails)) (\<lambda>_.
     finallyIO
       (connected_run b (room_up i room_name)
          (on_server (task_group_run (room_step (R\<lparr>rm_identity := i\<rparr>)) ending es)))
       (close_room a))))"

section \<open>The echo server\<close>

definition echo_step :: "echo_node \<Rightarrow> echo_event \<Rightarrow> (echo_server, unit) io" where
  "echo_step N e =
     (case e of
        Frame ck frame \<Rightarrow> echo_receive N (ck, frame)
      | Advertise ck \<Rightarrow> advertise N ck
      | Echo ck in_delay in_wait \<Rightarrow> modifyIO (run_event N e))"

definition echo_service :: "echo_node \<Rightarrow> identity res \<Rightarrow> broker_run \<Rightarrow> exn \<Rightarrow> echo_event list \<Rightarrow> (echo_server service, unit) io" where
  "echo_service N who b ending es =
     bindIO (liftR who) (\<lambda>i.
     let M = N\<lparr>en_identity := i\<rparr> in
     bindIO (on_node (start_echo M)) (\<lambda>_.
     connected_run b (echo_up i) (task_group_run (echo_step M) ending es)))"

section \<open>Facts\<close>

definition down_bytes :: bytes where "down_bytes = map of_nat (json_text status_down)"

text \<open>A status without floats always has a text: \<open>json.dumps\<close> escapes what is not ASCII.\<close>

lemma status_total: "ascii_floats v \<Longrightarrow> status_bytes (Inr v) = Inr (map of_nat (json_text v))"
  by (simp add: status_bytes_def utf8_ascii ascii_json_text)

lemma status_down_bytes [simp]: "status_bytes (Inr status_down) = Inr down_bytes"
  by (simp add: status_total down_bytes_def status_down_def)

lemma gateway_status: "status_bytes (Inr (gateway_up g)) = Inr (map of_nat (json_text (gateway_up g)))"
  by (rule status_total) (simp add: gateway_up_def split: option.splits)

lemma up_status:
  assumes "id_pub_key i \<noteq> []"
  shows "\<exists>p q. status_bytes (room_up i room_name) = Inr p \<and> status_bytes (echo_up i) = Inr q"
proof -
  obtain h where "address i = Inr h" using assms by (cases "id_pub_key i") (auto simp: address_def path_hash_def)
  then show ?thesis by (simp add: room_up_def echo_up_def status_total)
qed

lemma answered_simps [simp]: "answered None w = (Inr (), w)" "answered (Some e) w = (Inl e, w)"
  by (simp_all add: answered_def liftR_def)

lemma wp_answered [wp]: "wp (answered a) Q E = (case a of None \<Rightarrow> Q () | Some e \<Rightarrow> E)"
  by (simp add: answered_def wp split: option.splits)

lemma announce_simps:
  "status_bytes v = Inr p \<Longrightarrow> announce v None w = (Inr (), w\<lparr>sc_status := sc_status w @ [p]\<rparr>)"
  "status_bytes v = Inr p \<Longrightarrow> announce v (Some e) w = (Inl e, w)"
  "status_bytes v = Inl e' \<Longrightarrow> announce v answer w = (Inl e', w)"
  by (simp_all add: announce_def io_defs)

text \<open>
  A run that never announces itself leaves the server as it was; one that does ends as its loops end, and its farewell
  is the last message of the broker if the broker takes it.
\<close>

definition announces :: "broker_run \<Rightarrow> json res \<Rightarrow> bytes \<Rightarrow> bool" where
  "announces b up p \<longleftrightarrow> br_connect b = None \<and> br_up b = None \<and> status_bytes up = Inr p"

lemma connected_run_silent:
  assumes "\<nexists>p. announces b up p"
  shows "\<exists>e. connected_run b up loops w = (Inl e, w)"
proof (cases "br_connect b")
  case None
  have "\<exists>e. announce up (br_up b) w = (Inl e, w)"
    using assms None by (cases "status_bytes up"; cases "br_up b") (auto simp: announces_def announce_simps)
  then show ?thesis using None
    by (cases "br_leave b") (auto simp: connected_run_def bindIO_def finallyIO_def)
qed (simp add: connected_run_def bindIO_def)

lemma connected_run_announced:
  assumes "announces b up p" "loops (sc_node w) = (Inl e, n)"
  shows "\<exists>e'. connected_run b up loops w =
    (Inl e', w\<lparr>sc_node := n, sc_status := sc_status w @ p # (if br_down b = None then [down_bytes] else [])\<rparr>)"
  using assms by (cases "br_down b"; cases "br_leave b")
    (simp_all add: announces_def connected_run_def bindIO_def finallyIO_def announce_simps on_node_def)

text \<open>The loops run a prefix of the events and end with an exception.\<close>

lemma group_prefix:
  assumes "\<And>e s. snd (step e s) = run e s"
  shows "\<exists>n x. task_group_run step ending es s = (Inl x, fold run (take n es) s) \<and> x \<in> {ending, ExceptionGroup}"
proof (induction es arbitrary: s)
  case Nil
  then show ?case by simp
next
  case (Cons e es)
  obtain r t where st: "step e s = (r, t)" by (cases "step e s")
  then have t: "t = run e s" using assms [of e s] by simp
  show ?case
  proof (cases r)
    case (Inl x)
    then show ?thesis using st t by (intro exI [of _ 1] exI [of _ ExceptionGroup]) simp
  next
    case (Inr y)
    obtain n x where "task_group_run step ending es t = (Inl x, fold run (take n es) t)" "x \<in> {ending, ExceptionGroup}"
      using Cons.IH by blast
    then show ?thesis using Inr st t by (intro exI [of _ "Suc n"] exI [of _ x]) simp
  qed
qed

lemma room_loops:
  "\<exists>n x. task_group_run (room_step R) ending es s = (Inl x, run_rooms R (take n es) s) \<and> x \<in> {ending, ExceptionGroup}"
proof -
  have "snd (room_step R e s) = run_room R e s" for e s by (cases e) (simp_all add: room_step_def modifyIO_def)
  then show ?thesis unfolding run_rooms_def by (rule group_prefix)
qed

lemma run_events_fold: "run_events N es s = fold (run_event N) es s"
  by (induction es arbitrary: s) simp_all

lemma echo_loops:
  "\<exists>n x. task_group_run (echo_step N) ending es s = (Inl x, run_events N (take n es) s) \<and> x \<in> {ending, ExceptionGroup}"
proof -
  have "snd (echo_step N e s) = run_event N e s" for e s by (cases e) (simp_all add: echo_step_def modifyIO_def)
  then show ?thesis unfolding run_events_fold by (rule group_prefix)
qed

text \<open>A database that is not open and whose file has, or will be given, well-formed tables.\<close>

definition ready :: "room_node service \<Rightarrow> tables \<Rightarrow> bool" where
  "ready w t \<longleftrightarrow> \<not> rs_open (rn_store (sc_node w)) \<and> sc_status w = [] \<and>
     dbf_tables (migrate (rs_file (rn_store (sc_node w)))) = Some t \<and> wf_tables t"

lemma open_ready:
  assumes "ready w t" "sr_connect a = None" "sr_migrate a = None"
  shows "open_room a w = (Inr (), w\<lparr>sc_node := (sc_node w)\<lparr>rn_store := open_store (rn_store (sc_node w))\<rparr>\<rparr>)"
  using assms by (simp add: open_room_def bindIO_def on_node_def modifyIO_def)

lemma close_opened:
  "rs_open (rn_store (sc_node w)) \<Longrightarrow> close_room a w =
    (case sr_close a of
       None \<Rightarrow> (Inr (), w\<lparr>sc_node := (sc_node w)\<lparr>rn_store := close_store (rn_store (sc_node w))\<rparr>\<rparr>)
     | Some e \<Rightarrow> (Inl e, w))"
  by (simp add: close_room_def on_node_def io_defs split: option.splits)

lemma room_service_ends:
  assumes "ready w0 t" "sr_connect a = None" "sr_migrate a = None"
  shows "\<exists>e w n. room_service R room_name (Inr i) a b fails ending es w0 = (Inl e, w) \<and>
    rn_server (sc_node w) = run_rooms (R\<lparr>rm_identity := i\<rparr>) (take n es) (initial_server t fails) \<and>
    dbf_tables (rs_file (rn_store (sc_node w))) = Some (sv_store (rn_server (sc_node w))) \<and>
    (rs_open (rn_store (sc_node w)) \<longleftrightarrow> sr_close a \<noteq> None) \<and>
    (if \<exists>p. announces b (room_up i room_name) p
     then \<exists>p. status_bytes (room_up i room_name) = Inr p \<and> sc_status w = p # (if br_down b = None then [down_bytes] else [])
     else sc_status w = [] \<and> n = 0)"
proof -
  let ?up = "room_up i room_name" and ?R = "R\<lparr>rm_identity := i\<rparr>"
  let ?n0 = "(sc_node w0)\<lparr>rn_store := open_store (rn_store (sc_node w0)), rn_server := initial_server t fails\<rparr>"
  let ?w1 = "w0\<lparr>sc_node := ?n0\<rparr>"
  let ?loops = "on_server (task_group_run (room_step ?R) ending es)"
  have t: "dbf_tables (rs_file (open_store (rn_store (sc_node w0)))) = Some t" using assms(1) by (simp add: ready_def open_store_def)
  have start: "room_service R room_name (Inr i) a b fails ending es w0 = finallyIO (connected_run b ?up ?loops) (close_room a) ?w1"
    using t open_ready [OF assms] by (simp add: room_service_def io_defs on_node_def new_room_def)
  show ?thesis
  proof (cases "\<exists>p. announces b ?up p")
    case False
    then obtain e where e: "connected_run b ?up ?loops ?w1 = (Inl e, ?w1)" using connected_run_silent by blast
    have "rs_open (rn_store (sc_node ?w1))" by (simp add: open_store_def)
    note c = close_opened [OF this, of a]
    show ?thesis unfolding start finallyIO_def e using False c t assms(1)
      by (cases "sr_close a") (auto simp: run_rooms_def initial_server_def close_store_def open_store_def ready_def intro!: exI [of _ 0])
  next
    case True
    then obtain p where p: "announces b ?up p" by blast
    obtain n x where l: "task_group_run (room_step ?R) ending es (initial_server t fails) = (Inl x, run_rooms ?R (take n es) (initial_server t fails))"
      using room_loops by blast
    let ?s = "run_rooms ?R (take n es) (initial_server t fails)"
    let ?st = "open_store (rn_store (sc_node w0))"
    let ?n1 = "(sc_node w0)\<lparr>rn_server := ?s, rn_store := ?st\<lparr>rs_file := (rs_file ?st)\<lparr>dbf_tables := Some (sv_store ?s)\<rparr>\<rparr>\<rparr>"
    have "?loops (sc_node ?w1) = (Inl x, ?n1)" by (simp add: on_server_def l)
    from connected_run_announced [of b ?up p ?loops, OF p this] obtain e where
      e: "connected_run b ?up ?loops ?w1 = (Inl e, ?w1\<lparr>sc_node := ?n1, sc_status := sc_status ?w1 @ p # (if br_down b = None then [down_bytes] else [])\<rparr>)"
      by blast
    let ?w2 = "?w1\<lparr>sc_node := ?n1, sc_status := sc_status ?w1 @ p # (if br_down b = None then [down_bytes] else [])\<rparr>"
    have "rs_open (rn_store (sc_node ?w2))" by (simp add: open_store_def)
    note c = close_opened [OF this, of a]
    show ?thesis unfolding start finallyIO_def e using True p c assms(1)
      by (cases "sr_close a") (auto simp: close_store_def open_store_def ready_def announces_def intro!: exI [of _ n])
  qed
qed

text \<open>
  The echo server announces itself, works and says farewell: once it has loaded its contacts, its run ends with an
  exception, its tasks have made a prefix of their steps, and the broker's status messages are "up", if it could connect and announce itself,
  followed by "down", if the broker took it.
\<close>

lemma echo_service_winds_down:
  assumes "start_echo (N\<lparr>en_identity := i\<rparr>) (sc_node w0) = (Inr (), s0)"
  shows "\<exists>e n s. echo_service N (Inr i) b ending es w0 =
      (Inl e, w0\<lparr>sc_node := s, sc_status := sc_status w0 @
         (case (br_connect b, br_up b, status_bytes (echo_up i)) of
            (None, None, Inr p) \<Rightarrow> p # (if br_down b = None then [down_bytes] else [])
          | _ \<Rightarrow> [])\<rparr>) \<and>
    s = run_events (N\<lparr>en_identity := i\<rparr>) (take n es) s0"
proof -
  let ?M = "N\<lparr>en_identity := i\<rparr>"
  let ?loops = "task_group_run (echo_step ?M) ending es"
  have start: "echo_service N (Inr i) b ending es w0 = connected_run b (echo_up i) ?loops (w0\<lparr>sc_node := s0\<rparr>)"
    by (simp add: echo_service_def Let_def io_defs on_node_def assms)
  obtain n x where l: "?loops s0 = (Inl x, run_events ?M (take n es) s0)" using echo_loops by blast
  show ?thesis
  proof (cases "\<exists>p. announces b (echo_up i) p")
    case True
    then obtain p where p: "announces b (echo_up i) p" by blast
    have "?loops (sc_node (w0\<lparr>sc_node := s0\<rparr>)) = (Inl x, run_events ?M (take n es) s0)" using l by simp
    from connected_run_announced [of b "echo_up i" p ?loops, OF p this] show ?thesis
      using p unfolding start by (auto simp: announces_def)
  next
    case False
    then obtain e where "connected_run b (echo_up i) ?loops (w0\<lparr>sc_node := s0\<rparr>) = (Inl e, w0\<lparr>sc_node := s0\<rparr>)"
      using connected_run_silent by blast
    moreover have "(case (br_connect b, br_up b, status_bytes (echo_up i)) of
        (None, None, Inr p) \<Rightarrow> p # (if br_down b = None then [down_bytes] else []) | _ \<Rightarrow> []) = []"
      using False by (auto simp: announces_def split: option.splits sum.splits)
    ultimately show ?thesis unfolding start by (intro exI [of _ e] exI [of _ 0]) (simp flip: run_events.simps)
  qed
qed

text \<open>The name in the adverts is the configured one; that of the status message is the identity's (\<open>room_up\<close>).\<close>

lemma advert_carries_configured_name:
  assumes "crypto_laws (rm_lib R)" "length (id_seed (rm_identity R)) = 32"
    and "id_pub_key (rm_identity R) = lib_ed25519_pub (rm_lib R) (id_seed (rm_identity R))"
    and "0 \<le> ck_time ck" "ck_time ck < 2 ^ 32"
    and "valid_advert_data \<lparr> ad_type = 3, ad_name = rc_display_name (rm_config R), ad_lat = None, ad_lon = None, ad_feat1 = None, ad_feat2 = None \<rparr>"
  shows "\<exists>wire p a. build_self_advert R ck = Inr wire \<and> decode_packet wire = Inr p \<and> decode_advert (pkt_payload p) = Inr a \<and>
    ad_name (av_app_data a) = rc_display_name (rm_config R)"
proof -
  let ?d = "\<lparr> ad_type = 3, ad_name = rc_display_name (rm_config R), ad_lat = None, ad_lon = None, ad_feat1 = None, ad_feat2 = None \<rparr>"
  obtain payload a where a: "encode_advert (rm_lib R) (id_seed (rm_identity R)) (id_pub_key (rm_identity R)) (ck_time ck) ?d = Inr payload"
    "decode_advert payload = Inr a" "av_app_data a = as_received ?d"
    using encoded_advert_opens [OF assms(1,2,4-6)] assms(3) by auto
  let ?r = "if rc_advert_flood (rm_config R) then FLOOD else DIRECT"
  obtain w where "encode_packet (make_packet ?r ADVERT [] payload 1) = Inr w" "decode_packet w = Inr (make_packet ?r ADVERT [] payload 1)"
    by (rule decode_made [of ?r ADVERT 1 "[]"]) (auto simp: path_ok_def)
  then show ?thesis using a by (simp add: build_self_advert_def as_received_def make_packet_def)
qed

section \<open>Properties\<close>

text \<open>
  Property (C3): the room server releases what it holds. Once its database is open, its run ends, however the broker
  answers, whichever task raises and whatever arrives: with an exception, after the tasks have made a prefix of their steps from the initial state on
  the tables of the file; the server is then well formed, the file holds its tables, the database is closed unless closing it
  raises, and the broker has the announcement "up" and after it, if it took the message, "down"; or the service never announced itself and did nothing.
\<close>

theorem room_service_winds_down:
  assumes "ready w0 t" "sr_connect a = None" "sr_migrate a = None"
  shows "\<exists>e w n. room_service R room_name (Inr i) a b fails ending es w0 = (Inl e, w) \<and>
    rn_server (sc_node w) = run_rooms (R\<lparr>rm_identity := i\<rparr>) (take n es) (initial_server t fails) \<and>
    wf_server (rn_server (sc_node w)) \<and>
    dbf_tables (rs_file (rn_store (sc_node w))) = Some (sv_store (rn_server (sc_node w))) \<and>
    (rs_open (rn_store (sc_node w)) \<longleftrightarrow> sr_close a \<noteq> None) \<and>
    (if \<exists>p. announces b (room_up i room_name) p
     then \<exists>p. status_bytes (room_up i room_name) = Inr p \<and> sc_status w = p # (if br_down b = None then [down_bytes] else [])
     else sc_status w = [] \<and> n = 0)"
proof -
  have "wf_server (run_rooms (R\<lparr>rm_identity := i\<rparr>) (take n es) (initial_server t fails))" for n
    using room_system_ok [of t] assms(1) by (simp add: ready_def)
  then show ?thesis using room_service_ends [OF assms, of R room_name i b fails ending es] by metis
qed

definition demo_file :: "room_node service" where
  "demo_file = \<lparr> sc_node = \<lparr> rn_server = demo_server, rn_store = \<lparr> rs_file = \<lparr> dbf_user_version = 0, dbf_tables = None \<rparr>, rs_open = False \<rparr> \<rparr>,
     sc_status = [] \<rparr>"

lemma room_service_winds_down_witness:
  "\<exists>e w. room_service demo_room (ustr ''room'') (Inr (rm_identity demo_room))
      \<lparr> sr_connect = None, sr_migrate = None, sr_close = None \<rparr>
      \<lparr> br_connect = None, br_up = None, br_down = Some LibraryError, br_leave = None \<rparr> (\<lambda>_. True) CancelledError
      [RoomAdvert (demo_clock 0)] demo_file = (Inl e, w) \<and> \<not> rs_open (rn_store (sc_node w))"
proof -
  have "ready demo_file empty_tables" by (simp add: ready_def demo_file_def migrate_def wf_tables_def empty_tables_def)
  from room_service_winds_down [OF this, of "\<lparr> sr_connect = None, sr_migrate = None, sr_close = None \<rparr>" demo_room "ustr ''room''" "rm_identity demo_room"
      "\<lparr> br_connect = None, br_up = None, br_down = Some LibraryError, br_leave = None \<rparr>" "\<lambda>_. True" CancelledError "[RoomAdvert (demo_clock 0)]"]
  show ?thesis by auto
qed

text \<open>
  A database that cannot be set up is left open. When the connection to the file is made and the migration of its
  schema raises, the run ends with that exception before the \<open>try\<close> that would close the database, and nothing is announced.
\<close>

lemma failed_migration_leaves_store_open:
  assumes "sr_connect a = None" "sr_migrate a = Some (e, file)"
  shows "\<exists>w. room_service R room_name (Inr i) a b fails ending es w0 = (Inl e, w) \<and> rs_open (rn_store (sc_node w)) \<and>
    sc_status w = sc_status w0"
  using assms by (simp add: room_service_def open_room_def io_defs on_node_def)

lemma failed_migration_leaves_store_open_witness:
  "\<exists>w. room_service demo_room (ustr ''room'') (Inr (rm_identity demo_room))
      \<lparr> sr_connect = None, sr_migrate = Some (LibraryError, \<lparr> dbf_user_version = 0, dbf_tables = None \<rparr>), sr_close = None \<rparr>
      \<lparr> br_connect = None, br_up = None, br_down = None, br_leave = None \<rparr> (\<lambda>_. False) CancelledError [] demo_file = (Inl LibraryError, w) \<and>
    rs_open (rn_store (sc_node w))"
  using failed_migration_leaves_store_open [of "\<lparr> sr_connect = None,
      sr_migrate = Some (LibraryError, \<lparr> dbf_user_version = 0, dbf_tables = None \<rparr>), sr_close = None \<rparr>" LibraryError
      "\<lparr> dbf_user_version = 0, dbf_tables = None \<rparr>" demo_room "ustr ''room''" "rm_identity demo_room"
      "\<lparr> br_connect = None, br_up = None, br_down = None, br_leave = None \<rparr>" "\<lambda>_. False" CancelledError "[]" demo_file] by auto

text \<open>
  Property (C6): the key a service announces is the key its clients read. The status message of the room server and that
  of the echo server always have bytes, and the test drivers, reading them as the retained message, get the server's
  public key; from the message left when a server has stopped they get a \<open>KeyError\<close>. \<open>loads\<close> reads bytes of ASCII
  characters without a zero as the text they spell.
\<close>

theorem announced_key_is_read:
  assumes "\<forall>s. plain s \<longrightarrow> loads (map of_nat s) = json_loads other s"
    and "encodable (id_name i)" "encodable room_name" "id_pub_key i \<noteq> []"
  shows "(\<exists>m. status_bytes (room_up i room_name) = Inr m \<and> get_pub_key loads (Some m) = Inr (id_pub_key i)) \<and>
    (\<exists>m. status_bytes (echo_up i) = Inr m \<and> get_pub_key loads (Some m) = Inr (id_pub_key i)) \<and>
    get_pub_key loads (Some down_bytes) = Inl KeyError"
proof -
  have read: "loads (map of_nat (json_text v)) = Inr v" if "writable v" for v
    using assms(1) plain_text(1) [OF that] writable_text_read(2) [OF that] by simp
  obtain c r where c: "id_pub_key i = c # r" using assms(4) by (cases "id_pub_key i") auto
  have h: "address i = Inr (uint c)" by (simp add: address_def path_hash_def c)
  have "uint c < 256" using unsigned_less [of c] by simp
  then have "uint c < 1000" by linarith
  then have len: "length (int_str (uint c)) \<le> 4300" using small_int_str [of "uint c"] by simp
  have room: "room_up i room_name = Inr v \<Longrightarrow> writable v" "echo_up i = Inr v \<Longrightarrow> writable v" for v
    using assms(2,3) len by (auto simp: room_up_def echo_up_def h encodable_hex) (simp_all add: ustr_def encodable_def surrogate_def)
  have down: "writable status_down" by (simp add: status_down_def ustr_def encodable_def surrogate_def)
  show ?thesis
    using read [OF room(1)] read [OF room(2)] read [OF down] unfolding down_bytes_def
    by (simp add: room_up_def echo_up_def h status_total get_pub_key_def json_index_def status_down_def ustr_def)
qed

lemma announced_key_is_read_witness:
  "\<exists>m. status_bytes (room_up (rm_identity demo_room) (ustr ''room'')) = Inr m \<and>
    get_pub_key (\<lambda>p. json_loads (\<lambda>_. JNull) (map unat p)) (Some m) = Inr (replicate 32 2)"
proof -
  have "map unat (map of_nat s :: bytes) = s" if "plain s" for s
    using that by (induction s) (simp_all add: unat_of_nat)
  moreover have "id_pub_key (rm_identity demo_room) = replicate 32 2" by (simp add: demo_room_def numeral_eq_Suc)
  moreover have "encodable (id_name (rm_identity demo_room))" "encodable (ustr ''room'')"
    by (simp_all add: demo_room_def encodable_def surrogate_def ustr_def)
  ultimately show ?thesis
    using announced_key_is_read [of "\<lambda>p. json_loads (\<lambda>_. JNull) (map unat p)" "\<lambda>_. JNull" "rm_identity demo_room" "ustr ''room''"]
    by simp
qed

end
