(* ===== verification/ObserverRun.thy ===== *)
theory ObserverRun
  imports Settings Service
begin

text \<open>
  The run of the observer (\<open>run\<close> in \<open>observer/reporter.py\<close>): the topics and targets it is set up with, its three tasks, the
  forwarding of frames, the statistics and its own adverts, and the closing of the targets when one of them ends.
\<close>

section \<open>The running observer\<close>

text \<open>
  The tasks' state and the adverts published to the local broker. Coordinates are those of settings that are finite
  numbers.
\<close>

record observer_node =
  od_observer :: observer
  od_adverts :: "bytes list"

definition observer_config_of ::
    "observer_settings \<Rightarrow> rat option \<Rightarrow> rat option \<Rightarrow> ustring \<Rightarrow> ustring \<Rightarrow> ustring \<Rightarrow> observer_config" where
  "observer_config_of st lat lon topic_status topic_corn topic_radar =
     \<lparr> oc_name = ost_name st, oc_token_audience = ost_token_audience st, oc_mqtt_cornmeister = ost_mqtt_cornmeister st,
       oc_mqtt_radar = ost_mqtt_radar st, oc_enable_cornmeister = ost_enable_cornmeister st,
       oc_enable_radar = ost_enable_radar st, oc_cornmeister_topic = topic_corn, oc_radar_topic = topic_radar,
       oc_status_topic = topic_status, oc_lat = lat, oc_lon = lon \<rparr>"

text \<open>
  A step of one of the tasks: an input of the two loops of \<open>observer_event\<close>, or a round of \<open>advertise_loop\<close>, with the time
  and how the local broker takes the advert. The third task exists only if the interval is positive.
\<close>

datatype observer_task =
    Input observer_input
  | SelfAdvert int "exn option"

definition on_observer :: "(observer, 'a) io \<Rightarrow> (observer_node, 'a) io" where
  "on_observer m n = (case m (od_observer n) of (r, s) \<Rightarrow> (r, n\<lparr>od_observer := s\<rparr>))"

definition observer_advertise ::
    "crypto_lib \<Rightarrow> observer_settings \<Rightarrow> observer_config \<Rightarrow> identity \<Rightarrow> int \<Rightarrow> exn option \<Rightarrow> (observer_node, unit) io" where
  "observer_advertise C st c i at_time answer =
     bindIO (liftR (observer_self_advert C i (observer_origin c i) (oc_lat c) (oc_lon c) (ost_advert_flood st) at_time)) (\<lambda>wire.
     bindIO (answered answer) (\<lambda>_. modifyIO (\<lambda>n. n\<lparr>od_adverts := od_adverts n @ [wire]\<rparr>)))"

definition observer_step ::
    "crypto_lib \<Rightarrow> (rat \<Rightarrow> ustring) \<Rightarrow> observer_settings \<Rightarrow> observer_config \<Rightarrow> identity \<Rightarrow> observer_task \<Rightarrow> (observer_node, unit) io" where
  "observer_step C repr_of st c i t =
     (case t of
        Input ev \<Rightarrow> on_observer (observer_event C repr_of (observer_origin c i) (hex_upper (bytes_hex (id_pub_key i))) ev)
      | SelfAdvert at_time answer \<Rightarrow>
          if 0 < ost_advert_interval_s st then observer_advertise C st c i at_time answer else returnIO ())"

text \<open>How the calls of the local broker end, and for each target its \<open>close\<close>.\<close>

record local_run =
  lr_connect :: "exn option"
  lr_subscribe :: "exn option"
  lr_leave :: "exn option"
  lr_close :: "nat \<Rightarrow> exn option"

definition close_targets :: "(nat \<Rightarrow> exn option) \<Rightarrow> (observer_node, unit) io" where
  "close_targets answers n =
     (case close_all answers 0 (ob_targets (od_observer n)) of
        (r, targets) \<Rightarrow> (r, n\<lparr>od_observer := (od_observer n)\<lparr>ob_targets := targets\<rparr>\<rparr>))"

text \<open>
  \<open>run\<close>; \<open>gather\<close> raises what the first of its tasks raises. \<open>ending\<close> is what ends them when no step raises: the local
  broker is lost or the service is stopped. A task that is cancelled is between two of its steps. \<open>other\<close> formats templates with conversions.
\<close>

definition observer_service ::
    "crypto_lib \<Rightarrow> (rat \<Rightarrow> ustring) \<Rightarrow> (ustring \<Rightarrow> ustring res) \<Rightarrow> observer_settings \<Rightarrow> rat option \<Rightarrow> rat option
       \<Rightarrow> identity res \<Rightarrow> local_run \<Rightarrow> exn \<Rightarrow> observer_task list \<Rightarrow> (observer_node, unit) io" where
  "observer_service C repr_of other st lat lon who l ending ts =
     bindIO (liftR who) (\<lambda>i.
     bindIO (liftR (status_topic other st (id_pub_key i))) (\<lambda>topic_status.
     bindIO (answered (lr_connect l)) (\<lambda>_.
     finallyIO
       (bindIO (liftR (cornmeister_topic other st (id_pub_key i))) (\<lambda>topic_corn.
        bindIO (liftR (radar_topic other st (id_pub_key i))) (\<lambda>topic_radar.
        let c = observer_config_of st lat lon topic_status topic_corn topic_radar in
        bindIO (modifyIO (\<lambda>n. n\<lparr>od_observer := start_observer c i\<rparr>)) (\<lambda>_.
        bindIO (answered (lr_subscribe l)) (\<lambda>_.
        finallyIO
          (bindIO (forIO ts (observer_step C repr_of st c i)) (\<lambda>_. liftR (Inl ending)))
          (close_targets (lr_close l)))))))
       (answered (lr_leave l)))))"

section \<open>Facts\<close>

text \<open>The default topics.\<close>

lemma default_topics:
  "format_fields [ustr ''iata'' \<mapsto> iata, ustr ''observer_pub'' \<mapsto> key] (ustr ''meshcore/{iata}/{observer_pub}/packets'') =
    Some (Inr (ustr ''meshcore/'' @ iata @ ustr ''/'' @ key @ ustr ''/packets''))"
  "format_fields [ustr ''iata'' \<mapsto> iata, ustr ''observer_pub'' \<mapsto> key] (ustr ''meshcore/{iata}/{observer_pub}/status'') =
    Some (Inr (ustr ''meshcore/'' @ iata @ ustr ''/'' @ key @ ustr ''/status''))"
  by (simp_all add: ustr_def format_field_def str_partition_def)

lemma close_targets_closes:
  assumes "\<And>j. answers j = None"
  shows "wp (close_targets answers) (\<lambda>_ n. \<forall>f \<in> set (ob_targets (od_observer n)). \<not> ft_client f) (\<lambda>_. False) n"
proof -
  obtain fs' where "close_all answers 0 (ob_targets (od_observer n)) = (Inr (), fs')" "\<forall>f \<in> set fs'. \<not> ft_client f"
    using all_closed [of answers 0 "ob_targets (od_observer n)"] assms by blast
  then show ?thesis by (simp add: wp_def close_targets_def)
qed

lemma targets_start_closed: "\<forall>f \<in> set (ob_targets (start_observer c i)). \<not> ft_client f"
  by (auto simp: start_observer_def make_forwarders_def Let_def new_target_def split: if_splits)

lemma observer_service_closes:
  assumes "\<And>j. lr_close l j = None" "\<forall>f \<in> set (ob_targets (od_observer n)). \<not> ft_client f"
  shows "wp (observer_service C repr_of other st lat lon who l ending ts) (\<lambda>_ _. False)
    (\<lambda>n. \<forall>f \<in> set (ob_targets (od_observer n)). \<not> ft_client f) n"
proof -
  let ?closed = "\<lambda>n. \<forall>f \<in> set (ob_targets (od_observer n)). \<not> ft_client f"
  have close: "wp (close_targets (lr_close l)) (\<lambda>_. ?closed) ?closed n" for n
    by (rule wp_mono [OF close_targets_closes]) (use assms(1) in auto)
  have tasks: "wp (forIO ts step) (\<lambda>_. wp (close_targets (lr_close l)) (\<lambda>_. ?closed) ?closed)
      (wp (close_targets (lr_close l)) (\<lambda>_. ?closed) ?closed) n" for step n
    by (rule wp_always) (rule close)+
  show ?thesis
    unfolding observer_service_def Let_def
    using assms(2) targets_start_closed
    by (auto simp: wp split: sum.splits option.splits intro!: wp_mono [OF tasks] wp_mono [OF close])
qed

section \<open>Properties\<close>


definition demo_observer_settings :: observer_settings where
  "demo_observer_settings = \<lparr> ost_identity_path = [], ost_identity_seed = None, ost_iata_code = ustr ''AMS'', ost_token_audience = None,
     ost_mqtt_local = demo_conf, ost_mqtt_cornmeister = demo_conf, ost_mqtt_radar = demo_conf,
     ost_enable_cornmeister = True, ost_enable_radar = False, ost_rx_topic = ustr ''mesh/rx'',
     ost_cornmeister_topic_template = ustr ''meshcore/{iata}/{observer_pub}/packets'',
     ost_radar_topic_template = ustr ''meshcore/{iata}/{observer_pub}/packets'',
     ost_status_topic_template = ustr ''meshcore/{iata}/{observer_pub}/status'', ost_name = None, ost_lat = None, ost_lon = None,
     ost_tx_topic = ustr ''mesh/tx'', ost_advert_interval_s = 60, ost_advert_flood = True \<rparr>"


end
