(* ===== verification/Sniffer.thy ===== *)
theory Sniffer
  imports Advert CommandLine
begin

text \<open>
  The packet sniffer (\<open>mesh_gateway/sniff.py\<close>): the line it prints for a message, its loop over the messages of the
  receive topic, and the arguments of its client. The text of an exception and \<open>repr\<close> of a string are arguments.
\<close>

section \<open>Formatting\<close>

text \<open>The names of the enumeration members, as \<open>route_name\<close> of the echo server; a raw integer has none and is printed itself.\<close>

fun payload_label :: "payload_type \<Rightarrow> ustring" where
  "payload_label REQ = ustr ''REQ''"
| "payload_label RESPONSE = ustr ''RESPONSE''"
| "payload_label TXT_MSG = ustr ''TXT_MSG''"
| "payload_label ACK = ustr ''ACK''"
| "payload_label ADVERT = ustr ''ADVERT''"
| "payload_label GRP_TXT = ustr ''GRP_TXT''"
| "payload_label GRP_DATA = ustr ''GRP_DATA''"
| "payload_label ANON_REQ = ustr ''ANON_REQ''"
| "payload_label PATH = ustr ''PATH''"
| "payload_label TRACE = ustr ''TRACE''"
| "payload_label MULTIPART = ustr ''MULTIPART''"
| "payload_label CONTROL = ustr ''CONTROL''"
| "payload_label RAW_CUSTOM = ustr ''RAW_CUSTOM''"
| "payload_label (RawPayload n) = int_str n"

fun ver_label :: "payload_ver \<Rightarrow> ustring" where
  "ver_label V1 = ustr ''V1''"
| "ver_label V2 = ustr ''V2''"
| "ver_label V3 = ustr ''V3''"
| "ver_label V4 = ustr ''V4''"
| "ver_label (RawVer n) = int_str n"

text \<open>\<open>format(n, "#06x")\<close> of a number that is not negative, and \<open>format(x, ".6f")\<close>: the exact value rounded half to even.\<close>

fun nat_hex :: "nat \<Rightarrow> ustring" where
  "nat_hex n = (if n < 16 then [hex_digit n] else nat_hex (n div 16) @ [hex_digit (n mod 16)])"

declare nat_hex.simps [simp del]

definition zero_pad :: "nat \<Rightarrow> ustring \<Rightarrow> ustring" where
  "zero_pad width s = replicate (width - length s) 48 @ s"

definition hex_06x :: "int \<Rightarrow> ustring" where
  "hex_06x n = ustr ''0x'' @ zero_pad 4 (nat_hex (nat n))"

definition fixed_6f :: "rat \<Rightarrow> ustring" where
  "fixed_6f x =
     (let n = nat (py_round (\<bar>x\<bar> * 1000000)) in
      (if x < 0 then ustr ''-'' else []) @ nat_str (n div 1000000) @ ustr ''.'' @ zero_pad 6 (nat_str (n mod 1000000)))"

definition bool_str :: "bool \<Rightarrow> ustring" where
  "bool_str b = ustr (if b then ''True'' else ''False'')"

section \<open>The summary of a message\<close>

text \<open>The parts for an advert; \<open>ad.type\<close> is a plain integer, which has no \<open>name\<close>.\<close>

definition advert_parts :: "crypto_lib \<Rightarrow> (ustring \<Rightarrow> ustring) \<Rightarrow> bytes \<Rightarrow> ustring list \<times> exn option" where
  "advert_parts C py_repr payload =
     (case decode_advert payload of
        Inl e \<Rightarrow> ([], Some e)
      | Inr advert \<Rightarrow>
          let ad = av_app_data advert;
              parts = [ustr ''pub='' @ bytes_hex (take 4 (av_pub_key advert)) @ [0x2026],
                       ustr ''ts='' @ int_str (av_timestamp advert), ustr ''adv_type='' @ int_str (ad_type ad)] @
                (if ad_name ad \<noteq> [] then [ustr ''name='' @ py_repr (ad_name ad)] else []) @
                (case (ad_lat ad, ad_lon ad) of
                   (Some lat, Some lon) \<Rightarrow> [ustr ''pos=('' @ fixed_6f lat @ ustr '','' @ fixed_6f lon @ ustr '')'']
                 | _ \<Rightarrow> []) in
          (case signature_valid C advert of
             Inl e \<Rightarrow> (parts, Some e)
           | Inr valid \<Rightarrow> (parts @ [ustr ''sig_valid='' @ bool_str valid], None)))"

definition format_packet_summary :: "crypto_lib \<Rightarrow> (bytes \<Rightarrow> ustring) \<Rightarrow> (ustring \<Rightarrow> ustring) \<Rightarrow> bytes \<Rightarrow> ustring res" where
  "format_packet_summary C error_text py_repr raw =
     (case decode_packet raw of
        Inl e \<Rightarrow>
          if caught_by_ValueError e
          then Inr (ustr ''undecodable ('' @ error_text raw @ ustr ''); '' @ int_str (int (length raw)) @ ustr '' bytes: '' @ bytes_hex raw)
          else Inl e
      | Inr pkt \<Rightarrow>
          bindR (hash_count pkt) (\<lambda>hops.
          let parts = [ustr ''route='' @ route_name (pkt_route pkt), ustr ''type='' @ payload_label (pkt_type pkt),
                ustr ''ver='' @ ver_label (pkt_ver pkt), ustr ''hash_size='' @ int_str (pkt_hash_size pkt),
                ustr ''hops='' @ int_str hops, ustr ''payload='' @ int_str (int (length (pkt_payload pkt))) @ ustr ''B''] @
                (case pkt_codes pkt of
                   None \<Rightarrow> []
                 | Some (c1, c2) \<Rightarrow> [ustr ''tc=('' @ hex_06x c1 @ ustr '','' @ hex_06x c2 @ ustr '')'']) in
          if pkt_type pkt \<noteq> ADVERT then Inr (str_join (ustr '' '') parts)
          else
            (case advert_parts C py_repr (pkt_payload pkt) of
               (more_parts, None) \<Rightarrow> Inr (str_join (ustr '' '') (parts @ more_parts))
             | (more_parts, Some e) \<Rightarrow>
                 if caught_by_ValueError e
                 then Inr (str_join (ustr '' '') (parts @ more_parts @ [ustr ''advert decode failed: '' @ error_text (pkt_payload pkt)]))
                 else Inl e)))"

section \<open>The loop\<close>

text \<open>The messages, with the time of day that is printed before each; the state is the lines printed.\<close>

definition sniff_message ::
    "crypto_lib \<Rightarrow> (bytes \<Rightarrow> ustring) \<Rightarrow> (ustring \<Rightarrow> ustring) \<Rightarrow> bytes option \<times> ustring \<Rightarrow> (ustring list, unit) io" where
  "sniff_message C error_text py_repr msg =
     (case msg of (data, ts) \<Rightarrow>
        bindIO (liftR (format_packet_summary C error_text py_repr (case data of None \<Rightarrow> [] | Some b \<Rightarrow> b))) (\<lambda>summary.
        modifyIO (\<lambda>out. out @ [ustr ''['' @ ts @ ustr ''] '' @ summary])))"

definition sniff_run ::
    "crypto_lib \<Rightarrow> (bytes \<Rightarrow> ustring) \<Rightarrow> (ustring \<Rightarrow> ustring) \<Rightarrow> (bytes option \<times> ustring) list \<Rightarrow> (ustring list, unit) io" where
  "sniff_run C error_text py_repr msgs = forIO msgs (sniff_message C error_text py_repr)"

text \<open>The arguments of its client, and \<open>main\<close>. \<open>TLSParameters()\<close> has no files and checks the broker's certificate.\<close>

definition sniff_client_kwargs :: "mqtt_config \<Rightarrow> (ustring \<rightharpoonup> client_arg)" where
  "sniff_client_kwargs c =
     [ustr ''hostname'' \<mapsto> StrArg (Some (mq_host c)), ustr ''port'' \<mapsto> IntArg (mq_port c),
      ustr ''username'' \<mapsto> StrArg (mq_username c), ustr ''password'' \<mapsto> StrArg (mq_password c),
      ustr ''tls_params'' \<mapsto> TlsArg (if mq_use_tls c
        then Some \<lparr> tls_ca_certs = None, tls_cert = None, tls_key = None, tls_cert_required = True \<rparr> else None)]"

definition sniff_main ::
    "(ustring \<Rightarrow> bool) \<Rightarrow> (gateway_settings \<Rightarrow> ustring \<Rightarrow> bool res) \<Rightarrow> ustring option \<Rightarrow> ustring \<Rightarrow> environment \<Rightarrow> int res" where
  "sniff_main netloc_ok run mqtt_url rx_topic env =
     bindR (gateway_from_env netloc_ok (with_text ''MESH_GATEWAY_MQTT_URL'' mqtt_url env)) (\<lambda>st. exit_status (run st rx_topic))"

section \<open>Facts\<close>

lemma decoded_signature:
  assumes "decode_advert payload = Inr a"
  shows "\<exists>msg. signed_message a = Inr msg \<and> signature_valid C a = Inr (verify C (av_pub_key a) (av_signature a) msg)"
proof -
  have "av_timestamp a = from_bytes_le (py_slice 32 36 payload)"
    using assms by (auto simp: decode_advert_def advert_consts Let_def split: if_splits)
  moreover have "length (py_slice 32 36 payload) \<le> 4" by (simp add: py_slice_def)
  ultimately have "0 \<le> av_timestamp a \<and> av_timestamp a < 256 ^ 4"
    using from_bytes_le_bounds [of "py_slice 32 36 payload"]
    by (smt (verit) power_increasing_iff)
  then show ?thesis by (simp add: signature_valid_def signed_message_def advert_consts to_bytes_le_def)
qed

lemma decode_advert_Inl: "decode_advert payload = Inl e \<Longrightarrow> e = ValueError"
  by (auto simp: decode_advert_def decode_advert_data_def decode_latlon_def decode_feat_def Let_def split: if_splits prod.splits)

lemma advert_parts_ends:
  "(\<exists>parts valid. advert_parts C py_repr payload = (parts @ [ustr ''sig_valid='' @ bool_str valid], None)) \<or>
   advert_parts C py_repr payload = ([], Some ValueError)"
proof (cases "decode_advert payload")
  case (Inl e)
  then show ?thesis using decode_advert_Inl [OF Inl] by (simp add: advert_parts_def)
next
  case (Inr a)
  then show ?thesis using decoded_signature [OF Inr, of C] by (auto simp: advert_parts_def Let_def)
qed

lemma hash_count_decoded: "decode_packet raw = Inr p \<Longrightarrow> \<exists>n. hash_count p = Inr n"
  using decode_packet_Inr(1) [of raw p] by (auto simp: hash_count_def wf_packet_def path_ok_def)

lemma summary_total: "\<exists>s. format_packet_summary C error_text py_repr raw = Inr s"
proof (cases "decode_packet raw")
  case (Inl e)
  then show ?thesis using decode_packet_Inl [OF Inl] by (simp add: format_packet_summary_def caught_by_ValueError_def)
next
  case (Inr p)
  obtain n where n: "hash_count p = Inr n" using hash_count_decoded [OF Inr] by blast
  show ?thesis using advert_parts_ends [of C py_repr "pkt_payload p"] Inr n
    by (auto simp: format_packet_summary_def caught_by_ValueError_def Let_def)
qed

text \<open>The summary of an advert ends with the verdict on its signature.\<close>

lemma summary_tells_signature:
  assumes "decode_packet raw = Inr p" "pkt_type p = ADVERT" "decode_advert (pkt_payload p) = Inr a"
  shows "\<exists>start valid. format_packet_summary C error_text py_repr raw = Inr (start @ ustr '' sig_valid='' @ bool_str valid) \<and>
    signature_valid C a = Inr valid"
proof -
  obtain n where n: "hash_count p = Inr n" using hash_count_decoded [OF assms(1)] by blast
  obtain valid where v: "signature_valid C a = Inr valid" using decoded_signature [OF assms(3), of C] by blast
  have join: "l \<noteq> [] \<Longrightarrow> \<exists>start. str_join sep (l @ [y]) = start @ sep @ y" for sep y :: ustring and l
  proof (induction l)
    case (Cons z zs)
    show ?case
    proof (cases zs)
      case (Cons u us)
      then obtain start where "str_join sep (zs @ [y]) = start @ sep @ y" using Cons.IH by blast
      then have "str_join sep ((z # zs) @ [y]) = (z @ sep @ start) @ sep @ y" using Cons by simp
      then show ?thesis by blast
    qed simp
  qed simp
  obtain parts where parts: "advert_parts C py_repr (pkt_payload p) = (parts @ [ustr ''sig_valid='' @ bool_str valid], None)"
    using assms(3) v by (auto simp: advert_parts_def Let_def)
  let ?head = "[ustr ''route='' @ route_name (pkt_route p), ustr ''type='' @ payload_label (pkt_type p),
         ustr ''ver='' @ ver_label (pkt_ver p), ustr ''hash_size='' @ int_str (pkt_hash_size p),
         ustr ''hops='' @ int_str n, ustr ''payload='' @ int_str (int (length (pkt_payload p))) @ ustr ''B''] @
        (case pkt_codes p of None \<Rightarrow> [] | Some (c1, c2) \<Rightarrow> [ustr ''tc=('' @ hex_06x c1 @ ustr '','' @ hex_06x c2 @ ustr '')''])"
  let ?verdict = "ustr ''sig_valid='' @ bool_str valid"
  have "format_packet_summary C error_text py_repr raw = Inr (str_join (ustr '' '') ((?head @ parts) @ [?verdict]))"
    using assms(1,2) n parts by (simp add: format_packet_summary_def Let_def del: str_join.simps)
  moreover obtain start where "str_join (ustr '' '') ((?head @ parts) @ [?verdict]) = start @ ustr '' '' @ ?verdict"
    using join [of "?head @ parts" "ustr '' ''" ?verdict] by auto
  ultimately show ?thesis using v by (auto simp: ustr_def)
qed

text \<open>
  The sniffer's client is not the one of the settings: a broker behind a web socket is addressed over TCP, and a configured
  certificate authority is not passed on.
\<close>

lemma sniffer_ignores_transport:
  "mq_transport c = Websockets \<Longrightarrow> client_kwargs c Map.empty (ustr ''transport'') = Some (TransportArg Websockets) \<and>
    sniff_client_kwargs c (ustr ''transport'') = None"
  by (simp add: client_kwargs_def sniff_client_kwargs_def)

lemma sniffer_ignores_ca:
  "mq_use_tls c \<Longrightarrow> mq_tls_ca_cert c = Some ca \<Longrightarrow>
    sniff_client_kwargs c (ustr ''tls_params'') \<noteq> client_kwargs c Map.empty (ustr ''tls_params'')"
  by (simp add: client_kwargs_def sniff_client_kwargs_def tls_params_def)

section \<open>Properties\<close>

text \<open>
  Property (C40): no message stops the sniffer. Whatever messages arrive on the receive topic, bytes or not, packets or not, its
  loop returns, and it has printed one line for each of them in order: the time and the summary of the message.
\<close>

theorem sniffer_prints_every_message:
  "\<exists>out. sniff_run C error_text py_repr msgs printed = (Inr (), printed @ out) \<and>
    list_all2 (\<lambda>(data, ts) line. \<exists>s. format_packet_summary C error_text py_repr (case data of None \<Rightarrow> [] | Some b \<Rightarrow> b) = Inr s \<and>
      line = ustr ''['' @ ts @ ustr ''] '' @ s) msgs out"
proof (induction msgs arbitrary: printed)
  case Nil
  then show ?case by (simp add: sniff_run_def returnIO_def)
next
  case (Cons msg msgs)
  obtain data ts where m: "msg = (data, ts)" by (cases msg)
  obtain s where s: "format_packet_summary C error_text py_repr (case data of None \<Rightarrow> [] | Some b \<Rightarrow> b) = Inr s"
    using summary_total by blast
  let ?line = "ustr ''['' @ ts @ ustr ''] '' @ s"
  have step: "sniff_message C error_text py_repr msg printed = (Inr (), printed @ [?line])"
    by (simp add: sniff_message_def m io_defs s)
  obtain out where "sniff_run C error_text py_repr msgs (printed @ [?line]) = (Inr (), (printed @ [?line]) @ out)"
    "list_all2 (\<lambda>(data, ts) line. \<exists>s. format_packet_summary C error_text py_repr (case data of None \<Rightarrow> [] | Some b \<Rightarrow> b) = Inr s \<and>
      line = ustr ''['' @ ts @ ustr ''] '' @ s) msgs out"
    using Cons.IH [of "printed @ [?line]"] by blast
  then show ?case using step s m
    by (intro exI [of _ "?line # out"]) (simp add: sniff_run_def bindIO_def)
qed

end
