(* ===== verification/Spec2Isabelle.thy ===== *)
theory Spec2Isabelle
  imports PyStr PyFloat Packet Kiss Crypto Messaging Delivery RoomCodec Advert Identity RoomStore RoomServer
    Gateway EchoServer ContactCache EchoConfig MqttConf Token Observer Forwarder Composition
    RoomTasks RoomLoopback EchoLoopback CommandLine Service ObserverRun Sniffer
begin

text \<open>
  Verification development for softmesh, the Python services of a MeshCore radio mesh.

  \<^bold>\<open>The program.\<close> A KISS modem on a serial line is the only radio. The gateway (\<open>mesh_gateway\<close>)
  publishes the frames it hears on the MQTT topic \<open>mesh/rx\<close> and transmits what the services publish on
  \<open>mesh/tx\<close>, within a duty cycle. The services are nodes of the mesh with their own keys: the echo
  server (\<open>home_auto_client\<close>) answers messages of contacts it learned from signed adverts, the room server
  (\<open>room_server\<close>) stores the posts of logged-in clients and pushes them to the others, the observer
  (\<open>observer\<close>) reports every frame to collectors. All use one library (\<open>softmesh_stack\<close>) of packet,
  message, advert and KISS codecs, keys and delivery with acknowledgement.

  \<^bold>\<open>The language.\<close> \<open>Prelude\<close>: exceptions as values of a sum type (\<open>res\<close>), computations with effects as
  functions of a world that may raise and keep what they changed (\<open>io\<close>), their weakest preconditions
  (\<open>wp\<close>, collected in \<open>named_theorems wp\<close>), loops over handlers, and the locales \<open>machine\<close>, \<open>codec\<close> and
  \<open>canonical_codec\<close>. \<open>PyBytes\<close>, \<open>Bits\<close>, \<open>PyStr\<close>, \<open>PyFloat\<close>, \<open>PyJson\<close>: what the source uses of Python's
  bytes, unbounded integers, text (lists of code points, UTF-8, hexadecimal), floats (rationals rounded to
  binary64 by \<open>fl\<close>) and JSON. \<open>JsonRead\<close>: \<open>json.loads\<close>, which reads back what \<open>json.dumps\<close> writes in every layout
  the code uses. Where a conversion can raise in Python it has that branch here.

  \<^bold>\<open>softmesh_stack.\<close> \<open>Packet\<close> (\<open>packet.py\<close>), \<open>Kiss\<close> (\<open>kiss.py\<close>), \<open>Crypto\<close> (\<open>crypto.py\<close>), \<open>Messaging\<close> and
  \<open>Delivery\<close> (\<open>messaging.py\<close>), \<open>RoomCodec\<close> (\<open>room.py\<close>), \<open>Advert\<close> (\<open>advert.py\<close>), \<open>Identity\<close>
  (\<open>identity.py\<close>), \<open>Radio\<close> (\<open>radio.py\<close>), \<open>MqttConf\<close> (\<open>mqtt.py\<close>). The definitions bear the names of the
  functions. The lemmas show that the packet decoder accepts exactly the images of well-formed packets; that
  the KISS decoder computes the reference meaning of a byte stream and recovers after garbage; that
  messages, logins, pushes and adverts open to what was sealed and both ends compute the same ACK hash; that
  no received payload makes a decoder raise anything its caller does not catch; and that a delivery
  returns, follows its plan of attempts and never sends the same message twice.

  \<^bold>\<open>The room server.\<close> \<open>RoomStore\<close> (\<open>db.py\<close>: the tables, by the documented meaning of the SQL statements),
  \<open>RoomModel\<close> (\<open>protocol.py\<close>: the record \<open>server\<close> holds the fields of \<open>RoomServer\<close>, the store, the tasks that
  were started and the frames that were published; one definition per method), \<open>RoomInvariant\<close>
  (well-formedness, kept by every handler whatever arrives), \<open>RoomServer\<close> (what a post, a login and an
  acknowledgement do), \<open>RoomTasks\<close> (the server as a system of tasks, \<open>run_room\<close>: frames, adverts and the tasks the
  handlers started, nested in any way in the waits; what a synchronisation pushes).

  \<^bold>\<open>The echo server.\<close> \<open>EchoModel\<close> (\<open>echo_server.py\<close>), \<open>EchoInvariant\<close> (the server as a system of tasks: frames,
  adverts and echoes nested in any way, \<open>run_event\<close>), \<open>EchoServer\<close> (messages, copies, echoes, discovery),
  \<open>ContactCache\<close> (the cache file), \<open>EchoConfig\<close> (the lists of keys in \<open>config.py\<close>). \<open>NodeCommon\<close> has what
  both servers contain word for word, and the contract of a wait for an acknowledgement as a locale
  (\<open>ack_waits\<close>), interpreted for each.

  \<^bold>\<open>The gateway.\<close> \<open>Gateway\<close> (\<open>gateway.py\<close>, \<open>config.py\<close>): airtime, the transmit task as a state machine
  (\<open>tx_step\<close>) that refines a queue, the receive task, the programming of the modem, the connection loops.

  \<^bold>\<open>The observer.\<close> \<open>Observer\<close> and \<open>Forwarder\<close> (\<open>reporter.py\<close>), \<open>Token\<close> (\<open>auth.py\<close>): packet hash, events,
  status messages, token, forward targets with their back-off, the loops.

  \<^bold>\<open>Together.\<close> \<open>Composition\<close>: an attempt of a delivery is received by a server as the message that was sent, and
  the server's reply confirms it to the sender. \<open>Loopback\<close> models the two test drivers under \<open>tools/\<close> as programs
  that return an exit code; \<open>RoomLoopback\<close> shows that the room's test passes against the modelled room server,
  \<open>EchoLoopback\<close> that the echo server's test cannot.

  \<^bold>\<open>Running the services.\<close> \<open>Settings\<close> (the \<open>config.py\<close> of each package: \<open>from_env\<close> over a map of variables, with
  what \<open>float\<close>, \<open>int\<close> and \<open>str.format\<close> make of their texts; a room without passwords admits nobody), \<open>CommandLine\<close> (the
  \<open>__main__.py\<close> files: arguments written into the environment, exit codes), \<open>Service\<close> and \<open>ObserverRun\<close> (\<open>run\<close> of the two servers
  and of the observer as computations that always end with an exception: connecting, the status messages, the loops as a prefix of the steps of the
  component's system, and what the \<open>finally\<close> blocks release), \<open>Sniffer\<close> (\<open>sniff.py\<close>: the line printed for a message).

  \<^bold>\<open>Concurrency.\<close> The services are single-threaded asyncio programs: code between two awaits is atomic. A
  wait for an acknowledgement is split into its registration and its end, and what other tasks do in
  between is an argument (\<open>during\<close>) or a list of nested events; every publish may raise, as the world
  says. The targets of the observer share no state, so each runs on its own.

  \<^bold>\<open>Third-party code\<close> is a parameter: the record \<open>crypto_lib\<close> holds the primitives of \<open>cryptography\<close> and
  \<open>pynacl\<close>, whose documented laws are the hypotheses \<open>crypto_laws\<close>, \<open>dh_law\<close> and \<open>x25519_law\<close>, satisfied
  by \<open>demo_lib\<close>, on which the witnesses run. Clock readings, random bytes, arriving messages and how calls of
  the MQTT client end are inputs.

  \<^bold>\<open>Bounds.\<close> No definition uses fuel: loops are structural over their input, and the recursions of the
  library definitions have measures. Rounding of float sums in the gateway is bounded by \<open>2\<close> to the power
  \<open>-47\<close> per entry. Row ids and times of the store are required to fit 64 bits where SQLite needs it.

  \<^bold>\<open>Not modelled\<close>: logging and its texts, the MQTT client and broker, SQLite's and the file system's
  failures beyond the outcomes named above, \<open>argparse\<close>'s reading of the arguments, how \<open>json.loads\<close> finds the encoding of bytes, what a cancelled task does between its
  cancellation and its end, and computing with infinities and NaNs (settings read as such are kept as values of \<open>py_float\<close>). Each is either input and
  output only or a library the sources merely call.
\<close>

end
